theory Spec2Isabelle
  imports Complex_Main "HOL-Library.Word"
begin

section \<open>The model fetcher: scripts/download\_mediapipe\_lite.py\<close>

text \<open>
  The script creates \<^verbatim>\<open>assets/models\<close>, fetches one fixed URL into it with
  \<^verbatim>\<open>urllib.request.urlretrieve\<close>, prints progress from a callback, and reports the
  size of the file it finds afterwards. Everything it does is an effect, so the model
  threads a \<open>world\<close> (file tree, working directory, standard output) through every
  operation, and an operation that can raise returns \<open>Inl\<close> of the exception together
  with the world as it was left at the raise. Printing is such an operation: a
  \<^verbatim>\<open>print\<close> raises when the encoding of standard output has no code for a character
  of the text, or when the write fails.

  What the script calls but does not define (\<^verbatim>\<open>Path.mkdir\<close>, \<^verbatim>\<open>urlretrieve\<close>,
  \<^verbatim>\<open>open\<close>, \<^verbatim>\<open>stat\<close>, \<^verbatim>\<open>print\<close>, true division, float formatting) is modelled
  after CPython. The network, the state of standard output, and the faults of the
  operating system that do not follow from the file tree, are an \<open>env\<close> the model is
  given.
\<close>

subsection \<open>Exceptions\<close>

datatype exn_class =
    FileExistsError | FileNotFoundError | NotADirectoryError | IsADirectoryError
  | PermissionError | BrokenPipeError | OSError | URLError | HTTPError
  | ContentTooShortError | UnicodeEncodeError | ZeroDivisionError | OverflowError
  | KeyboardInterrupt

datatype exn = Exn (cls: exn_class) (msg: string)

text \<open>
  \<^verbatim>\<open>except Exception\<close> catches every class above but \<^verbatim>\<open>KeyboardInterrupt\<close>, which
  derives from \<^verbatim>\<open>BaseException\<close> only.
\<close>

fun is_Exception :: "exn \<Rightarrow> bool" where
  "is_Exception (Exn KeyboardInterrupt m) = False"
| "is_Exception (Exn c m) = True"

subsection \<open>Numbers: doubles, true division and fixed-point formatting\<close>

text \<open>
  Python's integers are unbounded (\<open>int\<close>). A float is an IEEE 754 double, represented
  here by the real number it stands for; every operation that yields a float rounds its
  exact result to the nearest double, ties to the even significand. The sign of a zero
  is not represented.
\<close>

definition round_half_even :: "real \<Rightarrow> int" where
  "round_half_even q =
     (let f = \<lfloor>q\<rfloor>; r = q - real_of_int f
      in if r < 1 / 2 then f
         else if 1 / 2 < r then f + 1
         else if even f then f else f + 1)"

definition pow2 :: "int \<Rightarrow> real" where
  "pow2 k = (if 0 \<le> k then 2 ^ nat k else 1 / 2 ^ nat (- k))"

text \<open>The number of binary digits of \<open>n\<close>.\<close>

function bit_length :: "nat \<Rightarrow> nat" where
  "bit_length n = (if n = 0 then 0 else Suc (bit_length (n div 2)))"
  by pat_completeness auto
termination
  by (relation "measure (\<lambda>n. n)") auto

declare bit_length.simps [simp del]

text \<open>The binary exponent of \<open>q > 0\<close>: the \<open>e\<close> with \<open>2^e \<le> q < 2^(e+1)\<close>.\<close>

definition ilog2 :: "real \<Rightarrow> int" where
  "ilog2 q =
     (if 1 \<le> q then int (bit_length (nat \<lfloor>q\<rfloor>)) - 1
      else (let k = int (bit_length (nat \<lfloor>1 / q\<rfloor>))
            in if q * pow2 (k - 1) = 1 then 1 - k else - k))"

text \<open>
  The spacing of the doubles around \<open>x\<close>: \<open>2^(e-52)\<close> where \<open>e\<close> is the exponent
  of \<open>x\<close>, and \<open>2^(-1074)\<close> in the subnormal range.
\<close>

definition ulp :: "real \<Rightarrow> real" where
  "ulp x = pow2 (max (ilog2 \<bar>x\<bar>) (- 1022) - 52)"

text \<open>The double nearest to \<open>x\<close>, for \<open>x\<close> below the overflow threshold.\<close>

definition to_double :: "real \<Rightarrow> real" where
  "to_double x =
     (if x = 0 then 0
      else sgn x * real_of_int (round_half_even (\<bar>x\<bar> / ulp x)) * ulp x)"

text \<open>
  A result whose magnitude reaches \<open>2^1024 - 2^970\<close>, half an ulp above the largest
  double, has no finite double: \<^verbatim>\<open>a / b\<close> on integers raises \<^verbatim>\<open>OverflowError\<close>
  there, and so does the conversion of an integer to a float.
\<close>

definition dbl_limit :: real where
  "dbl_limit = 2 ^ 1024 - 2 ^ 970"

text \<open>\<^verbatim>\<open>a / b\<close> on two integers: the correctly rounded quotient.\<close>

definition int_truediv :: "int \<Rightarrow> int \<Rightarrow> exn + real" where
  "int_truediv a b =
     (if b = 0 then Inl (Exn ZeroDivisionError ''division by zero'')
      else if dbl_limit \<le> \<bar>real_of_int a / real_of_int b\<bar>
        then Inl (Exn OverflowError ''integer division result too large for a float'')
      else Inr (to_double (real_of_int a / real_of_int b)))"

text \<open>\<^verbatim>\<open>x / b\<close> on a float and an integer: \<open>b\<close> is converted to a float first.\<close>

definition float_truediv :: "real \<Rightarrow> int \<Rightarrow> exn + real" where
  "float_truediv x b =
     (if dbl_limit \<le> \<bar>real_of_int b\<bar>
        then Inl (Exn OverflowError ''int too large to convert to float'')
      else if b = 0 then Inl (Exn ZeroDivisionError ''float division by zero'')
      else Inr (to_double (x / to_double (real_of_int b))))"

text \<open>The expression \<^verbatim>\<open>n / 1024 / 1024\<close> of lines 35 and 43.\<close>

definition mib :: "int \<Rightarrow> exn + real" where
  "mib n = (case int_truediv n 1024 of Inl e \<Rightarrow> Inl e | Inr x \<Rightarrow> float_truediv x 1024)"

text \<open>
  \<^verbatim>\<open>f"{x:.1f}"\<close> and \<^verbatim>\<open>f"{x:.2f}"\<close>: the decimal expansion of the value, correctly
  rounded to \<open>d\<close> places with ties to even, a minus sign for a negative value.
\<close>

definition digit_char :: "nat \<Rightarrow> char" where
  "digit_char n = ''0123456789'' ! n"

function dec_digits :: "nat \<Rightarrow> string" where
  "dec_digits n =
     (if n < 10 then [digit_char n]
      else dec_digits (n div 10) @ [digit_char (n mod 10)])"
  by pat_completeness auto
termination
  by (relation "measure (\<lambda>n. n)") auto

declare dec_digits.simps [simp del]

definition format_fixed :: "nat \<Rightarrow> real \<Rightarrow> string" where
  "format_fixed d x =
     (let n = nat (round_half_even (\<bar>x\<bar> * 10 ^ d));
          ip = dec_digits (n div 10 ^ d);
          fp = dec_digits (n mod 10 ^ d)
      in (if x < 0 then ''-'' else '''') @ ip @
         (if d = 0 then '''' else ''.'' @ replicate (d - length fp) (CHR ''0'') @ fp))"

text \<open>
  Reading a printed figure back: the number denoted by a string of decimal digits, and
  by a numeral with exactly \<open>d\<close> digits after the point. These read the output; the
  script has no counterpart of them.
\<close>

definition is_digit :: "char \<Rightarrow> bool" where
  "is_digit c = (48 \<le> (of_char c :: nat) \<and> (of_char c :: nat) \<le> 57)"

definition decimal_value :: "string \<Rightarrow> nat" where
  "decimal_value s = foldl (\<lambda>a c. 10 * a + (of_char c - 48)) 0 s"

definition fixed_value :: "nat \<Rightarrow> string \<Rightarrow> real option" where
  "fixed_value d s =
     (let t = (if take 1 s = ''-'' then drop 1 s else s);
          ip = take (length t - (d + 1)) t;
          fp = drop (length t - d) t
      in if d + 1 < length t \<and> t ! (length t - (d + 1)) = CHR ''.'' \<and>
            list_all is_digit ip \<and> list_all is_digit fp
         then Some ((if take 1 s = ''-'' then - 1 else 1) *
                    real (decimal_value (ip @ fp)) / 10 ^ d)
         else None)"

subsection \<open>The world: file tree, working directory, standard output\<close>

type_synonym byte = "8 word"

type_synonym path = "string list"

datatype node = File (content: "byte list") | Dir (writable: bool)

text \<open>
  \<open>nodes\<close> maps an absolute path (its components from the root) to what is there;
  \<open>stdout\<close> holds the text of every write, in order. A text is a list of bytes: ASCII
  characters stand for themselves, any other character is its UTF-8 sequence.
\<close>

record world =
  nodes :: "path \<rightharpoonup> node"
  cwd :: path
  stdout :: "string list"

datatype response =
  Response (content_length: "int option") (reads: "(exn + byte list) list")

text \<open>
  The environment of one run. \<open>urlopen\<close> is what opening a URL gives: an exception
  (DNS failure, refused connection, HTTP error status) or a response, with its
  Content-Length header if there is one and the results of the successive
  \<^verbatim>\<open>fp.read(bs)\<close> calls, each a block or an exception. \<open>write_fault k\<close> is the error,
  if any, of writing block \<open>k\<close> to the destination file (a full disk); \<open>stat_fault\<close> is
  the error, if any, of the \<^verbatim>\<open>stat\<close> after the transfer (the file taken away by
  someone else); \<open>script_file\<close> is \<^verbatim>\<open>__file__\<close>. \<open>stdout_utf8\<close> tells whether the
  encoding of standard output is UTF-8, which has every character; otherwise it is one
  that has the ASCII characters only, as far as this script's texts go (ASCII, Latin-1
  and cp1252 have neither of the two marks the script prints). \<open>stdout_closed k\<close> tells
  whether the write that follows \<open>k\<close> earlier ones finds the pipe closed by its reader;
  the stream is taken as unbuffered (a buffered one raises at its next flush, which for
  the progress line is the \<^verbatim>\<open>print\<close> itself).
\<close>

record env =
  urlopen :: "string \<Rightarrow> exn + response"
  write_fault :: "nat \<Rightarrow> exn option"
  stat_fault :: "exn option"
  script_file :: path
  stdout_utf8 :: bool
  stdout_closed :: "nat \<Rightarrow> bool"

definition ascii :: "string \<Rightarrow> bool" where
  "ascii s = list_all (\<lambda>c. (of_char c :: nat) < 128) s"

text \<open>
  \<^verbatim>\<open>sys.stdout.write(s)\<close> followed by a flush: the text is encoded first
  (\<^verbatim>\<open>errors='strict'\<close>), then written.
\<close>

definition write_stdout :: "env \<Rightarrow> string \<Rightarrow> world \<Rightarrow> (exn + unit) \<times> world" where
  "write_stdout en s w =
     (if \<not> stdout_utf8 en \<and> \<not> ascii s
        then (Inl (Exn UnicodeEncodeError ''character maps to <undefined>''), w)
      else if stdout_closed en (length (stdout w))
        then (Inl (Exn BrokenPipeError ''[Errno 32] Broken pipe''), w)
      else (Inr (), w\<lparr>stdout := stdout w @ [s]\<rparr>))"

text \<open>\<^verbatim>\<open>print(s)\<close>\<close>

definition print :: "env \<Rightarrow> string \<Rightarrow> world \<Rightarrow> (exn + unit) \<times> world" where
  "print en s w = write_stdout en (s @ [CHR 0x0A]) w"

text \<open>\<^verbatim>\<open>print(s, end='', flush=True)\<close>\<close>

definition print_no_end :: "env \<Rightarrow> string \<Rightarrow> world \<Rightarrow> (exn + unit) \<times> world" where
  "print_no_end en s w = write_stdout en s w"

fun join_path :: "path \<Rightarrow> string" where
  "join_path [] = ''.''"
| "join_path [c] = c"
| "join_path (c # d # ds) = c @ ''/'' @ join_path (d # ds)"

text \<open>
  An absolute path as text, each component after a slash. This reads the output; the
  script has no counterpart of it.
\<close>

definition path_text :: "path \<Rightarrow> string" where
  "path_text p = concat (map (\<lambda>c. ''/'' @ c) p)"

definition is_dir :: "world \<Rightarrow> path \<Rightarrow> bool" where
  "is_dir w p = (case nodes w p of Some (Dir wr) \<Rightarrow> True | Some (File b) \<Rightarrow> False | None \<Rightarrow> False)"

text \<open>\<^verbatim>\<open>os.getcwd()\<close>: it raises when the working directory is no longer there.\<close>

definition getcwd :: "world \<Rightarrow> exn + path" where
  "getcwd w =
     (if is_dir w (cwd w) then Inr (cwd w)
      else Inl (Exn FileNotFoundError ''[Errno 2] No such file or directory''))"

text \<open>\<^verbatim>\<open>str(p.absolute())\<close> for a relative path \<open>p\<close>: the working directory, then \<open>p\<close>.\<close>

definition absolute :: "world \<Rightarrow> path \<Rightarrow> exn + string" where
  "absolute w p = (case getcwd w of Inl e \<Rightarrow> Inl e | Inr c \<Rightarrow> Inr (''/'' @ join_path (c @ p)))"

text \<open>
  \<^verbatim>\<open>os.mkdir\<close> on an absolute path. The message of an operating-system error is
  its errno text; the file name Python appends to it is left out.
\<close>

definition os_mkdir :: "world \<Rightarrow> path \<Rightarrow> (exn + unit) \<times> world" where
  "os_mkdir w p =
     (case nodes w p of
        Some n \<Rightarrow> (Inl (Exn FileExistsError ''[Errno 17] File exists''), w)
      | None \<Rightarrow>
          if p = [] then (Inl (Exn FileExistsError ''[Errno 17] File exists''), w)
          else (case nodes w (butlast p) of
                  None \<Rightarrow> (Inl (Exn FileNotFoundError ''[Errno 2] No such file or directory''), w)
                | Some (File b) \<Rightarrow> (Inl (Exn NotADirectoryError ''[Errno 20] Not a directory''), w)
                | Some (Dir wr) \<Rightarrow>
                    if wr then (Inr (), w\<lparr>nodes := (nodes w)(p \<mapsto> Dir True)\<rparr>)
                    else (Inl (Exn PermissionError ''[Errno 13] Permission denied''), w)))"

text \<open>
  \<^verbatim>\<open>Path.mkdir(parents, exist_ok)\<close> on a path relative to the working directory:
  \<^verbatim>\<open>
  try:
      os.mkdir(self, mode)
  except FileNotFoundError:
      if not parents or self.parent == self:
          raise
      self.parent.mkdir(parents=True, exist_ok=True)
      self.mkdir(mode, parents=False, exist_ok=exist_ok)
  except OSError:
      if not exist_ok or not self.is_dir():
          raise
  \<close>
\<close>

function pathlib_mkdir :: "bool \<Rightarrow> bool \<Rightarrow> world \<Rightarrow> path \<Rightarrow> (exn + unit) \<times> world" where
  "pathlib_mkdir parents exist_ok w rel =
     (case os_mkdir w (cwd w @ rel) of
        (Inr u, w') \<Rightarrow> (Inr (), w')
      | (Inl e, w') \<Rightarrow>
          if cls e = FileNotFoundError then
            (if \<not> parents \<or> rel = [] then (Inl e, w')
             else (case pathlib_mkdir True True w' (butlast rel) of
                     (Inl e', w'') \<Rightarrow> (Inl e', w'')
                   | (Inr u, w'') \<Rightarrow> pathlib_mkdir False exist_ok w'' rel))
          else if \<not> exist_ok \<or> \<not> is_dir w' (cwd w' @ rel) then (Inl e, w')
          else (Inr (), w'))"
  by pat_completeness auto
termination
  by (relation "measure (\<lambda>(parents, exist_ok, w, rel). 2 * length rel + (if parents then 1 else 0))")
     auto

declare pathlib_mkdir.simps [simp del]

text \<open>\<^verbatim>\<open>open(filename, 'wb')\<close> on an absolute path: creates the file or truncates it.\<close>

definition open_wb :: "world \<Rightarrow> path \<Rightarrow> (exn + unit) \<times> world" where
  "open_wb w p =
     (case nodes w p of
        Some (Dir wr) \<Rightarrow> (Inl (Exn IsADirectoryError ''[Errno 21] Is a directory''), w)
      | Some (File b) \<Rightarrow> (Inr (), w\<lparr>nodes := (nodes w)(p \<mapsto> File [])\<rparr>)
      | None \<Rightarrow>
          (case nodes w (butlast p) of
             None \<Rightarrow> (Inl (Exn FileNotFoundError ''[Errno 2] No such file or directory''), w)
           | Some (File b) \<Rightarrow> (Inl (Exn NotADirectoryError ''[Errno 20] Not a directory''), w)
           | Some (Dir wr) \<Rightarrow>
               if wr then (Inr (), w\<lparr>nodes := (nodes w)(p \<mapsto> File [])\<rparr>)
               else (Inl (Exn PermissionError ''[Errno 13] Permission denied''), w)))"

text \<open>\<^verbatim>\<open>tfp.write(block)\<close>, the \<open>k\<close>-th write to the file opened at \<open>p\<close>.\<close>

definition file_write :: "env \<Rightarrow> path \<Rightarrow> nat \<Rightarrow> byte list \<Rightarrow> world \<Rightarrow> (exn + unit) \<times> world" where
  "file_write en p k block w =
     (case write_fault en k of
        Some e \<Rightarrow> (Inl e, w)
      | None \<Rightarrow>
          (Inr (), w\<lparr>nodes := (nodes w)(p \<mapsto>
             File ((case nodes w p of Some (File b) \<Rightarrow> b | Some (Dir wr) \<Rightarrow> [] | None \<Rightarrow> []) @ block))\<rparr>))"

text \<open>The size a directory's \<^verbatim>\<open>stat\<close> reports depends on the file system; one block here.\<close>

definition dir_st_size :: int where
  "dir_st_size = 4096"

text \<open>\<^verbatim>\<open>p.stat().st_size\<close> for a path relative to the working directory.\<close>

definition st_size :: "env \<Rightarrow> world \<Rightarrow> path \<Rightarrow> exn + int" where
  "st_size en w p =
     (case stat_fault en of
        Some e \<Rightarrow> Inl e
      | None \<Rightarrow>
          (case nodes w (cwd w @ p) of
             None \<Rightarrow> Inl (Exn FileNotFoundError ''[Errno 2] No such file or directory'')
           | Some (File b) \<Rightarrow> Inr (int (length b))
           | Some (Dir wr) \<Rightarrow> Inr dir_st_size))"

text \<open>\<^verbatim>\<open>os.chdir\<close> to an absolute path.\<close>

definition os_chdir :: "world \<Rightarrow> path \<Rightarrow> (exn + unit) \<times> world" where
  "os_chdir w p =
     (case nodes w p of
        None \<Rightarrow> (Inl (Exn FileNotFoundError ''[Errno 2] No such file or directory''), w)
      | Some (File b) \<Rightarrow> (Inl (Exn NotADirectoryError ''[Errno 20] Not a directory''), w)
      | Some (Dir wr) \<Rightarrow> (Inr (), w\<lparr>cwd := p\<rparr>))"

subsection \<open>urllib.request.urlretrieve\<close>

text \<open>
  \<^verbatim>\<open>
  with contextlib.closing(urlopen(url, data)) as fp:
      headers = fp.info()
      tfp = open(filename, 'wb')
      with tfp:
          bs = 1024*8; size = -1; read = 0; blocknum = 0
          if "content-length" in headers:
              size = int(headers["Content-Length"])
          if reporthook:
              reporthook(blocknum, bs, size)
          while block := fp.read(bs):
              read += len(block)
              tfp.write(block)
              blocknum += 1
              if reporthook:
                  reporthook(blocknum, bs, size)
  if size >= 0 and read < size:
      raise ContentTooShortError(...)
  \<close>
\<close>

type_synonym reporthook = "int \<Rightarrow> int \<Rightarrow> int \<Rightarrow> world \<Rightarrow> (exn + unit) \<times> world"

definition bs :: int where
  "bs = 1024 * 8"

fun copy_loop ::
  "env \<Rightarrow> path \<Rightarrow> reporthook \<Rightarrow> int \<Rightarrow> (exn + byte list) list \<Rightarrow> int \<Rightarrow> int \<Rightarrow> world
     \<Rightarrow> (exn + int) \<times> world" where
  "copy_loop en p hook sz [] read blocknum w = (Inr read, w)"
| "copy_loop en p hook sz (Inl e # rs) read blocknum w = (Inl e, w)"
| "copy_loop en p hook sz (Inr block # rs) read blocknum w =
     (if block = [] then (Inr read, w)
      else (case file_write en p (nat blocknum) block w of
              (Inl e, w1) \<Rightarrow> (Inl e, w1)
            | (Inr u, w1) \<Rightarrow>
                (case hook (blocknum + 1) bs sz w1 of
                   (Inl e, w2) \<Rightarrow> (Inl e, w2)
                 | (Inr u', w2) \<Rightarrow>
                     copy_loop en p hook sz rs (read + int (length block)) (blocknum + 1) w2)))"

definition urlretrieve :: "env \<Rightarrow> string \<Rightarrow> path \<Rightarrow> reporthook \<Rightarrow> world \<Rightarrow> (exn + unit) \<times> world" where
  "urlretrieve en url filename hook w =
     (case urlopen en url of
        Inl e \<Rightarrow> (Inl e, w)
      | Inr resp \<Rightarrow>
          (case open_wb w (cwd w @ filename) of
             (Inl e, w1) \<Rightarrow> (Inl e, w1)
           | (Inr u, w1) \<Rightarrow>
               (let sz = (case content_length resp of Some n \<Rightarrow> n | None \<Rightarrow> - 1)
                in case hook 0 bs sz w1 of
                     (Inl e, w2) \<Rightarrow> (Inl e, w2)
                   | (Inr u', w2) \<Rightarrow>
                       (case copy_loop en (cwd w @ filename) hook sz (reads resp) 0 0 w2 of
                          (Inl e, w3) \<Rightarrow> (Inl e, w3)
                        | (Inr read, w3) \<Rightarrow>
                            if 0 \<le> sz \<and> read < sz
                            then (Inl (Exn ContentTooShortError
                                   (''retrieval incomplete: got only '' @ dec_digits (nat read) @
                                    '' out of '' @ dec_digits (nat sz) @ '' bytes'')), w3)
                            else (Inr (), w3)))))"

text \<open>
  The bytes a response delivers: the blocks read, in order, up to the first empty read
  (the end of the stream) or the first read that raises.
\<close>

fun received :: "(exn + byte list) list \<Rightarrow> byte list" where
  "received [] = []"
| "received (Inl e # rs) = []"
| "received (Inr block # rs) = (if block = [] then [] else block @ received rs)"

subsection \<open>The script\<close>

definition MODEL_DIR :: path where
  "MODEL_DIR = [''assets'', ''models'']"

definition MODEL_FILE :: string where
  "MODEL_FILE = ''pose_landmark_lite.tflite''"

definition MODEL_URL :: string where
  "MODEL_URL = ''https://cdn.jsdelivr.net/npm/@mediapipe/pose@0.5.1675469404/pose_landmark_lite.tflite''"

text \<open>
  Line 34, as a function of \<open>downloaded\<close> and \<open>total_size\<close>:
  \<^verbatim>\<open>percent = min(downloaded * 100 / total_size, 100) if total_size > 0 else 0\<close>
\<close>

definition percent :: "int \<Rightarrow> int \<Rightarrow> exn + real" where
  "percent downloaded total_size =
     (if total_size > 0
      then (case int_truediv (downloaded * 100) total_size of
              Inl e \<Rightarrow> Inl e
            | Inr q \<Rightarrow> Inr (min q 100))
      else Inr 0)"

text \<open>
  The f-string of line 35, given its three values:
  \<^verbatim>\<open>f"\rProgress: {percent:.1f}% ({downloaded / 1024 / 1024:.2f} MB / {total_size / 1024 / 1024:.2f} MB)"\<close>
\<close>

definition progress_line :: "real \<Rightarrow> real \<Rightarrow> real \<Rightarrow> string" where
  "progress_line pc dmb tmb =
     [CHR 0x0D] @ ''Progress: '' @ format_fixed 1 pc @ ''% ('' @
     format_fixed 2 dmb @ '' MB / '' @ format_fixed 2 tmb @ '' MB)''"

text \<open>Lines 33 to 35, up to the text handed to \<^verbatim>\<open>print\<close>.\<close>

definition progress_text :: "int \<Rightarrow> int \<Rightarrow> int \<Rightarrow> exn + string" where
  "progress_text block_num block_size total_size =
     (let downloaded = block_num * block_size
      in case percent downloaded total_size of
           Inl e \<Rightarrow> Inl e
         | Inr pc \<Rightarrow>
             (case mib downloaded of
                Inl e \<Rightarrow> Inl e
              | Inr dmb \<Rightarrow>
                  (case mib total_size of
                     Inl e \<Rightarrow> Inl e
                   | Inr tmb \<Rightarrow> Inr (progress_line pc dmb tmb))))"

definition show_progress :: "env \<Rightarrow> reporthook" where
  "show_progress en block_num block_size total_size w =
     (case progress_text block_num block_size total_size of
        Inl e \<Rightarrow> (Inl e, w)
      | Inr s \<Rightarrow> print_no_end en s w)"

text \<open>The two marks of lines 42 and 48, U+2705 and U+274C, in UTF-8.\<close>

definition check_mark :: string where
  "check_mark = [CHR 0xE2, CHR 0x9C, CHR 0x85]"

definition cross_mark :: string where
  "cross_mark = [CHR 0xE2, CHR 0x9D, CHR 0x8C]"

text \<open>Lines 31 to 46, the body of the \<^verbatim>\<open>try\<close>.\<close>

definition try_body :: "env \<Rightarrow> path \<Rightarrow> world \<Rightarrow> (exn + bool) \<times> world" where
  "try_body en model_path w =
     (case urlretrieve en MODEL_URL model_path (show_progress en) w of
        (Inl e, w1) \<Rightarrow> (Inl e, w1)
      | (Inr u, w1) \<Rightarrow>
     (case print en '''' w1 of
        (Inl e, w2) \<Rightarrow> (Inl e, w2)
      | (Inr u, w2) \<Rightarrow>
     (case st_size en w2 model_path of
        Inl e \<Rightarrow> (Inl e, w2)
      | Inr file_size \<Rightarrow>
     (case print en (check_mark @ '' Successfully downloaded '' @ MODEL_FILE) w2 of
        (Inl e, w3) \<Rightarrow> (Inl e, w3)
      | (Inr u, w3) \<Rightarrow>
     (case mib file_size of
        Inl e \<Rightarrow> (Inl e, w3)
      | Inr mb \<Rightarrow>
     (case print en (''   File size: '' @ format_fixed 2 mb @ '' MB'') w3 of
        (Inl e, w4) \<Rightarrow> (Inl e, w4)
      | (Inr u, w4) \<Rightarrow>
     (case absolute w4 model_path of
        Inl e \<Rightarrow> (Inl e, w4)
      | Inr location \<Rightarrow>
     (case print en (''   Location: '' @ location) w4 of
        (Inl e, w5) \<Rightarrow> (Inl e, w5)
      | (Inr u, w5) \<Rightarrow> (Inr True, w5)))))))))"

text \<open>
  Lines 47 to 52, the \<^verbatim>\<open>except Exception as e\<close> clause. Nothing catches what it
  raises itself.
\<close>

definition except_clause :: "env \<Rightarrow> exn \<Rightarrow> path \<Rightarrow> world \<Rightarrow> (exn + bool) \<times> world" where
  "except_clause en e model_path w =
     (case print en ([CHR 0x0A] @ cross_mark @ '' Download failed: '' @ msg e) w of
        (Inl x, w1) \<Rightarrow> (Inl x, w1)
      | (Inr u, w1) \<Rightarrow>
     (case print en ([CHR 0x0A] @ ''Please download manually:'') w1 of
        (Inl x, w2) \<Rightarrow> (Inl x, w2)
      | (Inr u, w2) \<Rightarrow>
     (case print en (''   URL: '' @ MODEL_URL) w2 of
        (Inl x, w3) \<Rightarrow> (Inl x, w3)
      | (Inr u, w3) \<Rightarrow>
     (case absolute w3 model_path of
        Inl x \<Rightarrow> (Inl x, w3)
      | Inr location \<Rightarrow>
     (case print en (''   Save to: '' @ location) w3 of
        (Inl x, w4) \<Rightarrow> (Inl x, w4)
      | (Inr u, w4) \<Rightarrow> (Inr False, w4))))))"

text \<open>Lines 26 to 28, the three lines printed before the \<^verbatim>\<open>try\<close>.\<close>

definition announce :: "env \<Rightarrow> path \<Rightarrow> world \<Rightarrow> (exn + unit) \<times> world" where
  "announce en model_path w =
     (case print en ''Downloading MediaPipe Pose Lite model...'' w of
        (Inl e, w1) \<Rightarrow> (Inl e, w1)
      | (Inr u, w1) \<Rightarrow>
     (case print en (''URL: '' @ MODEL_URL) w1 of
        (Inl e, w2) \<Rightarrow> (Inl e, w2)
      | (Inr u, w2) \<Rightarrow> print en (''Destination: '' @ join_path model_path) w2))"

text \<open>
  Lines 19 to 52. The directory is created at line 22 and the download announced at
  lines 26 to 28, before the \<^verbatim>\<open>try\<close> of line 30 is entered: what they raise leaves
  the function as it is.
\<close>

definition download_model :: "env \<Rightarrow> world \<Rightarrow> (exn + bool) \<times> world" where
  "download_model en w =
     (case pathlib_mkdir True True w MODEL_DIR of
        (Inl e, w0) \<Rightarrow> (Inl e, w0)
      | (Inr u, w0) \<Rightarrow>
          (let model_path = MODEL_DIR @ [MODEL_FILE]
           in case announce en model_path w0 of
                (Inl e, w3) \<Rightarrow> (Inl e, w3)
              | (Inr u, w3) \<Rightarrow>
                  (case try_body en model_path w3 of
                     (Inr b, w4) \<Rightarrow> (Inr b, w4)
                   | (Inl e, w4) \<Rightarrow>
                       if is_Exception e then except_clause en e model_path w4
                       else (Inl e, w4))))"

text \<open>
  Lines 54 to 60. \<open>Inr c\<close> is \<^verbatim>\<open>sys.exit(c)\<close>; \<open>Inl e\<close> is an exception that leaves
  the script uncaught.
\<close>

definition main :: "env \<Rightarrow> world \<Rightarrow> (exn + int) \<times> world" where
  "main en w =
     (let script_dir = butlast (butlast (script_file en))
      in case os_chdir w script_dir of
           (Inl e, w1) \<Rightarrow> (Inl e, w1)
         | (Inr u, w1) \<Rightarrow>
             (case download_model en w1 of
                (Inl e, w2) \<Rightarrow> (Inl e, w2)
              | (Inr success, w2) \<Rightarrow> (Inr (if success then 0 else 1), w2)))"

subsection \<open>Example runs\<close>

text \<open>
  A project directory \<^verbatim>\<open>/proj\<close> holding the script in \<^verbatim>\<open>/proj/scripts\<close>, and a
  server that answers the model URL with three bytes and a matching Content-Length.
  Standard output is a UTF-8 terminal.
\<close>

definition proj_nodes :: "path \<rightharpoonup> node" where
  "proj_nodes =
     [[] \<mapsto> Dir True,
      [''proj''] \<mapsto> Dir True,
      [''proj'', ''scripts''] \<mapsto> Dir True,
      [''proj'', ''scripts'', ''download_mediapipe_lite.py''] \<mapsto> File []]"

definition fresh_world :: world where
  "fresh_world = \<lparr>nodes = proj_nodes, cwd = [], stdout = []\<rparr>"

text \<open>The same tree with \<^verbatim>\<open>/proj\<close> not writable.\<close>

definition readonly_world :: world where
  "readonly_world = \<lparr>nodes = proj_nodes([''proj''] \<mapsto> Dir False), cwd = [''proj''], stdout = []\<rparr>"

text \<open>
  A tree in which \<^verbatim>\<open>assets/models\<close> exists already and holds an older model and one
  unrelated file.
\<close>

definition populated_world :: world where
  "populated_world =
     \<lparr>nodes = proj_nodes
        ([''proj'', ''assets''] \<mapsto> Dir True,
         [''proj'', ''assets'', ''models''] \<mapsto> Dir True,
         [''proj'', ''assets'', ''models'', ''pose_landmark_lite.tflite''] \<mapsto> File [7, 7, 7, 7, 7],
         [''proj'', ''assets'', ''models'', ''labels.txt''] \<mapsto> File [65, 66]),
      cwd = [''proj''], stdout = []\<rparr>"

definition good_env :: env where
  "good_env =
     \<lparr>urlopen = (\<lambda>url. if url = MODEL_URL then Inr (Response (Some 3) [Inr [1, 2, 3], Inr []])
                     else Inl (Exn URLError ''<urlopen error unknown url>'')),
      write_fault = (\<lambda>k. None),
      stat_fault = None,
      script_file = [''proj'', ''scripts'', ''download_mediapipe_lite.py''],
      stdout_utf8 = True,
      stdout_closed = (\<lambda>k. False)\<rparr>"

text \<open>A second server state, with a shorter payload.\<close>

definition second_env :: env where
  "second_env = good_env\<lparr>urlopen := (\<lambda>url. Inr (Response (Some 2) [Inr [9, 8], Inr []]))\<rparr>"

text \<open>Name resolution fails.\<close>

definition unreachable_env :: env where
  "unreachable_env =
     good_env\<lparr>urlopen :=
       (\<lambda>url. Inl (Exn URLError ''<urlopen error [Errno -2] Name or service not known>''))\<rparr>"

text \<open>The destination file is gone by the time it is looked at.\<close>

definition vanished_env :: env where
  "vanished_env =
     good_env\<lparr>stat_fault :=
       Some (Exn FileNotFoundError ''[Errno 2] No such file or directory'')\<rparr>"

text \<open>
  The same three with standard output redirected to a file on a system whose locale
  encoding is cp1252, and a run whose output is piped into a reader that has gone.
\<close>

definition cp1252_env :: env where
  "cp1252_env = good_env\<lparr>stdout_utf8 := False\<rparr>"

definition unreachable_cp1252_env :: env where
  "unreachable_cp1252_env = unreachable_env\<lparr>stdout_utf8 := False\<rparr>"

definition vanished_cp1252_env :: env where
  "vanished_cp1252_env = vanished_env\<lparr>stdout_utf8 := False\<rparr>"

definition closed_pipe_env :: env where
  "closed_pipe_env = good_env\<lparr>stdout_closed := (\<lambda>k. True)\<rparr>"

section \<open>Doubles and formatting\<close>

lemma pow2_powr: "pow2 k = 2 powr real_of_int k"
proof (cases "0 \<le> k")
  case True
  then have "2 powr real_of_int k = 2 powr real (nat k)" by simp
  also have "\<dots> = 2 ^ nat k" by (simp add: powr_realpow)
  finally show ?thesis using True by (simp add: pow2_def)
next
  case False
  then have "2 powr real_of_int k = 2 powr (- real (nat (- k)))" by simp
  also have "\<dots> = 1 / 2 ^ nat (- k)" by (simp add: powr_minus powr_realpow divide_inverse)
  finally show ?thesis using False by (simp add: pow2_def)
qed

lemma pow2_pos: "0 < pow2 k"
  by (simp add: pow2_powr)

lemma pow2_add: "pow2 (a + b) = pow2 a * pow2 b"
  by (simp add: pow2_powr powr_add)

lemma pow2_mono: "a \<le> b \<Longrightarrow> pow2 a \<le> pow2 b"
  by (simp add: pow2_powr)

lemma pow2_strict_mono: "a < b \<Longrightarrow> pow2 a < pow2 b"
  by (simp add: pow2_powr)

lemma pow2_nat: "pow2 (int n) = 2 ^ n"
  by (simp add: pow2_def)

lemma pow2_0: "pow2 0 = 1"
  by (simp add: pow2_def)

lemma pow2_diff: "pow2 (a - b) = pow2 a / pow2 b"
  by (simp add: pow2_powr powr_diff)

lemma bit_length_0: "bit_length 0 = 0"
  by (subst bit_length.simps) simp

lemma bit_length_pos: "0 < n \<Longrightarrow> bit_length n = Suc (bit_length (n div 2))"
  by (subst bit_length.simps) simp

lemma bit_length_bounds:
  "0 < n \<Longrightarrow> 2 ^ (bit_length n - 1) \<le> n \<and> n < 2 ^ bit_length n"
proof (induction n rule: bit_length.induct)
  case (1 n)
  show ?case
  proof (cases "n div 2 = 0")
    case True
    then have "n = 1" using "1.prems" by presburger
    then show ?thesis by (simp add: bit_length_pos bit_length_0)
  next
    case False
    then have ih: "2 ^ (bit_length (n div 2) - 1) \<le> n div 2 \<and> n div 2 < 2 ^ bit_length (n div 2)"
      using "1.IH" "1.prems" by simp
    have pos: "0 < bit_length (n div 2)"
      using False by (simp add: bit_length_pos)
    have eq: "bit_length n = Suc (bit_length (n div 2))"
      using "1.prems" by (rule bit_length_pos)
    have "2 ^ (bit_length n - 1) = 2 * 2 ^ (bit_length (n div 2) - 1)"
      using pos eq by (cases "bit_length (n div 2)") simp_all
    also have "\<dots> \<le> 2 * (n div 2)" using ih by simp
    also have "\<dots> \<le> n" by simp
    finally have a: "2 ^ (bit_length n - 1) \<le> n" .
    have "n < 2 * (n div 2 + 1)" by presburger
    also have "\<dots> \<le> 2 * 2 ^ bit_length (n div 2)" using ih by simp
    also have "\<dots> = 2 ^ bit_length n" using eq by simp
    finally have b: "n < 2 ^ bit_length n" .
    from a b show ?thesis ..
  qed
qed

lemma floor_bit_bounds:
  assumes "1 \<le> (r::real)"
  shows "2 ^ (bit_length (nat \<lfloor>r\<rfloor>) - 1) \<le> r \<and> r < 2 ^ bit_length (nat \<lfloor>r\<rfloor>)"
proof -
  let ?n = "nat \<lfloor>r\<rfloor>"
  have n: "0 < ?n" using assms by simp
  have b: "2 ^ (bit_length ?n - 1) \<le> ?n \<and> ?n < 2 ^ bit_length ?n"
    using bit_length_bounds [OF n] .
  have fl: "real ?n \<le> r" "r < real ?n + 1"
    using assms by (simp_all add: of_nat_nat)
  have "(2::real) ^ (bit_length ?n - 1) = real (2 ^ (bit_length ?n - 1))" by simp
  also have "\<dots> \<le> real ?n" using b by (intro of_nat_mono) simp
  finally have lo: "2 ^ (bit_length ?n - 1) \<le> r" using fl by linarith
  have "?n + 1 \<le> 2 ^ bit_length ?n" using conjunct2 [OF b] by linarith
  then have "real (?n + 1) \<le> real (2 ^ bit_length ?n)" by (intro of_nat_mono)
  then have "real ?n + 1 \<le> 2 ^ bit_length ?n" by simp
  then have hi: "r < 2 ^ bit_length ?n" using fl by linarith
  from lo hi show ?thesis ..
qed

lemma bit_length_floor_pos: "1 \<le> (r::real) \<Longrightarrow> 0 < bit_length (nat \<lfloor>r\<rfloor>)"
  by (simp add: bit_length_pos)

lemma ilog2_bounds:
  assumes "0 < q"
  shows "pow2 (ilog2 q) \<le> q \<and> q < pow2 (ilog2 q + 1)"
proof (cases "1 \<le> q")
  case True
  let ?k = "bit_length (nat \<lfloor>q\<rfloor>)"
  have k: "0 < ?k" using True by (rule bit_length_floor_pos)
  have b: "2 ^ (?k - 1) \<le> q \<and> q < 2 ^ ?k" using floor_bit_bounds [OF True] .
  have e: "ilog2 q = int (?k - 1)" using True k by (simp add: ilog2_def)
  have e1: "ilog2 q + 1 = int ?k" using e k by simp
  show ?thesis unfolding e1 unfolding e pow2_nat using b .
next
  case False
  let ?r = "1 / q"
  let ?k = "bit_length (nat \<lfloor>?r\<rfloor>)"
  have r: "1 \<le> ?r" using False assms by simp
  have k: "0 < ?k" using r by (rule bit_length_floor_pos)
  have b: "2 ^ (?k - 1) \<le> ?r \<and> ?r < 2 ^ ?k" using floor_bit_bounds [OF r] .
  have p1: "pow2 (int ?k - 1) = 2 ^ (?k - 1)"
    using k pow2_nat [of "?k - 1"] by (simp add: of_nat_diff)
  have up: "q * 2 ^ (?k - 1) \<le> 1"
    using b assms by (simp add: pos_le_divide_eq mult.commute)
  have lo: "1 < q * 2 ^ ?k"
    using b assms by (simp add: pos_divide_less_eq mult.commute)
  have m1: "pow2 (1 - int ?k) = 1 / 2 ^ (?k - 1)"
    using pow2_diff [of 0 "int ?k - 1"] p1 by (simp add: pow2_0)
  have m0: "pow2 (- int ?k) = 1 / 2 ^ ?k"
    using pow2_diff [of 0 "int ?k"] by (simp add: pow2_0 pow2_nat)
  have m2: "pow2 (2 - int ?k) = 2 / 2 ^ (?k - 1)"
    using pow2_diff [of 1 "int ?k - 1"] p1 by (simp add: pow2_def)
  show ?thesis
  proof (cases "q * pow2 (int ?k - 1) = 1")
    case True
    then have e: "ilog2 q = 1 - int ?k" using False by (simp add: ilog2_def Let_def)
    have qv: "q = 1 / 2 ^ (?k - 1)" using True p1 by (simp add: field_simps)
    have e1: "ilog2 q + 1 = 2 - int ?k" using e by simp
    have dbl: "2 / 2 ^ (?k - 1) = 2 * q" using qv by simp
    have "q \<le> q \<and> q < 2 * q" using assms by simp
    then show ?thesis unfolding e1 unfolding e m1 m2 dbl unfolding qv [symmetric] .
  next
    case ne: False
    then have e: "ilog2 q = - int ?k" using False by (simp add: ilog2_def Let_def)
    have e1: "ilog2 q + 1 = 1 - int ?k" using e by simp
    have "q * 2 ^ (?k - 1) < 1" using up ne p1 by simp
    then have hi: "q < 1 / 2 ^ (?k - 1)" by (simp add: pos_less_divide_eq)
    have lo': "1 / 2 ^ ?k \<le> q" using lo by (simp add: pos_divide_le_eq)
    show ?thesis unfolding e1 unfolding e m0 m1 using hi lo' by simp
  qed
qed

lemma ilog2_unique:
  assumes "pow2 e \<le> q" "q < pow2 (e + 1)"
  shows "ilog2 q = e"
proof -
  have q: "0 < q" using assms(1) pow2_pos [of e] by linarith
  have b: "pow2 (ilog2 q) \<le> q \<and> q < pow2 (ilog2 q + 1)" using ilog2_bounds [OF q] .
  have "\<not> ilog2 q + 1 \<le> e"
  proof
    assume "ilog2 q + 1 \<le> e"
    then have "pow2 (ilog2 q + 1) \<le> pow2 e" by (rule pow2_mono)
    then show False using b assms by linarith
  qed
  moreover have "\<not> e + 1 \<le> ilog2 q"
  proof
    assume "e + 1 \<le> ilog2 q"
    then have "pow2 (e + 1) \<le> pow2 (ilog2 q)" by (rule pow2_mono)
    then show False using b assms by linarith
  qed
  ultimately show ?thesis by linarith
qed

lemma ilog2_mono:
  assumes "0 < x" "x \<le> y"
  shows "ilog2 x \<le> ilog2 y"
proof (rule ccontr)
  assume "\<not> ilog2 x \<le> ilog2 y"
  then have "ilog2 y + 1 \<le> ilog2 x" by simp
  then have "pow2 (ilog2 y + 1) \<le> pow2 (ilog2 x)" by (rule pow2_mono)
  moreover have "pow2 (ilog2 x) \<le> x" using ilog2_bounds [OF assms(1)] by simp
  moreover have "y < pow2 (ilog2 y + 1)" using ilog2_bounds [of y] assms by simp
  ultimately show False using assms(2) by linarith
qed

lemma round_half_even_bounds:
  "\<lfloor>q\<rfloor> \<le> round_half_even q \<and> round_half_even q \<le> \<lfloor>q\<rfloor> + 1"
  by (simp add: round_half_even_def Let_def)

lemma round_half_even_mono:
  assumes "q \<le> q'"
  shows "round_half_even q \<le> round_half_even q'"
proof (cases "\<lfloor>q\<rfloor> = \<lfloor>q'\<rfloor>")
  case True
  then show ?thesis
    using assms by (auto simp: round_half_even_def Let_def)
next
  case False
  then have "\<lfloor>q\<rfloor> + 1 \<le> \<lfloor>q'\<rfloor>"
    using floor_mono [OF assms] by linarith
  then show ?thesis
    using round_half_even_bounds [of q] round_half_even_bounds [of q'] by linarith
qed

lemma round_half_even_of_int: "round_half_even (real_of_int n) = n"
  by (simp add: round_half_even_def)

lemma round_half_even_error: "\<bar>real_of_int (round_half_even q) - q\<bar> \<le> 1 / 2"
proof -
  define r where "r = q - real_of_int \<lfloor>q\<rfloor>"
  have r: "0 \<le> r" "r < 1" unfolding r_def by linarith+
  have q: "q = real_of_int \<lfloor>q\<rfloor> + r" unfolding r_def by simp
  have v: "round_half_even q =
             (if r < 1 / 2 then \<lfloor>q\<rfloor> else if 1 / 2 < r then \<lfloor>q\<rfloor> + 1
              else if even \<lfloor>q\<rfloor> then \<lfloor>q\<rfloor> else \<lfloor>q\<rfloor> + 1)"
    unfolding round_half_even_def Let_def r_def ..
  consider "round_half_even q = \<lfloor>q\<rfloor>" "r \<le> 1 / 2"
    | "round_half_even q = \<lfloor>q\<rfloor> + 1" "1 / 2 \<le> r"
    unfolding v by (cases "r < 1 / 2"; cases "1 / 2 < r"; cases "even \<lfloor>q\<rfloor>") simp_all
  then show ?thesis
  proof cases
    case 1
    have "real_of_int (round_half_even q) - q = - r" unfolding 1(1) r_def by simp
    then show ?thesis using r 1(2) by simp
  next
    case 2
    have "real_of_int (round_half_even q) - q = 1 - r" unfolding 2(1) r_def by simp
    then show ?thesis using r 2(2) by simp
  qed
qed

lemma ulp_pos: "0 < ulp x"
  by (simp add: ulp_def pow2_pos)

lemma ulp_minus: "ulp (- x) = ulp x"
  by (simp add: ulp_def)

lemma to_double_pos:
  "0 < x \<Longrightarrow> to_double x = real_of_int (round_half_even (x / ulp x)) * ulp x"
  by (simp add: to_double_def)

lemma to_double_0: "to_double 0 = 0"
  by (simp add: to_double_def)

lemma to_double_minus: "to_double (- x) = - to_double x"
  by (simp add: to_double_def ulp_minus sgn_if)

lemma to_double_nonneg:
  assumes "0 \<le> x"
  shows "0 \<le> to_double x"
proof (cases "x = 0")
  case True
  then show ?thesis by (simp add: to_double_0)
next
  case False
  then have x: "0 < x" using assms by simp
  have "0 \<le> x / ulp x" using x ulp_pos [of x] by simp
  then have "round_half_even 0 \<le> round_half_even (x / ulp x)"
    by (rule round_half_even_mono)
  then have "0 \<le> round_half_even (x / ulp x)"
    using round_half_even_of_int [of 0] by simp
  then show ?thesis
    using ulp_pos [of x] by (simp add: to_double_pos [OF x])
qed

lemma ulp_times: "ulp x * 2 ^ 52 = pow2 (max (ilog2 \<bar>x\<bar>) (- 1022))"
proof -
  have "pow2 (max (ilog2 \<bar>x\<bar>) (- 1022) - 52 + 52) = ulp x * pow2 52"
    unfolding ulp_def by (rule pow2_add)
  then show ?thesis by (simp add: pow2_def)
qed

lemma to_double_upper:
  assumes "0 < x"
  shows "to_double x \<le> pow2 (max (ilog2 x) (- 1022) + 1)"
proof -
  let ?e = "max (ilog2 x) (- 1022)"
  have u: "ulp x * 2 ^ 52 = pow2 ?e" using ulp_times [of x] assms by simp
  have p1: "pow2 (?e + 1) = pow2 ?e * 2" using pow2_add [of ?e 1] by (simp add: pow2_def)
  have "x < pow2 (ilog2 x + 1)" using ilog2_bounds [OF assms] by simp
  also have "\<dots> \<le> pow2 (?e + 1)" by (intro pow2_mono) simp
  finally have "x < ulp x * 2 ^ 53" using p1 u by simp
  then have "x / ulp x \<le> real_of_int (2 ^ 53)"
    using ulp_pos [of x] by (simp add: pos_divide_le_eq mult.commute)
  then have "round_half_even (x / ulp x) \<le> round_half_even (real_of_int (2 ^ 53))"
    by (rule round_half_even_mono)
  then have "round_half_even (x / ulp x) \<le> 2 ^ 53"
    by (simp only: round_half_even_of_int)
  then have "real_of_int (round_half_even (x / ulp x)) \<le> real_of_int (2 ^ 53)"
    by (simp only: of_int_le_iff)
  then have "real_of_int (round_half_even (x / ulp x)) * ulp x \<le> real_of_int (2 ^ 53) * ulp x"
    using ulp_pos [of x] by (intro mult_right_mono) simp_all
  then show ?thesis
    using p1 u by (simp add: to_double_pos [OF assms])
qed

lemma to_double_lower:
  assumes "0 < x" "- 1022 \<le> ilog2 x"
  shows "pow2 (ilog2 x) \<le> to_double x"
proof -
  have e: "max (ilog2 x) (- 1022) = ilog2 x" using assms(2) by simp
  have u: "ulp x * 2 ^ 52 = pow2 (ilog2 x)" using ulp_times [of x] assms(1) e by simp
  have "pow2 (ilog2 x) \<le> x" using ilog2_bounds [OF assms(1)] by simp
  then have "real_of_int (2 ^ 52) \<le> x / ulp x"
    using ulp_pos [of x] u by (simp add: pos_le_divide_eq mult.commute)
  then have "round_half_even (real_of_int (2 ^ 52)) \<le> round_half_even (x / ulp x)"
    by (rule round_half_even_mono)
  then have "2 ^ 52 \<le> round_half_even (x / ulp x)"
    by (simp only: round_half_even_of_int)
  then have "real_of_int (2 ^ 52) \<le> real_of_int (round_half_even (x / ulp x))"
    by (simp only: of_int_le_iff)
  then have "real_of_int (2 ^ 52) * ulp x \<le> real_of_int (round_half_even (x / ulp x)) * ulp x"
    using ulp_pos [of x] by (intro mult_right_mono) simp_all
  then show ?thesis
    using u by (simp add: to_double_pos [OF assms(1)] mult.commute)
qed

lemma to_double_mono_pos:
  assumes "0 < x" "x \<le> y"
  shows "to_double x \<le> to_double y"
proof -
  have y: "0 < y" using assms by linarith
  let ?ex = "max (ilog2 x) (- 1022)"
  let ?ey = "max (ilog2 y) (- 1022)"
  have le: "?ex \<le> ?ey" using ilog2_mono [OF assms] by simp
  show ?thesis
  proof (cases "?ex = ?ey")
    case True
    then have u: "ulp x = ulp y" using assms(1) y by (simp add: ulp_def)
    have "x / ulp y \<le> y / ulp y"
      using assms(2) ulp_pos [of y] by (intro divide_right_mono) simp_all
    then have "round_half_even (x / ulp y) \<le> round_half_even (y / ulp y)"
      by (rule round_half_even_mono)
    then have "real_of_int (round_half_even (x / ulp y)) * ulp y
               \<le> real_of_int (round_half_even (y / ulp y)) * ulp y"
      using ulp_pos [of y] by (intro mult_right_mono) simp_all
    then show ?thesis
      by (simp add: to_double_pos [OF assms(1)] to_double_pos [OF y] u)
  next
    case False
    then have lt: "?ex + 1 \<le> ?ey" using le by linarith
    then have ey: "?ey = ilog2 y" "- 1022 \<le> ilog2 y" by simp_all
    have "to_double x \<le> pow2 (?ex + 1)" using to_double_upper [OF assms(1)] .
    also have "\<dots> \<le> pow2 ?ey" using lt by (rule pow2_mono)
    also have "\<dots> = pow2 (ilog2 y)" using ey(1) by simp
    also have "\<dots> \<le> to_double y" using to_double_lower [OF y ey(2)] .
    finally show ?thesis .
  qed
qed

lemma to_double_mono:
  assumes "x \<le> y"
  shows "to_double x \<le> to_double y"
proof -
  consider "0 < x" | "x \<le> 0" "0 \<le> y" | "y < 0" by linarith
  then show ?thesis
  proof cases
    case 1
    then show ?thesis using assms by (rule to_double_mono_pos)
  next
    case 2
    have "0 \<le> to_double (- x)" using 2(1) by (intro to_double_nonneg) simp
    then have "to_double x \<le> 0" by (simp add: to_double_minus)
    then show ?thesis using to_double_nonneg [OF 2(2)] by linarith
  next
    case 3
    have "to_double (- y) \<le> to_double (- x)"
      using 3 assms by (intro to_double_mono_pos) simp_all
    then show ?thesis by (simp add: to_double_minus)
  qed
qed

lemma to_double_exact_pos:
  assumes "0 < m" "m < 2 ^ 53" "- 1074 \<le> k"
  shows "to_double (real_of_int m * pow2 k) = real_of_int m * pow2 k"
proof -
  define x where "x = real_of_int m * pow2 k"
  define e where "e = max (ilog2 x) (- 1022)"
  define u where "u = ulp x"
  have x: "0 < x" unfolding x_def using assms(1) pow2_pos [of k] by simp
  have up: "0 < u" unfolding u_def by (rule ulp_pos)
  have u: "u = pow2 (e - 52)" unfolding u_def e_def ulp_def using x by simp
  have ek: "e - 52 \<le> k"
  proof (cases "ilog2 x \<le> - 1022")
    case True
    then show ?thesis using assms(3) by (simp add: e_def)
  next
    case False
    have "real_of_int m < real_of_int (2 ^ 53)" using assms(2) by (simp only: of_int_less_iff)
    then have lt: "x < real_of_int (2 ^ 53) * pow2 k"
      unfolding x_def using pow2_pos [of k] by (intro mult_strict_right_mono)
    have p: "real_of_int (2 ^ 53) * pow2 k = pow2 (53 + k)"
      using pow2_add [of 53 k] by (simp add: pow2_def)
    have "pow2 (ilog2 x) \<le> x" using ilog2_bounds [OF x] by simp
    then have "pow2 (ilog2 x) < pow2 (53 + k)" using lt p by linarith
    then have "\<not> 53 + k \<le> ilog2 x" using pow2_mono [of "53 + k" "ilog2 x"] by linarith
    then show ?thesis using False by (simp add: e_def)
  qed
  define n where "n = nat (k - (e - 52))"
  have kn: "k = (e - 52) + int n" using ek by (simp add: n_def)
  have "pow2 k = pow2 (e - 52) * pow2 (int n)" by (subst kn) (rule pow2_add)
  then have pk: "pow2 k = u * 2 ^ n" using u by (simp add: pow2_nat)
  have xv: "x = real_of_int (m * 2 ^ n) * u" unfolding x_def pk by simp
  have q: "x / u = real_of_int (m * 2 ^ n)"
    unfolding xv using up by simp
  have "to_double x = real_of_int (round_half_even (x / u)) * u"
    unfolding u_def using x by (rule to_double_pos)
  also have "\<dots> = real_of_int (m * 2 ^ n) * u"
    unfolding q round_half_even_of_int ..
  also have "\<dots> = x" by (rule xv [symmetric])
  finally show ?thesis unfolding x_def .
qed

lemma to_double_exact:
  assumes "0 \<le> m" "m < 2 ^ 53" "- 1074 \<le> k"
  shows "to_double (real_of_int m * pow2 k) = real_of_int m * pow2 k"
proof (cases "m = 0")
  case True
  then show ?thesis by (simp add: to_double_0)
next
  case False
  then show ?thesis using assms by (intro to_double_exact_pos) simp_all
qed

lemma to_double_int: "0 \<le> m \<Longrightarrow> m < 2 ^ 53 \<Longrightarrow> to_double (real_of_int m) = real_of_int m"
  using to_double_exact [of m 0] by (simp add: pow2_0)

lemma to_double_error_ulp:
  assumes "x \<noteq> 0"
  shows "\<bar>to_double x - x\<bar> \<le> ulp x / 2"
proof -
  define a where "a = real_of_int (round_half_even (\<bar>x\<bar> / ulp x))"
  have u: "0 < ulp x" by (rule ulp_pos)
  have r: "\<bar>a - \<bar>x\<bar> / ulp x\<bar> \<le> 1 / 2"
    unfolding a_def by (rule round_half_even_error)
  have "a * ulp x - \<bar>x\<bar> = (a - \<bar>x\<bar> / ulp x) * ulp x"
    using u by (simp add: left_diff_distrib)
  then have "\<bar>a * ulp x - \<bar>x\<bar>\<bar> = \<bar>a - \<bar>x\<bar> / ulp x\<bar> * ulp x"
    using u by (simp only: abs_mult abs_of_pos)
  also have "\<dots> \<le> 1 / 2 * ulp x"
    using r u by (intro mult_right_mono) simp_all
  finally have b: "\<bar>a * ulp x - \<bar>x\<bar>\<bar> \<le> ulp x / 2"
    by simp
  show ?thesis
  proof (cases "0 < x")
    case True
    then show ?thesis using b by (simp add: to_double_def a_def)
  next
    case False
    then have "x < 0" using assms by simp
    then have "to_double x - x = - (a * ulp x - \<bar>x\<bar>)"
      by (simp add: to_double_def a_def)
    then show ?thesis using b by (simp only: abs_minus)
  qed
qed

lemma ulp_bound:
  assumes "x \<noteq> 0"
  shows "ulp x \<le> max (\<bar>x\<bar> / 2 ^ 52) (1 / 2 ^ 1074)"
proof (cases "- 1022 \<le> ilog2 \<bar>x\<bar>")
  case True
  have x: "0 < \<bar>x\<bar>" using assms by simp
  have e: "max (ilog2 \<bar>x\<bar>) (- 1022) = ilog2 \<bar>x\<bar>" using True by simp
  have "ulp x * 2 ^ 52 = pow2 (ilog2 \<bar>x\<bar>)" using ulp_times [of x] e by simp
  also have "\<dots> \<le> \<bar>x\<bar>" using ilog2_bounds [OF x] by simp
  finally have "ulp x \<le> \<bar>x\<bar> / 2 ^ 52" by (simp add: pos_le_divide_eq)
  then show ?thesis by simp
next
  case False
  then have "max (ilog2 \<bar>x\<bar>) (- 1022) = - 1022" by simp
  then have "ulp x = pow2 (- 1074)" by (simp add: ulp_def)
  then have "ulp x = 1 / 2 ^ 1074" by (simp add: pow2_def)
  then show ?thesis by simp
qed

lemma to_double_error: "\<bar>to_double x - x\<bar> \<le> max (\<bar>x\<bar> / 2 ^ 53) (1 / 2 ^ 1075)"
proof (cases "x = 0")
  case True
  then show ?thesis by (simp add: to_double_0)
next
  case False
  have "\<bar>to_double x - x\<bar> \<le> ulp x / 2" using False by (rule to_double_error_ulp)
  also have "\<dots> \<le> max (\<bar>x\<bar> / 2 ^ 52) (1 / 2 ^ 1074) / 2"
    using ulp_bound [OF False] by simp
  also have "\<dots> = max (\<bar>x\<bar> / 2 ^ 53) (1 / 2 ^ 1075)"
    by (simp add: max_def)
  finally show ?thesis .
qed

lemma dec_digits_small: "n < 10 \<Longrightarrow> dec_digits n = [digit_char n]"
  by (subst dec_digits.simps) simp

lemma dec_digits_big:
  "10 \<le> n \<Longrightarrow> dec_digits n = dec_digits (n div 10) @ [digit_char (n mod 10)]"
  by (subst dec_digits.simps) simp

lemmas format_eval =
  format_fixed_def round_half_even_def dec_digits_small dec_digits_big digit_char_def Let_def

lemmas double_eval =
  to_double_def ulp_def ilog2_def pow2_def bit_length_0 bit_length_pos round_half_even_def
  sgn_if Let_def

lemmas number_eval =
  int_truediv_def float_truediv_def mib_def dbl_limit_def percent_def double_eval

lemma digit_char_code:
  assumes "n < 10"
  shows "(of_char (digit_char n) :: nat) = 48 + n"
proof -
  have "n \<in> {0, 1, 2, 3, 4, 5, 6, 7, 8, 9}"
    using assms by auto
  then show ?thesis
    by (auto simp: digit_char_def)
qed

lemma digit_char_is_digit: "n < 10 \<Longrightarrow> is_digit (digit_char n)"
  by (simp add: is_digit_def digit_char_code)

lemma decimal_value_snoc:
  "decimal_value (s @ [c]) = 10 * decimal_value s + (of_char c - 48)"
  by (simp add: decimal_value_def)

lemma decimal_value_append:
  "decimal_value (a @ b) = decimal_value a * 10 ^ length b + decimal_value b"
proof (induction b rule: rev_induct)
  case Nil
  then show ?case by (simp add: decimal_value_def)
next
  case (snoc c b)
  have "decimal_value (a @ b @ [c]) = 10 * decimal_value (a @ b) + (of_char c - 48)"
    using decimal_value_snoc [of "a @ b" c] by simp
  then show ?case
    using snoc.IH by (simp add: decimal_value_snoc algebra_simps)
qed

lemma decimal_value_zeros: "decimal_value (replicate k (CHR ''0'')) = 0"
proof (induction k)
  case 0
  then show ?case by (simp add: decimal_value_def)
next
  case (Suc k)
  have "replicate (Suc k) (CHR ''0'') = replicate k (CHR ''0'') @ [CHR ''0'']"
    by (simp add: replicate_append_same)
  then show ?case using Suc.IH by (simp only: decimal_value_snoc) simp
qed

lemma dec_digits_props:
  "list_all is_digit (dec_digits n) \<and> dec_digits n \<noteq> [] \<and> decimal_value (dec_digits n) = n"
proof (induction n rule: dec_digits.induct)
  case (1 n)
  show ?case
  proof (cases "n < 10")
    case True
    then show ?thesis
      by (simp add: dec_digits_small digit_char_is_digit decimal_value_def digit_char_code)
  next
    case False
    then have ih: "list_all is_digit (dec_digits (n div 10)) \<and> dec_digits (n div 10) \<noteq> [] \<and>
                   decimal_value (dec_digits (n div 10)) = n div 10"
      using "1.IH" by simp
    have m: "n mod 10 < 10" by simp
    show ?thesis
      using False ih m
      by (simp add: dec_digits_big digit_char_is_digit decimal_value_snoc digit_char_code)
  qed
qed

lemma dec_digits_length:
  "0 < d \<Longrightarrow> n < 10 ^ d \<Longrightarrow> length (dec_digits n) \<le> d"
proof (induction n arbitrary: d rule: dec_digits.induct)
  case (1 n)
  show ?case
  proof (cases "n < 10")
    case True
    then show ?thesis using "1.prems" by (simp add: dec_digits_small)
  next
    case False
    then obtain d' where d: "d = Suc d'" using "1.prems" by (cases d) simp_all
    have d'pos: "0 < d'"
    proof (rule ccontr)
      assume "\<not> 0 < d'"
      then show False using d "1.prems" False by simp
    qed
    have "n div 10 < 10 ^ d'"
      using "1.prems"(2) d by (simp add: less_mult_imp_div_less mult.commute)
    then have "length (dec_digits (n div 10)) \<le> d'"
      using "1.IH" False d'pos by simp
    then show ?thesis using False d by (simp add: dec_digits_big)
  qed
qed

lemma fixed_value_format_aux:
  assumes "0 < d"
  shows "fixed_value d (format_fixed d x) =
           Some ((if x < 0 then - 1 else 1) *
                 real (nat (round_half_even (\<bar>x\<bar> * 10 ^ d))) / 10 ^ d)"
proof -
  define n where "n = nat (round_half_even (\<bar>x\<bar> * 10 ^ d))"
  define ip where "ip = dec_digits (n div 10 ^ d)"
  define fp where "fp = dec_digits (n mod 10 ^ d)"
  define pf where "pf = replicate (d - length fp) (CHR ''0'') @ fp"
  define t where "t = ip @ ''.'' @ pf"
  have ip: "list_all is_digit ip" "ip \<noteq> []" "decimal_value ip = n div 10 ^ d"
    unfolding ip_def using dec_digits_props [of "n div 10 ^ d"] by simp_all
  have fp: "list_all is_digit fp" "decimal_value fp = n mod 10 ^ d"
    unfolding fp_def using dec_digits_props [of "n mod 10 ^ d"] by simp_all
  have lfp: "length fp \<le> d"
    unfolding fp_def using assms by (intro dec_digits_length) simp_all
  have zero: "is_digit (CHR ''0'')" by (simp add: is_digit_def)
  have lpf: "length pf = d" unfolding pf_def using lfp by simp
  have dpf: "list_all is_digit pf"
    unfolding pf_def using fp(1) zero by (auto simp: list_all_iff)
  have vpf: "decimal_value pf = n mod 10 ^ d"
    unfolding pf_def by (simp add: decimal_value_append decimal_value_zeros fp(2))
  have lt: "length t = length ip + (d + 1)" unfolding t_def using lpf by simp
  have s: "format_fixed d x = (if x < 0 then ''-'' else '''') @ t"
    using assms unfolding format_fixed_def Let_def n_def [symmetric] ip_def [symmetric]
      fp_def [symmetric] t_def pf_def by simp
  have hd_ip: "take 1 t \<noteq> ''-''"
  proof -
    obtain c cs where c: "ip = c # cs" using ip(2) by (cases ip) simp_all
    then have "is_digit c" using ip(1) by simp
    then have "c \<noteq> CHR ''-''" by (auto simp: is_digit_def)
    then show ?thesis unfolding t_def c by simp
  qed
  have strip: "(if take 1 (format_fixed d x) = ''-'' then drop 1 (format_fixed d x)
                else format_fixed d x) = t"
    unfolding s using hd_ip by (cases "x < 0") simp_all
  have sign: "take 1 (format_fixed d x) = ''-'' \<longleftrightarrow> x < 0"
    unfolding s using hd_ip by (cases "x < 0") simp_all
  have tk: "take (length t - (d + 1)) t = ip" unfolding lt unfolding t_def by simp
  have dr: "drop (length t - d) t = pf"
  proof -
    have l: "length t - d = Suc (length ip)" unfolding lt by simp
    show ?thesis unfolding l unfolding t_def by simp
  qed
  have dot: "t ! (length t - (d + 1)) = CHR ''.''" unfolding lt unfolding t_def by (simp add: nth_append)
  have val: "decimal_value (ip @ pf) = n"
    unfolding decimal_value_append ip(3) vpf lpf by (rule div_mult_mod_eq)
  have cond: "d + 1 < length t" using lt ip(2) by (cases ip) simp_all
  show ?thesis
    unfolding fixed_value_def unfolding strip unfolding Let_def tk dr val sign
    unfolding n_def [symmetric]
    using cond dot ip(1) dpf by simp
qed

lemma fixed_value_format:
  assumes "0 < d"
  shows "\<exists>v. fixed_value d (format_fixed d x) = Some v \<and> \<bar>v - x\<bar> \<le> 1 / (2 * 10 ^ d)"
proof -
  define p :: real where "p = 10 ^ d"
  define y where "y = \<bar>x\<bar> * p"
  define sg :: real where "sg = (if x < 0 then - 1 else 1)"
  define r where "r = real_of_int (round_half_even y)"
  have p: "0 < p" unfolding p_def by simp
  have y: "0 \<le> y" unfolding y_def using p by simp
  have "round_half_even 0 \<le> round_half_even y" using y by (rule round_half_even_mono)
  then have nn: "0 \<le> round_half_even y" using round_half_even_of_int [of 0] by simp
  have rn: "real (nat (round_half_even y)) = r"
    unfolding r_def using nn by simp
  have "fixed_value d (format_fixed d x) =
          Some ((if x < 0 then - 1 else 1) * real (nat (round_half_even (\<bar>x\<bar> * 10 ^ d))) / 10 ^ d)"
    by (rule fixed_value_format_aux [OF assms])
  then have fv: "fixed_value d (format_fixed d x) = Some (sg * r / p)"
    unfolding sg_def [symmetric] p_def [symmetric] y_def [symmetric] rn .
  have e: "\<bar>r - y\<bar> \<le> 1 / 2" unfolding r_def by (rule round_half_even_error)
  have xs: "x = sg * \<bar>x\<bar>" unfolding sg_def by simp
  have sq: "\<bar>sg\<bar> = 1" unfolding sg_def by simp
  have "sg * r / p - sg * \<bar>x\<bar> = sg * ((r - y) / p)"
    unfolding y_def using p by (simp add: field_simps)
  then have "sg * r / p - x = sg * ((r - y) / p)" using xs by simp
  then have "\<bar>sg * r / p - x\<bar> = \<bar>r - y\<bar> / p"
    using sq p by (simp add: abs_mult abs_of_pos)
  also have "\<dots> \<le> (1 / 2) / p"
    using e p by (intro divide_right_mono) simp_all
  finally have "\<bar>sg * r / p - x\<bar> \<le> 1 / (2 * 10 ^ d)" unfolding p_def by simp
  with fv show ?thesis by blast
qed


lemma format_full_percent: "format_fixed 1 100 = ''100.0''"
  by (simp add: format_eval)

lemma to_double_100: "to_double 100 = 100"
  using to_double_int [of 100] by simp

lemma to_double_1024: "to_double 1024 = 1024"
  using to_double_int [of 1024] by simp

lemma percent_Inr:
  "percent downloaded total_size = Inr p \<Longrightarrow>
   p = (if 0 < total_size
        then min 100 (to_double (real_of_int downloaded / real_of_int total_size * 100)) else 0)"
  by (auto simp: percent_def int_truediv_def min_def split: if_splits)

lemma mib_Inr:
  "mib n = Inr x \<Longrightarrow> x = to_double (to_double (real_of_int n / 1024) / 1024)"
  by (auto simp: mib_def int_truediv_def float_truediv_def to_double_1024 split: if_splits sum.splits)

lemma below_limit: "x < 2 ^ 1010 \<Longrightarrow> \<not> dbl_limit \<le> (x::real)"
  by (simp add: dbl_limit_def)

lemma percent_mono:
  assumes "0 < total_size" "d \<le> d'"
    and "percent d total_size = Inr p" "percent d' total_size = Inr p'"
  shows "p \<le> p'"
proof -
  have "real_of_int d / real_of_int total_size * 100
        \<le> real_of_int d' / real_of_int total_size * 100"
    using assms(1,2) by (simp add: divide_right_mono)
  then have "to_double (real_of_int d / real_of_int total_size * 100)
             \<le> to_double (real_of_int d' / real_of_int total_size * 100)"
    by (rule to_double_mono)
  then show ?thesis
    using percent_Inr [OF assms(3)] percent_Inr [OF assms(4)] assms(1) by (simp add: min_def)
qed

lemma percent_full:
  assumes "0 < total_size" "total_size \<le> d" "percent d total_size = Inr p"
  shows "p = 100"
proof -
  have "100 \<le> real_of_int d / real_of_int total_size * 100"
    using assms(1,2) by (simp add: pos_le_divide_eq)
  then have "to_double 100 \<le> to_double (real_of_int d / real_of_int total_size * 100)"
    by (rule to_double_mono)
  then show ?thesis
    using percent_Inr [OF assms(3)] assms(1) by (simp add: min_def to_double_100)
qed


text \<open>When the three divisions of the callback have a finite double for a result.\<close>

lemma float_truediv_1024: "float_truediv x 1024 = Inr (to_double (x / 1024))"
  by (simp add: float_truediv_def dbl_limit_def to_double_1024)

lemma mib_cases:
  "mib n =
     (if dbl_limit \<le> \<bar>real_of_int n / 1024\<bar>
      then Inl (Exn OverflowError ''integer division result too large for a float'')
      else Inr (to_double (to_double (real_of_int n / 1024) / 1024)))"
  by (simp add: mib_def int_truediv_def float_truediv_1024)

lemma mib_exact:
  assumes "0 \<le> n" "n < 2 ^ 53"
  shows "mib n = Inr (real_of_int n / 1024 / 1024)"
proof -
  have a: "real_of_int n / 1024 = real_of_int n * pow2 (- 10)"
    by (simp add: pow2_def)
  have b: "real_of_int n / 1024 / 1024 = real_of_int n * pow2 (- 20)"
    by (simp add: pow2_def)
  have ea: "to_double (real_of_int n / 1024) = real_of_int n / 1024"
    unfolding a using assms by (intro to_double_exact) simp_all
  have eb: "to_double (real_of_int n / 1024 / 1024) = real_of_int n / 1024 / 1024"
    unfolding b using assms by (intro to_double_exact) simp_all
  have "real_of_int n < real_of_int (2 ^ 53)" using assms(2) by (simp only: of_int_less_iff)
  then have "\<bar>real_of_int n / 1024\<bar> < 2 ^ 1010"
    using assms(1) by simp
  then have nl: "\<not> dbl_limit \<le> \<bar>real_of_int n / 1024\<bar>"
    by (rule below_limit)
  show ?thesis
    unfolding mib_cases using nl by (simp only: if_False ea eb)
qed













section \<open>The file system and the transfer\<close>

lemma write_stdout_frame:
  "write_stdout en s w = (r, w') \<Longrightarrow> nodes w' = nodes w \<and> cwd w' = cwd w"
  by (auto simp: write_stdout_def split: if_splits)

lemma write_stdout_Inr:
  "write_stdout en s w = (Inr u, w') \<Longrightarrow> w' = w\<lparr>stdout := stdout w @ [s]\<rparr>"
  by (auto simp: write_stdout_def split: if_splits)

lemma write_stdout_Inl:
  "write_stdout en s w = (Inl e, w') \<Longrightarrow>
   w' = w \<and> (cls e = UnicodeEncodeError \<or> cls e = BrokenPipeError)"
  by (auto simp: write_stdout_def split: if_splits)

lemma write_stdout_ok:
  "stdout_utf8 en \<or> ascii s \<Longrightarrow> \<not> stdout_closed en (length (stdout w)) \<Longrightarrow>
   write_stdout en s w = (Inr (), w\<lparr>stdout := stdout w @ [s]\<rparr>)"
  by (auto simp: write_stdout_def)

lemma print_frame:
  "print en s w = (r, w') \<Longrightarrow> nodes w' = nodes w \<and> cwd w' = cwd w"
  unfolding print_def by (rule write_stdout_frame)

lemma print_Inr:
  "print en s w = (Inr u, w') \<Longrightarrow> w' = w\<lparr>stdout := stdout w @ [s @ [CHR 0x0A]]\<rparr>"
  unfolding print_def by (rule write_stdout_Inr)

lemma print_Inl: "print en s w = (Inl e, w') \<Longrightarrow> w' = w"
  unfolding print_def using write_stdout_Inl by blast

lemma print_ok:
  "stdout_utf8 en \<Longrightarrow> \<not> stdout_closed en (length (stdout w)) \<Longrightarrow>
   print en s w = (Inr (), w\<lparr>stdout := stdout w @ [s @ [CHR 0x0A]]\<rparr>)"
  unfolding print_def by (rule write_stdout_ok) simp_all

lemma os_mkdir_cwd: "os_mkdir w p = (r, w') \<Longrightarrow> cwd w' = cwd w \<and> stdout w' = stdout w"
  by (auto simp: os_mkdir_def split: option.splits node.splits if_splits)

lemma os_mkdir_fails: "os_mkdir w p = (Inl e, w') \<Longrightarrow> w' = w"
  by (auto simp: os_mkdir_def split: option.splits node.splits if_splits)

lemma os_mkdir_existing:
  "is_dir w p \<Longrightarrow> \<exists>m. os_mkdir w p = (Inl (Exn FileExistsError m), w)"
  by (auto simp: os_mkdir_def is_dir_def split: option.splits node.splits)

lemma pathlib_mkdir_existing:
  assumes "is_dir w (cwd w @ rel)"
  shows "pathlib_mkdir parents True w rel = (Inr (), w)"
proof -
  obtain m where "os_mkdir w (cwd w @ rel) = (Inl (Exn FileExistsError m), w)"
    using os_mkdir_existing [OF assms] by blast
  then show ?thesis
    using assms by (subst pathlib_mkdir.simps) simp
qed

lemma pathlib_mkdir_cwd:
  "pathlib_mkdir parents exist_ok w rel = (r, w') \<Longrightarrow> cwd w' = cwd w \<and> stdout w' = stdout w"
proof (induction parents exist_ok w rel arbitrary: r w' rule: pathlib_mkdir.induct)
  case (1 parents exist_ok w rel)
  obtain r0 w0 where m: "os_mkdir w (cwd w @ rel) = (r0, w0)"
    by (cases "os_mkdir w (cwd w @ rel)")
  have c0: "cwd w0 = cwd w \<and> stdout w0 = stdout w"
    using os_mkdir_cwd [OF m] .
  show ?case
  proof (cases r0)
    case (Inr u)
    then show ?thesis
      using "1.prems" m c0 by (subst (asm) pathlib_mkdir.simps) auto
  next
    case (Inl e)
    show ?thesis
    proof (cases "cls e = FileNotFoundError \<and> parents \<and> rel \<noteq> []")
      case False
      then show ?thesis
        using "1.prems" m c0 Inl
        by (subst (asm) pathlib_mkdir.simps) (auto split: if_splits)
    next
      case True
      obtain r1 w1 where p: "pathlib_mkdir True True w0 (butlast rel) = (r1, w1)"
        by (cases "pathlib_mkdir True True w0 (butlast rel)")
      have c1: "cwd w1 = cwd w0 \<and> stdout w1 = stdout w0"
        by (rule "1.IH"(1) [OF m [symmetric] Inl _ _ p]) (use True in simp_all)
      show ?thesis
      proof (cases r1)
        case (Inl e')
        then show ?thesis
          using "1.prems" m c0 c1 p True \<open>r0 = Inl e\<close>
          by (subst (asm) pathlib_mkdir.simps) auto
      next
        case (Inr u)
        have q: "pathlib_mkdir False exist_ok w1 rel = (r, w')"
          using "1.prems" m p True Inr \<open>r0 = Inl e\<close>
          by (subst (asm) pathlib_mkdir.simps) auto
        have "cwd w' = cwd w1 \<and> stdout w' = stdout w1"
          by (rule "1.IH"(2) [OF m [symmetric] \<open>r0 = Inl e\<close> _ _ p [symmetric] Inr q])
             (use True in simp_all)
        then show ?thesis
          using c0 c1 by simp
      qed
    qed
  qed
qed

lemma show_progress_frame:
  "show_progress en block_num block_size total_size w = (r, w') \<Longrightarrow>
   nodes w' = nodes w \<and> cwd w' = cwd w"
  by (auto simp: show_progress_def print_no_end_def split: sum.splits dest: write_stdout_frame)

lemma show_progress_Inr:
  assumes "show_progress en block_num block_size total_size w = (Inr u, w')"
  shows "\<exists>s. progress_text block_num block_size total_size = Inr s \<and>
             w' = w\<lparr>stdout := stdout w @ [s]\<rparr>"
proof (cases "progress_text block_num block_size total_size")
  case (Inl e)
  then show ?thesis using assms by (simp add: show_progress_def)
next
  case (Inr s)
  then have "write_stdout en s w = (Inr u, w')"
    using assms by (simp add: show_progress_def print_no_end_def)
  then show ?thesis using Inr write_stdout_Inr by blast
qed


lemma file_write_frame:
  "file_write en p k block w = (r, w') \<Longrightarrow>
   cwd w' = cwd w \<and> stdout w' = stdout w \<and> (\<forall>q. q \<noteq> p \<longrightarrow> nodes w' q = nodes w q)"
  by (auto simp: file_write_def split: option.splits)

lemma file_write_content:
  "file_write en p k block w = (Inr u, w') \<Longrightarrow> nodes w p = Some (File b) \<Longrightarrow>
   nodes w' p = Some (File (b @ block))"
  by (auto simp: file_write_def split: option.splits)

lemma open_wb_frame:
  "open_wb w p = (r, w') \<Longrightarrow>
   cwd w' = cwd w \<and> stdout w' = stdout w \<and> (\<forall>q. q \<noteq> p \<longrightarrow> nodes w' q = nodes w q)"
  by (auto simp: open_wb_def split: option.splits node.splits if_splits)

lemma open_wb_content: "open_wb w p = (Inr u, w') \<Longrightarrow> nodes w' p = Some (File [])"
  by (auto simp: open_wb_def split: option.splits node.splits if_splits)

lemma copy_loop_frame:
  "copy_loop en p (show_progress en') sz rs read blocknum w = (r, w') \<Longrightarrow>
   cwd w' = cwd w \<and> (\<forall>q. q \<noteq> p \<longrightarrow> nodes w' q = nodes w q)"
proof (induction rs arbitrary: read blocknum w)
  case Nil
  then show ?case by simp
next
  case (Cons x rs)
  show ?case
  proof (cases x)
    case (Inl e)
    then show ?thesis using Cons.prems by simp
  next
    case (Inr block)
    show ?thesis
    proof (cases "block = []")
      case True
      then show ?thesis using Cons.prems Inr by simp
    next
      case False
      obtain r1 w1 where fw: "file_write en p (nat blocknum) block w = (r1, w1)"
        by (cases "file_write en p (nat blocknum) block w")
      obtain r2 w2 where sp: "show_progress en' (blocknum + 1) bs sz w1 = (r2, w2)"
        by (cases "show_progress en' (blocknum + 1) bs sz w1")
      have f1: "cwd w1 = cwd w \<and> (\<forall>q. q \<noteq> p \<longrightarrow> nodes w1 q = nodes w q)"
        using file_write_frame [OF fw] by simp
      have f2: "nodes w2 = nodes w1 \<and> cwd w2 = cwd w1"
        using show_progress_frame [OF sp] .
      show ?thesis
      proof (cases "\<exists>u u'. r1 = Inr u \<and> r2 = Inr u'")
        case True
        then have "copy_loop en p (show_progress en') sz rs (read + int (length block)) (blocknum + 1) w2
                   = (r, w')"
          using Cons.prems Inr False fw sp by auto
        from Cons.IH [OF this] show ?thesis
          using f1 f2 by simp
      next
        case stop: False
        then have "w' = w1 \<or> w' = w2"
          using Cons.prems Inr False fw sp by (auto split: sum.splits)
        then show ?thesis
          using f1 f2 by auto
      qed
    qed
  qed
qed

lemma copy_loop_content:
  "copy_loop en p (show_progress en') sz rs read blocknum w = (Inr n, w') \<Longrightarrow>
   nodes w p = Some (File b) \<Longrightarrow>
   nodes w' p = Some (File (b @ received rs)) \<and> n = read + int (length (received rs))"
proof (induction rs arbitrary: read blocknum w b)
  case Nil
  then show ?case by simp
next
  case (Cons x rs)
  show ?case
  proof (cases x)
    case (Inl e)
    then show ?thesis using Cons.prems by simp
  next
    case (Inr block)
    show ?thesis
    proof (cases "block = []")
      case True
      then show ?thesis using Cons.prems Inr by simp
    next
      case False
      obtain r1 w1 where fw: "file_write en p (nat blocknum) block w = (r1, w1)"
        by (cases "file_write en p (nat blocknum) block w")
      obtain r2 w2 where sp: "show_progress en' (blocknum + 1) bs sz w1 = (r2, w2)"
        by (cases "show_progress en' (blocknum + 1) bs sz w1")
      have ok: "r1 = Inr ()" "r2 = Inr ()"
        using Cons.prems(1) Inr False fw sp by (auto split: sum.splits)
      have rest: "copy_loop en p (show_progress en') sz rs (read + int (length block)) (blocknum + 1) w2
                  = (Inr n, w')"
        using Cons.prems(1) Inr False fw sp ok by simp
      have "nodes w1 p = Some (File (b @ block))"
        using file_write_content fw ok(1) Cons.prems(2) by blast
      then have "nodes w2 p = Some (File (b @ block))"
        using show_progress_frame [OF sp] by simp
      from Cons.IH [OF rest this] show ?thesis
        using Inr False by simp
    qed
  qed
qed

lemma urlretrieve_frame:
  assumes "urlretrieve en url filename (show_progress en') w = (r, w')"
  shows "cwd w' = cwd w \<and> (\<forall>q. q \<noteq> cwd w @ filename \<longrightarrow> nodes w' q = nodes w q)"
proof (cases "urlopen en url")
  case (Inl e)
  then show ?thesis using assms by (simp add: urlretrieve_def)
next
  case (Inr resp)
  let ?p = "cwd w @ filename"
  let ?sz = "case content_length resp of Some n \<Rightarrow> n | None \<Rightarrow> - 1"
  obtain r1 w1 where ow: "open_wb w ?p = (r1, w1)"
    by (cases "open_wb w ?p")
  have f1: "cwd w1 = cwd w \<and> (\<forall>q. q \<noteq> ?p \<longrightarrow> nodes w1 q = nodes w q)"
    using open_wb_frame [OF ow] by simp
  obtain r2 w2 where sp: "show_progress en' 0 bs ?sz w1 = (r2, w2)"
    by (cases "show_progress en' 0 bs ?sz w1")
  have f2: "nodes w2 = nodes w1 \<and> cwd w2 = cwd w1"
    using show_progress_frame [OF sp] .
  obtain r3 w3 where cl: "copy_loop en ?p (show_progress en') ?sz (reads resp) 0 0 w2 = (r3, w3)"
    by (cases "copy_loop en ?p (show_progress en') ?sz (reads resp) 0 0 w2")
  have f3: "cwd w3 = cwd w2 \<and> (\<forall>q. q \<noteq> ?p \<longrightarrow> nodes w3 q = nodes w2 q)"
    using copy_loop_frame [OF cl] .
  have "w' = w1 \<or> w' = w2 \<or> w' = w3"
    using assms Inr ow sp cl by (auto simp: urlretrieve_def Let_def split: sum.splits if_splits)
  then show ?thesis
    using f1 f2 f3 by auto
qed

lemma urlretrieve_content:
  assumes "urlretrieve en url filename (show_progress en') w = (Inr u, w')"
  shows "\<exists>resp. urlopen en url = Inr resp \<and>
           nodes w' (cwd w @ filename) = Some (File (received (reads resp)))"
proof (cases "urlopen en url")
  case (Inl e)
  then show ?thesis using assms by (simp add: urlretrieve_def)
next
  case (Inr resp)
  let ?p = "cwd w @ filename"
  let ?sz = "case content_length resp of Some n \<Rightarrow> n | None \<Rightarrow> - 1"
  obtain r1 w1 where ow: "open_wb w ?p = (r1, w1)"
    by (cases "open_wb w ?p")
  obtain r2 w2 where sp: "show_progress en' 0 bs ?sz w1 = (r2, w2)"
    by (cases "show_progress en' 0 bs ?sz w1")
  obtain r3 w3 where cl: "copy_loop en ?p (show_progress en') ?sz (reads resp) 0 0 w2 = (r3, w3)"
    by (cases "copy_loop en ?p (show_progress en') ?sz (reads resp) 0 0 w2")
  have ok: "r1 = Inr ()" "r2 = Inr ()" "\<exists>n. r3 = Inr n" "w' = w3"
    using assms Inr ow sp cl by (auto simp: urlretrieve_def Let_def split: sum.splits if_splits)
  then obtain n where n: "r3 = Inr n" by blast
  have "nodes w1 ?p = Some (File [])"
    using open_wb_content ow ok(1) by blast
  then have "nodes w2 ?p = Some (File [])"
    using show_progress_frame [OF sp] by simp
  then have "nodes w3 ?p = Some (File ([] @ received (reads resp)))"
    using copy_loop_content cl n by blast
  then show ?thesis
    using Inr ok(4) by simp
qed

lemma slash_join_path: "xs \<noteq> [] \<Longrightarrow> CHR ''/'' # join_path xs = path_text xs"
  by (induction xs rule: join_path.induct) (simp_all add: path_text_def)

lemma slash_join_append: "p \<noteq> [] \<Longrightarrow> CHR ''/'' # join_path (c @ p) = path_text (c @ p)"
  by (rule slash_join_path) simp

lemma path_text_append: "path_text (a @ b) = path_text a @ path_text b"
  by (simp add: path_text_def)

lemma path_text_model:
  "path_text (MODEL_DIR @ [MODEL_FILE]) = ''/assets/models/pose_landmark_lite.tflite''"
  by (simp add: path_text_def MODEL_DIR_def MODEL_FILE_def)

lemma absolute_Inr:
  "absolute w p = Inr a \<Longrightarrow> p \<noteq> [] \<Longrightarrow> is_dir w (cwd w) \<and> a = path_text (cwd w @ p)"
  by (auto simp: absolute_def getcwd_def slash_join_append split: if_splits)

lemma absolute_ok:
  "is_dir w (cwd w) \<Longrightarrow> p \<noteq> [] \<Longrightarrow> absolute w p = Inr (path_text (cwd w @ p))"
  by (simp add: absolute_def getcwd_def slash_join_append)

lemma is_dir_stdout: "is_dir (w\<lparr>stdout := s\<rparr>) p = is_dir w p"
  by (simp add: is_dir_def)

lemma absolute_gone:
  "\<not> is_dir w (cwd w) \<Longrightarrow>
   absolute w p = Inl (Exn FileNotFoundError ''[Errno 2] No such file or directory'')"
  by (simp add: absolute_def getcwd_def)

lemma announce_frame:
  "announce en p w = (r, w') \<Longrightarrow> nodes w' = nodes w \<and> cwd w' = cwd w"
  by (auto simp: announce_def split: sum.splits prod.splits dest!: print_frame)

lemma announce_Inr:
  "announce en p w = (Inr u, w') \<Longrightarrow>
   stdout w' = stdout w @
     [''Downloading MediaPipe Pose Lite model...'' @ [CHR 0x0A],
      ''URL: '' @ MODEL_URL @ [CHR 0x0A],
      ''Destination: '' @ join_path p @ [CHR 0x0A]]"
  by (auto simp: announce_def split: sum.splits prod.splits dest!: print_Inr)

lemma except_clause_frame:
  "except_clause en e p w = (r, w') \<Longrightarrow> nodes w' = nodes w \<and> cwd w' = cwd w"
  by (auto simp: except_clause_def split: sum.splits prod.splits dest!: print_frame)

lemma except_clause_Inr:
  assumes "except_clause en e p w = (Inr b, w')" and "p \<noteq> []"
  shows "\<not> b \<and>
         w' = w\<lparr>stdout := stdout w @
           [[CHR 0x0A] @ cross_mark @ '' Download failed: '' @ msg e @ [CHR 0x0A],
            [CHR 0x0A] @ ''Please download manually:'' @ [CHR 0x0A],
            ''   URL: '' @ MODEL_URL @ [CHR 0x0A],
            ''   Save to: '' @ path_text (cwd w @ p) @ [CHR 0x0A]]\<rparr>"
proof -
  from assms(1) obtain w1 w2 w3 location where
    p1: "print en ([CHR 0x0A] @ cross_mark @ '' Download failed: '' @ msg e) w = (Inr (), w1)" and
    p2: "print en ([CHR 0x0A] @ ''Please download manually:'') w1 = (Inr (), w2)" and
    p3: "print en (''   URL: '' @ MODEL_URL) w2 = (Inr (), w3)" and
    ab: "absolute w3 p = Inr location" and
    p4: "print en (''   Save to: '' @ location) w3 = (Inr (), w')" and
    b: "\<not> b"
    by (auto simp: except_clause_def split: sum.splits prod.splits)
  have w1: "w1 = w\<lparr>stdout := stdout w @ [[CHR 0x0A] @ cross_mark @ '' Download failed: '' @ msg e @ [CHR 0x0A]]\<rparr>"
    using print_Inr [OF p1] by simp
  have w2: "w2 = w1\<lparr>stdout := stdout w1 @ [[CHR 0x0A] @ ''Please download manually:'' @ [CHR 0x0A]]\<rparr>"
    using print_Inr [OF p2] by simp
  have w3: "w3 = w2\<lparr>stdout := stdout w2 @ [''   URL: '' @ MODEL_URL @ [CHR 0x0A]]\<rparr>"
    using print_Inr [OF p3] by simp
  have c3: "cwd w3 = cwd w" using w1 w2 w3 by simp
  have loc: "location = path_text (cwd w @ p)"
    using absolute_Inr [OF ab assms(2)] c3 by simp
  have w4: "w' = w3\<lparr>stdout := stdout w3 @ [''   Save to: '' @ location @ [CHR 0x0A]]\<rparr>"
    using print_Inr [OF p4] by simp
  show ?thesis
    using b unfolding w4 w3 w2 w1 loc by simp
qed

lemma except_clause_ok:
  assumes "stdout_utf8 en" and "\<forall>k<4. \<not> stdout_closed en (length (stdout w) + k)"
    and "is_dir w (cwd w)" and "p \<noteq> []"
  shows "except_clause en e p w =
           (Inr False,
            w\<lparr>stdout := stdout w @
              [[CHR 0x0A] @ cross_mark @ '' Download failed: '' @ msg e @ [CHR 0x0A],
               [CHR 0x0A] @ ''Please download manually:'' @ [CHR 0x0A],
               ''   URL: '' @ MODEL_URL @ [CHR 0x0A],
               ''   Save to: '' @ path_text (cwd w @ p) @ [CHR 0x0A]]\<rparr>)"
proof -
  have c: "\<not> stdout_closed en (length (stdout w))"
    "\<not> stdout_closed en (Suc (length (stdout w)))"
    "\<not> stdout_closed en (Suc (Suc (length (stdout w))))"
    "\<not> stdout_closed en (Suc (Suc (Suc (length (stdout w)))))"
    using assms(2) [rule_format, of 0] assms(2) [rule_format, of "Suc 0"]
      assms(2) [rule_format, of "Suc (Suc 0)"] assms(2) [rule_format, of "Suc (Suc (Suc 0))"]
    by simp_all
  show ?thesis
    using assms(1,3,4) c
    by (simp add: except_clause_def print_ok absolute_ok is_dir_stdout)
qed

lemma cross_mark_not_ascii: "\<not> ascii ([CHR 0x0A] @ cross_mark @ s)"
  by (simp add: ascii_def cross_mark_def)

lemma check_mark_not_ascii: "\<not> ascii (check_mark @ s)"
  by (simp add: ascii_def check_mark_def)

lemma except_clause_no_utf8:
  "\<not> stdout_utf8 en \<Longrightarrow>
   except_clause en e p w = (Inl (Exn UnicodeEncodeError ''character maps to <undefined>''), w)"
  using cross_mark_not_ascii [of "'' Download failed: '' @ msg e @ [CHR 0x0A]"]
  by (simp add: except_clause_def print_def write_stdout_def)

lemma try_body_frame:
  assumes "try_body en p w = (r, w')"
  shows "cwd w' = cwd w \<and> (\<forall>q. q \<noteq> cwd w @ p \<longrightarrow> nodes w' q = nodes w q)"
proof -
  obtain r1 w1 where u: "urlretrieve en MODEL_URL p (show_progress en) w = (r1, w1)"
    by (cases "urlretrieve en MODEL_URL p (show_progress en) w")
  have f: "cwd w1 = cwd w \<and> (\<forall>q. q \<noteq> cwd w @ p \<longrightarrow> nodes w1 q = nodes w q)"
    using urlretrieve_frame [OF u] .
  have "cwd w' = cwd w1 \<and> nodes w' = nodes w1"
    using assms u
    by (auto simp: try_body_def split: sum.splits prod.splits dest!: print_frame)
  then show ?thesis using f by simp
qed

lemma try_body_success:
  assumes "try_body en p w = (Inr b, w')" and "p \<noteq> []"
  obtains resp w1 mb where
    "b" and "stat_fault en = None" and "cwd w' = cwd w" and
    "urlopen en MODEL_URL = Inr resp" and
    "urlretrieve en MODEL_URL p (show_progress en) w = (Inr (), w1)" and
    "nodes w' = nodes w1" and
    "nodes w' (cwd w @ p) = Some (File (received (reads resp)))" and
    "mib (int (length (received (reads resp)))) = Inr mb" and
    "stdout w' = stdout w1 @
       [[CHR 0x0A],
        check_mark @ '' Successfully downloaded '' @ MODEL_FILE @ [CHR 0x0A],
        ''   File size: '' @ format_fixed 2 mb @ '' MB'' @ [CHR 0x0A],
        ''   Location: '' @ path_text (cwd w @ p) @ [CHR 0x0A]]"
proof -
  from assms(1) obtain w1 w2 file_size w3 mb w4 location where
    u: "urlretrieve en MODEL_URL p (show_progress en) w = (Inr (), w1)" and
    p1: "print en '''' w1 = (Inr (), w2)" and
    st: "st_size en w2 p = Inr file_size" and
    p2: "print en (check_mark @ '' Successfully downloaded '' @ MODEL_FILE) w2 = (Inr (), w3)" and
    mb: "mib file_size = Inr mb" and
    p3: "print en (''   File size: '' @ format_fixed 2 mb @ '' MB'') w3 = (Inr (), w4)" and
    ab: "absolute w4 p = Inr location" and
    p4: "print en (''   Location: '' @ location) w4 = (Inr (), w')" and
    b: "b"
    by (auto simp: try_body_def split: sum.splits prod.splits)
  obtain resp where resp: "urlopen en MODEL_URL = Inr resp"
    and fl: "nodes w1 (cwd w @ p) = Some (File (received (reads resp)))"
    using urlretrieve_content [OF u] by blast
  have c1: "cwd w1 = cwd w"
    using urlretrieve_frame [OF u] by simp
  have w2: "w2 = w1\<lparr>stdout := stdout w1 @ [[CHR 0x0A]]\<rparr>"
    using print_Inr [OF p1] by simp
  have w3: "w3 = w2\<lparr>stdout := stdout w2 @
              [check_mark @ '' Successfully downloaded '' @ MODEL_FILE @ [CHR 0x0A]]\<rparr>"
    using print_Inr [OF p2] by simp
  have w4: "w4 = w3\<lparr>stdout := stdout w3 @
              [''   File size: '' @ format_fixed 2 mb @ '' MB'' @ [CHR 0x0A]]\<rparr>"
    using print_Inr [OF p3] by simp
  have w5: "w' = w4\<lparr>stdout := stdout w4 @ [''   Location: '' @ location @ [CHR 0x0A]]\<rparr>"
    using print_Inr [OF p4] by simp
  have c4: "cwd w4 = cwd w" using w2 w3 w4 c1 by simp
  have loc: "location = path_text (cwd w @ p)"
    using absolute_Inr [OF ab assms(2)] c4 by simp
  have sf: "stat_fault en = None"
    using st by (auto simp: st_size_def split: option.splits)
  have "st_size en w2 p = Inr (int (length (received (reads resp))))"
    using sf fl c1 w2 by (simp add: st_size_def)
  then have fs: "file_size = int (length (received (reads resp)))"
    using st by simp
  have f3: "cwd w' = cwd w" unfolding w5 using c4 by simp
  have f6: "nodes w' = nodes w1" unfolding w5 w4 w3 w2 by simp
  have f7: "nodes w' (cwd w @ p) = Some (File (received (reads resp)))"
    using f6 fl by simp
  have f8: "mib (int (length (received (reads resp)))) = Inr mb"
    using mb fs by simp
  have f9: "stdout w' = stdout w1 @
       [[CHR 0x0A],
        check_mark @ '' Successfully downloaded '' @ MODEL_FILE @ [CHR 0x0A],
        ''   File size: '' @ format_fixed 2 mb @ '' MB'' @ [CHR 0x0A],
        ''   Location: '' @ path_text (cwd w @ p) @ [CHR 0x0A]]"
    unfolding w5 w4 w3 w2 loc by simp
  show thesis
    by (rule that [OF b sf f3 resp u f6 f7 f8 f9])
qed

lemma model_path_nonempty: "MODEL_DIR @ [MODEL_FILE] \<noteq> []"
  by simp

lemma download_model_True:
  assumes "download_model en w = (Inr True, w')"
  obtains w0 w3 where
    "pathlib_mkdir True True w MODEL_DIR = (Inr (), w0)" and "cwd w0 = cwd w" and
    "announce en (MODEL_DIR @ [MODEL_FILE]) w0 = (Inr (), w3)" and "cwd w3 = cwd w" and
    "try_body en (MODEL_DIR @ [MODEL_FILE]) w3 = (Inr True, w')"
proof -
  let ?p = "MODEL_DIR @ [MODEL_FILE]"
  obtain r0 w0 where m: "pathlib_mkdir True True w MODEL_DIR = (r0, w0)"
    by (cases "pathlib_mkdir True True w MODEL_DIR")
  have r0: "r0 = Inr ()"
    using assms m by (auto simp: download_model_def split: sum.splits)
  obtain ra w3 where a: "announce en ?p w0 = (ra, w3)"
    by (cases "announce en ?p w0")
  have ra: "ra = Inr ()"
    using assms m r0 a by (auto simp: download_model_def Let_def split: sum.splits)
  obtain r4 w4 where t: "try_body en ?p w3 = (r4, w4)"
    by (cases "try_body en ?p w3")
  have "r4 = Inr True \<and> w4 = w'"
  proof (cases r4)
    case (Inr b)
    then show ?thesis using assms m r0 a ra t by (simp add: download_model_def Let_def)
  next
    case (Inl e)
    then have "is_Exception e \<and> except_clause en e ?p w4 = (Inr True, w')"
      using assms m r0 a ra t by (auto simp: download_model_def Let_def split: if_splits)
    then show ?thesis
      using except_clause_Inr [of en e ?p w4 True w'] by simp
  qed
  then have tb: "try_body en ?p w3 = (Inr True, w')"
    using t by simp
  have m': "pathlib_mkdir True True w MODEL_DIR = (Inr (), w0)"
    using m r0 by simp
  have a': "announce en ?p w0 = (Inr (), w3)"
    using a ra by simp
  have c: "cwd w0 = cwd w"
    using pathlib_mkdir_cwd [OF m] by simp
  have c3: "cwd w3 = cwd w"
    using announce_frame [OF a] c by simp
  show thesis
    by (rule that [OF m' c a' c3 tb])
qed

lemma download_model_caught:
  assumes "pathlib_mkdir True True w MODEL_DIR = (Inr (), w0)"
    and "announce en (MODEL_DIR @ [MODEL_FILE]) w0 = (Inr (), w3)"
    and "try_body en (MODEL_DIR @ [MODEL_FILE]) w3 = (Inl e, w4)"
    and "is_Exception e"
  shows "download_model en w = except_clause en e (MODEL_DIR @ [MODEL_FILE]) w4"
  using assms by (simp add: download_model_def Let_def)

lemma urlretrieve_unreachable:
  "urlopen en url = Inl e \<Longrightarrow> urlretrieve en url filename hook w = (Inl e, w)"
  by (simp add: urlretrieve_def)

lemma try_body_transfer_raises:
  "urlretrieve en MODEL_URL p (show_progress en) w = (Inl e, w1) \<Longrightarrow>
   try_body en p w = (Inl e, w1)"
  by (simp add: try_body_def)

lemma try_body_stat_raises:
  "urlretrieve en MODEL_URL p (show_progress en) w = (Inr (), w1) \<Longrightarrow>
   print en [] w1 = (Inr (), w2) \<Longrightarrow>
   st_size en w2 p = Inl e \<Longrightarrow> try_body en p w = (Inl e, w2)"
  by (simp add: try_body_def)

lemma download_model_content:
  assumes "download_model en w = (Inr True, w')"
  obtains resp where
    "cwd w' = cwd w" and "stat_fault en = None" and "urlopen en MODEL_URL = Inr resp" and
    "nodes w' (cwd w @ MODEL_DIR @ [MODEL_FILE]) = Some (File (received (reads resp)))"
proof -
  let ?p = "MODEL_DIR @ [MODEL_FILE]"
  from assms obtain w0 w3 where c3: "cwd w3 = cwd w"
    and tb: "try_body en ?p w3 = (Inr True, w')"
    by (rule download_model_True)
  from tb model_path_nonempty obtain resp w1 mb where
    "True" and
    st: "stat_fault en = None" and c: "cwd w' = cwd w3" and
    resp: "urlopen en MODEL_URL = Inr resp" and
    "urlretrieve en MODEL_URL ?p (show_progress en) w3 = (Inr (), w1)" and
    "nodes w' = nodes w1" and
    fl: "nodes w' (cwd w3 @ ?p) = Some (File (received (reads resp)))"
    by (rule try_body_success)
  have a: "cwd w' = cwd w"
    using c c3 by simp
  have b: "nodes w' (cwd w @ MODEL_DIR @ [MODEL_FILE]) = Some (File (received (reads resp)))"
    using fl c3 by simp
  show thesis
    by (rule that [OF a st resp b])
qed

lemmas world_eval =
  download_model_def try_body_def except_clause_def announce_def urlretrieve_def
  show_progress_def progress_text_def progress_line_def open_wb_def file_write_def st_size_def
  os_mkdir_def os_chdir_def is_dir_def print_def print_no_end_def write_stdout_def ascii_def
  absolute_def getcwd_def main_def MODEL_DIR_def MODEL_FILE_def bs_def
  check_mark_def cross_mark_def

lemmas example_eval =
  proj_nodes_def fresh_world_def readonly_world_def populated_world_def
  good_env_def second_env_def unreachable_env_def vanished_env_def
  cp1252_env_def unreachable_cp1252_env_def vanished_cp1252_env_def closed_pipe_env_def

lemmas run_eval =
  pathlib_mkdir.simps world_eval example_eval number_eval format_eval

lemma good_run_output:
  "download_model good_env populated_world =
     (Inr True,
      populated_world
        \<lparr>nodes := (nodes populated_world)
           ([''proj'', ''assets'', ''models'', ''pose_landmark_lite.tflite''] \<mapsto> File [1, 2, 3]),
         stdout :=
           [''Downloading MediaPipe Pose Lite model...'' @ [CHR 0x0A],
            ''URL: https://cdn.jsdelivr.net/npm/@mediapipe/pose@0.5.1675469404/pose_landmark_lite.tflite'' @ [CHR 0x0A],
            ''Destination: assets/models/pose_landmark_lite.tflite'' @ [CHR 0x0A],
            [CHR 0x0D] @ ''Progress: 0.0% (0.00 MB / 0.00 MB)'',
            [CHR 0x0D] @ ''Progress: 100.0% (0.01 MB / 0.00 MB)'',
            [CHR 0x0A],
            [CHR 0xE2, CHR 0x9C, CHR 0x85] @ '' Successfully downloaded pose_landmark_lite.tflite'' @ [CHR 0x0A],
            ''   File size: 0.00 MB'' @ [CHR 0x0A],
            ''   Location: /proj/assets/models/pose_landmark_lite.tflite'' @ [CHR 0x0A]]\<rparr>)"
  by (simp add: run_eval MODEL_URL_def)

lemma show_progress_line:
  assumes "show_progress en k block_size total_size w = (Inr u, w')"
  obtains pc dmb tmb where
    "percent (k * block_size) total_size = Inr pc" and
    "mib (k * block_size) = Inr dmb" and "mib total_size = Inr tmb" and
    "w' = w\<lparr>stdout := stdout w @ [progress_line pc dmb tmb]\<rparr>"
proof -
  from show_progress_Inr [OF assms] obtain s where
    s: "progress_text k block_size total_size = Inr s" and
    w': "w' = w\<lparr>stdout := stdout w @ [s]\<rparr>"
    by blast
  from s obtain pc dmb tmb where
    "percent (k * block_size) total_size = Inr pc" "mib (k * block_size) = Inr dmb"
    "mib total_size = Inr tmb" "s = progress_line pc dmb tmb"
    by (auto simp: progress_text_def Let_def split: sum.splits)
  then show thesis using w' that by blast
qed

lemma copy_loop_reports:
  "copy_loop en p (show_progress en') sz rs read blocknum w = (Inr n, w') \<Longrightarrow>
   \<forall>b. Inr b \<in> set rs \<longrightarrow> int (length b) \<le> bs \<Longrightarrow>
   read \<le> blocknum * bs \<Longrightarrow>
   \<exists>es. stdout w' = stdout w @ map (\<lambda>(pc, dmb, tmb). progress_line pc dmb tmb) es \<and>
        (\<forall>i<length es. percent ((blocknum + 1 + int i) * bs) sz = Inr (fst (es ! i))) \<and>
        n \<le> (blocknum + int (length es)) * bs"
proof (induction rs arbitrary: read blocknum w)
  case Nil
  then have "stdout w' = stdout w @ map (\<lambda>(pc, dmb, tmb). progress_line pc dmb tmb) [] \<and>
        (\<forall>i<length ([] :: (real \<times> real \<times> real) list).
            percent ((blocknum + 1 + int i) * bs) sz = Inr (fst ([] ! i))) \<and>
        n \<le> (blocknum + int (length ([] :: (real \<times> real \<times> real) list))) * bs"
    by simp
  then show ?case by blast
next
  case (Cons x rs)
  show ?case
  proof (cases x)
    case (Inl e)
    then show ?thesis using Cons.prems by simp
  next
    case (Inr block)
    show ?thesis
    proof (cases "block = []")
      case True
      then have "stdout w' = stdout w @ map (\<lambda>(pc, dmb, tmb). progress_line pc dmb tmb) [] \<and>
        (\<forall>i<length ([] :: (real \<times> real \<times> real) list).
            percent ((blocknum + 1 + int i) * bs) sz = Inr (fst ([] ! i))) \<and>
        n \<le> (blocknum + int (length ([] :: (real \<times> real \<times> real) list))) * bs"
        using Cons.prems Inr by simp
      then show ?thesis by blast
    next
      case False
      obtain r1 w1 where fw: "file_write en p (nat blocknum) block w = (r1, w1)"
        by (cases "file_write en p (nat blocknum) block w")
      obtain r2 w2 where sp: "show_progress en' (blocknum + 1) bs sz w1 = (r2, w2)"
        by (cases "show_progress en' (blocknum + 1) bs sz w1")
      have ok: "r1 = Inr ()" "r2 = Inr ()"
        using Cons.prems(1) Inr False fw sp by (auto split: sum.splits)
      have rest: "copy_loop en p (show_progress en') sz rs (read + int (length block)) (blocknum + 1) w2
                  = (Inr n, w')"
        using Cons.prems(1) Inr False fw sp ok by simp
      have s1: "stdout w1 = stdout w"
        using file_write_frame [OF fw] by simp
      from sp ok(2) obtain pc dmb tmb where
        pc: "percent ((blocknum + 1) * bs) sz = Inr pc" and
        w2: "w2 = w1\<lparr>stdout := stdout w1 @ [progress_line pc dmb tmb]\<rparr>"
        using show_progress_line [of en' "blocknum + 1" bs sz w1 "()" w2] by blast
      have blk: "int (length block) \<le> bs"
        using Cons.prems(2) Inr by simp
      have rd: "read + int (length block) \<le> (blocknum + 1) * bs"
        using Cons.prems(3) blk by (simp add: algebra_simps)
      have rs: "\<forall>b. Inr b \<in> set rs \<longrightarrow> int (length b) \<le> bs"
        using Cons.prems(2) by simp
      from Cons.IH [OF rest rs rd] obtain es where
        out: "stdout w' = stdout w2 @ map (\<lambda>(pc, dmb, tmb). progress_line pc dmb tmb) es" and
        pcs: "\<forall>i<length es. percent ((blocknum + 1 + 1 + int i) * bs) sz = Inr (fst (es ! i))" and
        n: "n \<le> (blocknum + 1 + int (length es)) * bs"
        by blast
      let ?es = "(pc, dmb, tmb) # es"
      have a: "stdout w' = stdout w @ map (\<lambda>(pc, dmb, tmb). progress_line pc dmb tmb) ?es"
        using out w2 s1 by simp
      have b: "\<forall>i<length ?es. percent ((blocknum + 1 + int i) * bs) sz = Inr (fst (?es ! i))"
      proof (intro allI impI)
        fix i
        assume i: "i < length ?es"
        show "percent ((blocknum + 1 + int i) * bs) sz = Inr (fst (?es ! i))"
        proof (cases i)
          case 0
          then show ?thesis using pc by simp
        next
          case (Suc j)
          then have "j < length es" using i by simp
          then have "percent ((blocknum + 1 + 1 + int j) * bs) sz = Inr (fst (es ! j))"
            using pcs by blast
          moreover have "blocknum + 1 + int i = blocknum + 1 + 1 + int j" using Suc by simp
          moreover have "?es ! i = es ! j" using Suc by simp
          ultimately show ?thesis by (simp only:)
        qed
      qed
      have c: "n \<le> (blocknum + int (length ?es)) * bs"
        using n by (simp add: algebra_simps)
      from a b c show ?thesis by blast
    qed
  qed
qed

lemma urlretrieve_reports:
  assumes "urlretrieve en url filename (show_progress en') w = (Inr u, w')"
    and "urlopen en url = Inr resp" and "content_length resp = Some sz"
    and "\<forall>b. Inr b \<in> set (reads resp) \<longrightarrow> int (length b) \<le> bs"
  shows "\<exists>es. es \<noteq> [] \<and>
           stdout w' = stdout w @ map (\<lambda>(pc, dmb, tmb). progress_line pc dmb tmb) es \<and>
           (\<forall>i<length es. percent (int i * bs) sz = Inr (fst (es ! i))) \<and>
           (0 \<le> sz \<longrightarrow> sz \<le> (int (length es) - 1) * bs)"
proof -
  let ?p = "cwd w @ filename"
  obtain r1 w1 where ow: "open_wb w ?p = (r1, w1)"
    by (cases "open_wb w ?p")
  obtain r2 w2 where sp: "show_progress en' 0 bs sz w1 = (r2, w2)"
    by (cases "show_progress en' 0 bs sz w1")
  obtain r3 w3 where cl: "copy_loop en ?p (show_progress en') sz (reads resp) 0 0 w2 = (r3, w3)"
    by (cases "copy_loop en ?p (show_progress en') sz (reads resp) 0 0 w2")
  have ok: "r1 = Inr ()" "r2 = Inr ()" "\<exists>n. r3 = Inr n \<and> \<not> (0 \<le> sz \<and> n < sz)" "w' = w3"
    using assms(1-3) ow sp cl by (auto simp: urlretrieve_def Let_def split: sum.splits if_splits)
  then obtain n where n: "r3 = Inr n" and enough: "\<not> (0 \<le> sz \<and> n < sz)" by blast
  have s1: "stdout w1 = stdout w"
    using open_wb_frame [OF ow] by simp
  from sp ok(2) obtain pc dmb tmb where
    pc: "percent (0 * bs) sz = Inr pc" and
    w2: "w2 = w1\<lparr>stdout := stdout w1 @ [progress_line pc dmb tmb]\<rparr>"
    using show_progress_line [of en' 0 bs sz w1 "()" w2] by blast
  have cl': "copy_loop en ?p (show_progress en') sz (reads resp) 0 0 w2 = (Inr n, w')"
    using cl n ok(4) by simp
  have z: "(0::int) \<le> 0 * bs" by simp
  from copy_loop_reports [OF cl' assms(4) z] obtain es where
    out: "stdout w' = stdout w2 @ map (\<lambda>(pc, dmb, tmb). progress_line pc dmb tmb) es" and
    pcs: "\<forall>i<length es. percent ((0 + 1 + int i) * bs) sz = Inr (fst (es ! i))" and
    nb: "n \<le> (0 + int (length es)) * bs"
    by blast
  let ?es = "(pc, dmb, tmb) # es"
  have a: "stdout w' = stdout w @ map (\<lambda>(pc, dmb, tmb). progress_line pc dmb tmb) ?es"
    using out w2 s1 by simp
  have b: "\<forall>i<length ?es. percent (int i * bs) sz = Inr (fst (?es ! i))"
  proof (intro allI impI)
    fix i
    assume i: "i < length ?es"
    show "percent (int i * bs) sz = Inr (fst (?es ! i))"
    proof (cases i)
      case 0
      then show ?thesis using pc by simp
    next
      case (Suc j)
      then have "j < length es" using i by simp
      then have "percent ((0 + 1 + int j) * bs) sz = Inr (fst (es ! j))"
        using pcs by blast
      moreover have "int i = 0 + 1 + int j" using Suc by simp
      moreover have "?es ! i = es ! j" using Suc by simp
      ultimately show ?thesis by (simp only:)
    qed
  qed
  have c: "0 \<le> sz \<longrightarrow> sz \<le> (int (length ?es) - 1) * bs"
    using nb enough by auto
  have d: "?es \<noteq> []" by simp
  from d a b c show ?thesis by blast
qed

lemma os_mkdir_keeps:
  "os_mkdir w p = (r, w') \<Longrightarrow> nodes w q = Some n \<Longrightarrow> nodes w' q = Some n"
  by (auto simp: os_mkdir_def split: option.splits node.splits if_splits)

lemma pathlib_mkdir_keeps:
  "pathlib_mkdir parents exist_ok w rel = (r, w') \<Longrightarrow> nodes w q = Some n \<Longrightarrow>
   nodes w' q = Some n"
proof (induction parents exist_ok w rel arbitrary: r w' rule: pathlib_mkdir.induct)
  case (1 parents exist_ok w rel)
  obtain r0 w0 where m: "os_mkdir w (cwd w @ rel) = (r0, w0)"
    by (cases "os_mkdir w (cwd w @ rel)")
  have c0: "nodes w0 q = Some n"
    using os_mkdir_keeps [OF m "1.prems"(2)] .
  show ?case
  proof (cases r0)
    case (Inr u)
    then show ?thesis
      using "1.prems"(1) m c0 by (subst (asm) pathlib_mkdir.simps) auto
  next
    case (Inl e)
    show ?thesis
    proof (cases "cls e = FileNotFoundError \<and> parents \<and> rel \<noteq> []")
      case False
      then show ?thesis
        using "1.prems"(1) m c0 Inl
        by (subst (asm) pathlib_mkdir.simps) (auto split: if_splits)
    next
      case True
      obtain r1 w1 where p: "pathlib_mkdir True True w0 (butlast rel) = (r1, w1)"
        by (cases "pathlib_mkdir True True w0 (butlast rel)")
      have c1: "nodes w1 q = Some n"
        by (rule "1.IH"(1) [OF m [symmetric] Inl _ _ p c0]) (use True in simp_all)
      show ?thesis
      proof (cases r1)
        case (Inl e')
        then show ?thesis
          using "1.prems"(1) m c1 p True \<open>r0 = Inl e\<close>
          by (subst (asm) pathlib_mkdir.simps) auto
      next
        case (Inr u)
        have q: "pathlib_mkdir False exist_ok w1 rel = (r, w')"
          using "1.prems"(1) m p True Inr \<open>r0 = Inl e\<close>
          by (subst (asm) pathlib_mkdir.simps) auto
        show ?thesis
          by (rule "1.IH"(2) [OF m [symmetric] \<open>r0 = Inl e\<close> _ _ p [symmetric] Inr q c1])
             (use True in simp_all)
      qed
    qed
  qed
qed

lemma pathlib_mkdir_is_dir:
  assumes "pathlib_mkdir parents exist_ok w rel = (r, w')" and "is_dir w q"
  shows "is_dir w' q"
proof -
  from assms(2) obtain wr where "nodes w q = Some (Dir wr)"
    by (auto simp: is_dir_def split: option.splits node.splits)
  then have "nodes w' q = Some (Dir wr)"
    using pathlib_mkdir_keeps [OF assms(1)] by blast
  then show ?thesis by (simp add: is_dir_def)
qed

lemma os_chdir_is_dir: "os_chdir w p = (Inr u, w') \<Longrightarrow> is_dir w' (cwd w') \<and> nodes w' = nodes w"
  by (auto simp: os_chdir_def is_dir_def split: option.splits node.splits)

lemma download_model_frame:
  "cwd (snd (download_model en w)) = cwd w \<and>
   (\<forall>w0. pathlib_mkdir True True w MODEL_DIR = (Inr (), w0) \<longrightarrow>
      (\<forall>q. q \<noteq> cwd w @ MODEL_DIR @ [MODEL_FILE] \<longrightarrow>
           nodes (snd (download_model en w)) q = nodes w0 q))"
proof -
  let ?p = "MODEL_DIR @ [MODEL_FILE]"
  obtain r0 w0 where m: "pathlib_mkdir True True w MODEL_DIR = (r0, w0)"
    by (cases "pathlib_mkdir True True w MODEL_DIR")
  have c0: "cwd w0 = cwd w" using pathlib_mkdir_cwd [OF m] by simp
  show ?thesis
  proof (cases r0)
    case (Inl e)
    then show ?thesis using m c0 by (simp add: download_model_def)
  next
    case (Inr u)
    obtain ra w3 where a: "announce en ?p w0 = (ra, w3)"
      by (cases "announce en ?p w0")
    have f3: "nodes w3 = nodes w0 \<and> cwd w3 = cwd w0" using announce_frame [OF a] .
    show ?thesis
    proof (cases ra)
      case (Inl e)
      then show ?thesis using m Inr a f3 c0 by (simp add: download_model_def Let_def)
    next
      case ok: (Inr u')
      obtain r4 w4 where t: "try_body en ?p w3 = (r4, w4)"
        by (cases "try_body en ?p w3")
      have f4: "cwd w4 = cwd w3 \<and> (\<forall>q. q \<noteq> cwd w3 @ ?p \<longrightarrow> nodes w4 q = nodes w3 q)"
        using try_body_frame [OF t] .
      obtain r5 w5 where d: "download_model en w = (r5, w5)"
        by (cases "download_model en w")
      have "nodes w5 = nodes w4 \<and> cwd w5 = cwd w4"
      proof (cases r4)
        case (Inr b)
        then show ?thesis using d m \<open>r0 = Inr u\<close> a ok t by (simp add: download_model_def Let_def)
      next
        case (Inl e)
        show ?thesis
        proof (cases "is_Exception e")
          case True
          then have "except_clause en e ?p w4 = (r5, w5)"
            using d m \<open>r0 = Inr u\<close> a ok t Inl by (simp add: download_model_def Let_def)
          then show ?thesis by (rule except_clause_frame)
        next
          case False
          then show ?thesis
            using d m \<open>r0 = Inr u\<close> a ok t Inl by (simp add: download_model_def Let_def)
        qed
      qed
      then show ?thesis using d m Inr f3 f4 c0 by simp
    qed
  qed
qed

section \<open>The progress callback\<close>

lemma min_lipschitz: "\<bar>min c a - min c b\<bar> \<le> \<bar>a - b\<bar>" for a b c :: real
  by (simp add: min_def abs_if)

lemma percent_nonneg:
  assumes "0 \<le> d" "percent d total_size = Inr p"
  shows "0 \<le> p"
proof (cases "0 < total_size")
  case False
  then show ?thesis using percent_Inr [OF assms(2)] by simp
next
  case True
  have "0 \<le> real_of_int d / real_of_int total_size * 100"
    using assms(1) True by simp
  then have "0 \<le> to_double (real_of_int d / real_of_int total_size * 100)"
    by (rule to_double_nonneg)
  then show ?thesis using percent_Inr [OF assms(2)] True by simp
qed

lemma round_half_even_nonneg: "0 \<le> q \<Longrightarrow> 0 \<le> round_half_even q"
  using round_half_even_mono [of 0 q] round_half_even_of_int [of 0] by simp

lemma fixed_value_nonneg:
  assumes "0 \<le> p"
  shows "fixed_value 1 (format_fixed 1 p) = Some (real_of_int (round_half_even (p * 10)) / 10)"
proof -
  have "0 \<le> round_half_even (p * 10)"
    using assms by (intro round_half_even_nonneg) simp
  then show ?thesis
    using fixed_value_format_aux [of 1 p] assms by simp
qed

lemma progress_line_full:
  "progress_line 100 dmb tmb =
     [CHR 0x0D] @ ''Progress: 100.0% ('' @ format_fixed 2 dmb @ '' MB / '' @
     format_fixed 2 tmb @ '' MB)''"
  unfolding progress_line_def format_full_percent by simp


text \<open>
  C3. Whenever the progress callback reports, it writes one line to standard output;
  the percentage in it is the double nearest to
  \<open>bytesTransferred / totalBytes * 100\<close>, capped at 100, for a positive total, with
  \<open>bytesTransferred = block_num * block_size\<close>, and \<open>0\<close> when the total is zero or
  unknown (the library passes \<open>-1\<close>). It differs from the exact value of that formula by
  the rounding of the double at most, and the line shows it as a numeral with one decimal
  place, within \<open>0.05\<close> of it, followed by both byte counts in MiB.
\<close>

theorem progress_percent:
  assumes "show_progress en block_num block_size total_size w = (Inr (), w')"
  shows "\<exists>pc dmb tmb v.
           pc = (if 0 < total_size
                 then min 100 (to_double (real_of_int (block_num * block_size) /
                                          real_of_int total_size * 100))
                 else 0) \<and>
           \<bar>pc - (if 0 < total_size
                  then min 100 (real_of_int (block_num * block_size) /
                                real_of_int total_size * 100)
                  else 0)\<bar>
             \<le> max (\<bar>real_of_int (block_num * block_size) / real_of_int total_size * 100\<bar> / 2 ^ 53)
                   (1 / 2 ^ 1075) \<and>
           mib (block_num * block_size) = Inr dmb \<and> mib total_size = Inr tmb \<and>
           stdout w' = stdout w @
             [[CHR 0x0D] @ ''Progress: '' @ format_fixed 1 pc @ ''% ('' @
              format_fixed 2 dmb @ '' MB / '' @ format_fixed 2 tmb @ '' MB)''] \<and>
           fixed_value 1 (format_fixed 1 pc) = Some v \<and> \<bar>v - pc\<bar> \<le> 1 / 20"
proof -
  let ?x = "real_of_int (block_num * block_size) / real_of_int total_size * 100"
  from assms obtain pc dmb tmb where
    pc: "percent (block_num * block_size) total_size = Inr pc" and
    dmb: "mib (block_num * block_size) = Inr dmb" and
    tmb: "mib total_size = Inr tmb" and
    w': "w' = w\<lparr>stdout := stdout w @ [progress_line pc dmb tmb]\<rparr>"
    by (rule show_progress_line)
  have a: "pc = (if 0 < total_size then min 100 (to_double ?x) else 0)"
    using percent_Inr [OF pc] .
  have b: "\<bar>pc - (if 0 < total_size then min 100 ?x else 0)\<bar>
             \<le> max (\<bar>?x\<bar> / 2 ^ 53) (1 / 2 ^ 1075)"
  proof (cases "0 < total_size")
    case True
    have "\<bar>min 100 (to_double ?x) - min 100 ?x\<bar> \<le> \<bar>to_double ?x - ?x\<bar>"
      by (rule min_lipschitz)
    also have "\<dots> \<le> max (\<bar>?x\<bar> / 2 ^ 53) (1 / 2 ^ 1075)"
      by (rule to_double_error)
    finally show ?thesis using True a by simp
  next
    case False
    then show ?thesis using a by simp
  qed
  have c: "stdout w' = stdout w @
             [[CHR 0x0D] @ ''Progress: '' @ format_fixed 1 pc @ ''% ('' @
              format_fixed 2 dmb @ '' MB / '' @ format_fixed 2 tmb @ '' MB)'']"
    unfolding w' by (simp add: progress_line_def)
  obtain v where v: "fixed_value 1 (format_fixed 1 pc) = Some v" "\<bar>v - pc\<bar> \<le> 1 / (2 * 10 ^ 1)"
    using fixed_value_format [of 1 pc] by auto
  have d: "\<bar>v - pc\<bar> \<le> 1 / 20" using v(2) by simp
  show ?thesis
    by (intro exI conjI) (rule a, rule b, rule dmb, rule tmb, rule c, rule v(1), rule d)
qed

theorem progress_percent_witness:
  "show_progress good_env 9 8192 16384000 fresh_world =
     (Inr (), fresh_world\<lparr>stdout := [[CHR 0x0D] @ ''Progress: 0.5% (0.07 MB / 15.62 MB)'']\<rparr>) \<and>
   show_progress good_env 1 8192 (- 1) fresh_world =
     (Inr (), fresh_world\<lparr>stdout := [[CHR 0x0D] @ ''Progress: 0.0% (0.01 MB / -0.00 MB)'']\<rparr>) \<and>
   (\<exists>pc dmb tmb v.
      pc = (if (0::int) < 16384000
            then min 100 (to_double (real_of_int (9 * 8192) / real_of_int 16384000 * 100))
            else 0) \<and>
      \<bar>pc - (if (0::int) < 16384000
             then min 100 (real_of_int (9 * 8192) / real_of_int 16384000 * 100)
             else 0)\<bar>
        \<le> max (\<bar>real_of_int (9 * 8192) / real_of_int 16384000 * 100\<bar> / 2 ^ 53) (1 / 2 ^ 1075) \<and>
      mib (9 * 8192) = Inr dmb \<and> mib 16384000 = Inr tmb \<and>
      stdout (fresh_world\<lparr>stdout := [[CHR 0x0D] @ ''Progress: 0.5% (0.07 MB / 15.62 MB)'']\<rparr>) =
        stdout fresh_world @
          [[CHR 0x0D] @ ''Progress: '' @ format_fixed 1 pc @ ''% ('' @
           format_fixed 2 dmb @ '' MB / '' @ format_fixed 2 tmb @ '' MB)''] \<and>
      fixed_value 1 (format_fixed 1 pc) = Some v \<and> \<bar>v - pc\<bar> \<le> 1 / 20)"
proof -
  have h: "show_progress good_env 9 8192 16384000 fresh_world =
     (Inr (), fresh_world\<lparr>stdout := [[CHR 0x0D] @ ''Progress: 0.5% (0.07 MB / 15.62 MB)'']\<rparr>)"
    by (simp add: run_eval)
  have g: "show_progress good_env 1 8192 (- 1) fresh_world =
     (Inr (), fresh_world\<lparr>stdout := [[CHR 0x0D] @ ''Progress: 0.0% (0.01 MB / -0.00 MB)'']\<rparr>)"
    by (simp add: run_eval)
  show ?thesis
    by (rule conjI [OF h conjI [OF g progress_percent [OF h]]])
qed

text \<open>
  C4. With a known positive total, a block size that is not negative and two block
  counts of which the second is not the smaller, the percentage the callback prints at
  the second is not smaller than the one it prints at the first, nor is the figure shown
  to one decimal place; and a call whose byte count has reached the total prints
  \<open>100.0%\<close>. For a whole transfer that returns, with a Content-Length that is
  positive and reads that keep to the block size asked for: the callback has written one
  line for each of the block counts \<open>0, 1, 2, ...\<close> the library passes, in this order;
  their percentages do not decrease, nor do the figures shown, and the last line shows
  \<open>100.0%\<close>.
\<close>

theorem progress_monotone:
  "(0 \<le> block_size \<and> 0 < total_size \<and> k \<le> k' \<and>
    show_progress en k block_size total_size w1 = (Inr (), w1') \<and>
    show_progress en k' block_size total_size w2 = (Inr (), w2') \<longrightarrow>
      (\<exists>pc dmb tmb pc' dmb' tmb'.
         stdout w1' = stdout w1 @ [progress_line pc dmb tmb] \<and>
         stdout w2' = stdout w2 @ [progress_line pc' dmb' tmb'] \<and>
         pc \<le> pc' \<and> round_half_even (pc * 10) \<le> round_half_even (pc' * 10) \<and>
         (total_size \<le> k' * block_size \<longrightarrow>
            pc' = 100 \<and>
            (\<exists>rest. last (stdout w2') = [CHR 0x0D] @ ''Progress: 100.0% ('' @ rest)))) \<and>
   (urlretrieve en url filename (show_progress en) w = (Inr (), w') \<and>
    urlopen en url = Inr resp \<and> content_length resp = Some total_size \<and> 0 < total_size \<and>
    (\<forall>b. Inr b \<in> set (reads resp) \<longrightarrow> int (length b) \<le> bs) \<longrightarrow>
      (\<exists>es vs. es \<noteq> [] \<and> length vs = length es \<and>
         stdout w' = stdout w @ map (\<lambda>(pc, dmb, tmb). progress_line pc dmb tmb) es \<and>
         (\<forall>i<length es.
            percent (int i * bs) total_size = Inr (fst (es ! i)) \<and>
            fixed_value 1 (format_fixed 1 (fst (es ! i))) = Some (vs ! i)) \<and>
         sorted (map fst es) \<and> sorted vs \<and> fst (last es) = 100 \<and> last vs = 100 \<and>
         (\<exists>rest. last (stdout w') = [CHR 0x0D] @ ''Progress: 100.0% ('' @ rest)))"
proof (intro conjI impI)
  assume a: "0 \<le> block_size \<and> 0 < total_size \<and> k \<le> k' \<and>
    show_progress en k block_size total_size w1 = (Inr (), w1') \<and>
    show_progress en k' block_size total_size w2 = (Inr (), w2')"
  from a obtain pc dmb tmb where
    pc: "percent (k * block_size) total_size = Inr pc" and
    w1': "w1' = w1\<lparr>stdout := stdout w1 @ [progress_line pc dmb tmb]\<rparr>"
    using show_progress_line [of en k block_size total_size w1 "()" w1'] by blast
  from a obtain pc' dmb' tmb' where
    pc': "percent (k' * block_size) total_size = Inr pc'" and
    w2': "w2' = w2\<lparr>stdout := stdout w2 @ [progress_line pc' dmb' tmb']\<rparr>"
    using show_progress_line [of en k' block_size total_size w2 "()" w2'] by blast
  have le: "k * block_size \<le> k' * block_size"
    using a by (intro mult_right_mono) simp_all
  have t: "0 < total_size" using a by simp
  have m: "pc \<le> pc'"
    by (rule percent_mono [OF t le pc pc'])
  have r: "round_half_even (pc * 10) \<le> round_half_even (pc' * 10)"
    using m by (intro round_half_even_mono) simp
  have f: "total_size \<le> k' * block_size \<longrightarrow>
            pc' = 100 \<and>
            (\<exists>rest. last (stdout w2') = [CHR 0x0D] @ ''Progress: 100.0% ('' @ rest)"
  proof
    assume "total_size \<le> k' * block_size"
    then have full: "pc' = 100" using percent_full [OF t _ pc'] by blast
    have "last (stdout w2') = progress_line 100 dmb' tmb'"
      unfolding w2' full by simp
    then have "last (stdout w2') = [CHR 0x0D] @ ''Progress: 100.0% ('' @
                 (format_fixed 2 dmb' @ '' MB / '' @ format_fixed 2 tmb' @ '' MB)'')"
      unfolding progress_line_full by simp
    then show "pc' = 100 \<and>
            (\<exists>rest. last (stdout w2') = [CHR 0x0D] @ ''Progress: 100.0% ('' @ rest)"
      using full by blast
  qed
  have s1: "stdout w1' = stdout w1 @ [progress_line pc dmb tmb]" unfolding w1' by simp
  have s2: "stdout w2' = stdout w2 @ [progress_line pc' dmb' tmb']" unfolding w2' by simp
  show "\<exists>pc dmb tmb pc' dmb' tmb'.
         stdout w1' = stdout w1 @ [progress_line pc dmb tmb] \<and>
         stdout w2' = stdout w2 @ [progress_line pc' dmb' tmb'] \<and>
         pc \<le> pc' \<and> round_half_even (pc * 10) \<le> round_half_even (pc' * 10) \<and>
         (total_size \<le> k' * block_size \<longrightarrow>
            pc' = 100 \<and>
            (\<exists>rest. last (stdout w2') = [CHR 0x0D] @ ''Progress: 100.0% ('' @ rest))"
    by (intro exI conjI) (rule s1, rule s2, rule m, rule r, rule f)
next
  assume a: "urlretrieve en url filename (show_progress en) w = (Inr (), w') \<and>
    urlopen en url = Inr resp \<and> content_length resp = Some total_size \<and> 0 < total_size \<and>
    (\<forall>b. Inr b \<in> set (reads resp) \<longrightarrow> int (length b) \<le> bs)"
  then have u: "urlretrieve en url filename (show_progress en) w = (Inr (), w')"
    and ro: "urlopen en url = Inr resp" and cl: "content_length resp = Some total_size"
    and t: "0 < total_size"
    and blocks: "\<forall>b. Inr b \<in> set (reads resp) \<longrightarrow> int (length b) \<le> bs"
    by simp_all
  from urlretrieve_reports [OF u ro cl blocks] obtain es where
    ne: "es \<noteq> []" and
    out: "stdout w' = stdout w @ map (\<lambda>(pc, dmb, tmb). progress_line pc dmb tmb) es" and
    pcs: "\<forall>i<length es. percent (int i * bs) total_size = Inr (fst (es ! i))" and
    reach: "0 \<le> total_size \<longrightarrow> total_size \<le> (int (length es) - 1) * bs"
    by blast
  define vs where "vs = map (\<lambda>e. real_of_int (round_half_even (fst e * 10)) / 10) es"
  have len: "length vs = length es" by (simp add: vs_def)
  have bs0: "0 \<le> bs" by (simp add: bs_def)
  have nth: "percent (int i * bs) total_size = Inr (fst (es ! i))" if "i < length es" for i
    using pcs that by blast
  have nonneg: "0 \<le> fst (es ! i)" if "i < length es" for i
    using percent_nonneg [OF _ nth [OF that]] bs0 by simp
  have shown: "fixed_value 1 (format_fixed 1 (fst (es ! i))) = Some (vs ! i)" if "i < length es" for i
    using fixed_value_nonneg [OF nonneg [OF that]] that by (simp add: vs_def)
  have step: "fst (es ! i) \<le> fst (es ! j)" if "i \<le> j" "j < length es" for i j
  proof -
    have "int i * bs \<le> int j * bs" using that(1) bs0 by (intro mult_right_mono) simp_all
    moreover have "i < length es" using that by simp
    ultimately show ?thesis using percent_mono [OF t _ nth nth] that(2) by blast
  qed
  have sorted_pc: "sorted (map fst es)"
    using step by (simp add: sorted_iff_nth_mono)
  have sorted_vs: "sorted vs"
    unfolding vs_def using step
    by (simp add: sorted_iff_nth_mono round_half_even_mono divide_right_mono)
  have lastn: "last es = es ! (length es - 1)"
    using ne by (rule last_conv_nth)
  have li: "length es - 1 < length es" using ne by simp
  have "int (length es - 1) = int (length es) - 1" using ne by (cases es) simp_all
  then have "total_size \<le> int (length es - 1) * bs" using reach t by simp
  then have full: "fst (last es) = 100"
    using percent_full [OF t _ nth [OF li]] lastn by simp
  have "last vs = real_of_int (round_half_even (fst (last es) * 10)) / 10"
    unfolding vs_def using ne by (simp add: last_map)
  then have lastv: "last vs = 100"
    unfolding full by (simp add: round_half_even_def)
  obtain pc dmb tmb where l: "last es = (pc, dmb, tmb)" by (cases "last es")
  have pc: "pc = 100" using full l by simp
  have "last (stdout w') = progress_line 100 dmb tmb"
    unfolding out using ne l pc by (simp add: last_map)
  then have "last (stdout w') = [CHR 0x0D] @ ''Progress: 100.0% ('' @
               (format_fixed 2 dmb @ '' MB / '' @ format_fixed 2 tmb @ '' MB)'')"
    unfolding progress_line_full by simp
  then have lastline: "\<exists>rest. last (stdout w') = [CHR 0x0D] @ ''Progress: 100.0% ('' @ rest"
    by blast
  have both: "\<forall>i<length es.
            percent (int i * bs) total_size = Inr (fst (es ! i)) \<and>
            fixed_value 1 (format_fixed 1 (fst (es ! i))) = Some (vs ! i)"
    using nth shown by blast
  show "\<exists>es vs. es \<noteq> [] \<and> length vs = length es \<and>
         stdout w' = stdout w @ map (\<lambda>(pc, dmb, tmb). progress_line pc dmb tmb) es \<and>
         (\<forall>i<length es.
            percent (int i * bs) total_size = Inr (fst (es ! i)) \<and>
            fixed_value 1 (format_fixed 1 (fst (es ! i))) = Some (vs ! i)) \<and>
         sorted (map fst es) \<and> sorted vs \<and> fst (last es) = 100 \<and> last vs = 100 \<and>
         (\<exists>rest. last (stdout w') = [CHR 0x0D] @ ''Progress: 100.0% ('' @ rest)"
    by (rule exI [of _ es], rule exI [of _ vs], intro conjI)
       (rule ne, rule len, rule out, rule both, rule sorted_pc, rule sorted_vs, rule full,
        rule lastv, rule lastline)
qed

theorem progress_monotone_witness:
  "show_progress good_env 1 8192 20000 fresh_world =
     (Inr (), fresh_world\<lparr>stdout := [[CHR 0x0D] @ ''Progress: 41.0% (0.01 MB / 0.02 MB)'']\<rparr>) \<and>
   show_progress good_env 3 8192 20000 fresh_world =
     (Inr (), fresh_world\<lparr>stdout := [[CHR 0x0D] @ ''Progress: 100.0% (0.02 MB / 0.02 MB)'']\<rparr>) \<and>
   (\<exists>pc dmb tmb pc' dmb' tmb'.
      [[CHR 0x0D] @ ''Progress: 41.0% (0.01 MB / 0.02 MB)''] = [progress_line pc dmb tmb] \<and>
      [[CHR 0x0D] @ ''Progress: 100.0% (0.02 MB / 0.02 MB)''] = [progress_line pc' dmb' tmb'] \<and>
      pc \<le> pc' \<and> round_half_even (pc * 10) \<le> round_half_even (pc' * 10) \<and> pc' = 100) \<and>
   urlretrieve good_env MODEL_URL (MODEL_DIR @ [MODEL_FILE]) (show_progress good_env)
       populated_world =
     (Inr (),
      populated_world
        \<lparr>nodes := (nodes populated_world)
           ([''proj'', ''assets'', ''models'', ''pose_landmark_lite.tflite''] \<mapsto> File [1, 2, 3]),
         stdout :=
           [[CHR 0x0D] @ ''Progress: 0.0% (0.00 MB / 0.00 MB)'',
            [CHR 0x0D] @ ''Progress: 100.0% (0.01 MB / 0.00 MB)'']\<rparr>) \<and>
   (\<exists>es vs. es \<noteq> [] \<and> length vs = length es \<and>
      [[CHR 0x0D] @ ''Progress: 0.0% (0.00 MB / 0.00 MB)'',
       [CHR 0x0D] @ ''Progress: 100.0% (0.01 MB / 0.00 MB)''] =
        map (\<lambda>(pc, dmb, tmb). progress_line pc dmb tmb) es \<and>
      sorted (map fst es) \<and> sorted vs \<and> fst (last es) = 100 \<and> last vs = (100::real))"
proof -
  let ?w1 = "fresh_world\<lparr>stdout := [[CHR 0x0D] @ ''Progress: 41.0% (0.01 MB / 0.02 MB)'']\<rparr>"
  let ?w2 = "fresh_world\<lparr>stdout := [[CHR 0x0D] @ ''Progress: 100.0% (0.02 MB / 0.02 MB)'']\<rparr>"
  let ?w3 = "populated_world
        \<lparr>nodes := (nodes populated_world)
           ([''proj'', ''assets'', ''models'', ''pose_landmark_lite.tflite''] \<mapsto> File [1, 2, 3]),
         stdout :=
           [[CHR 0x0D] @ ''Progress: 0.0% (0.00 MB / 0.00 MB)'',
            [CHR 0x0D] @ ''Progress: 100.0% (0.01 MB / 0.00 MB)'']\<rparr>"
  have h1: "show_progress good_env 1 8192 20000 fresh_world = (Inr (), ?w1)"
    by (simp add: run_eval)
  have h2: "show_progress good_env 3 8192 20000 fresh_world = (Inr (), ?w2)"
    by (simp add: run_eval)
  have pre: "(0::int) \<le> 8192 \<and> (0::int) < 20000 \<and> (1::int) \<le> 3 \<and>
    show_progress good_env 1 8192 20000 fresh_world = (Inr (), ?w1) \<and>
    show_progress good_env 3 8192 20000 fresh_world = (Inr (), ?w2)"
    using h1 h2 by simp
  from progress_monotone [THEN conjunct1, THEN mp, OF pre]
  obtain pc dmb tmb pc' dmb' tmb' where
    a: "stdout ?w1 = stdout fresh_world @ [progress_line pc dmb tmb] \<and>
        stdout ?w2 = stdout fresh_world @ [progress_line pc' dmb' tmb'] \<and>
        pc \<le> pc' \<and> round_half_even (pc * 10) \<le> round_half_even (pc' * 10) \<and>
        ((20000::int) \<le> 3 * 8192 \<longrightarrow>
           pc' = 100 \<and> (\<exists>rest. last (stdout ?w2) = [CHR 0x0D] @ ''Progress: 100.0% ('' @ rest))"
    by (elim exE) (rule that)
  have a1: "stdout ?w1 = stdout fresh_world @ [progress_line pc dmb tmb]"
    by (rule a [THEN conjunct1])
  have a2: "stdout ?w2 = stdout fresh_world @ [progress_line pc' dmb' tmb']"
    by (rule a [THEN conjunct2, THEN conjunct1])
  have a3: "pc \<le> pc'"
    by (rule a [THEN conjunct2, THEN conjunct2, THEN conjunct1])
  have a4: "round_half_even (pc * 10) \<le> round_half_even (pc' * 10)"
    by (rule a [THEN conjunct2, THEN conjunct2, THEN conjunct2, THEN conjunct1])
  have reach: "(20000::int) \<le> 3 * 8192" by simp
  have a5: "pc' = 100 \<and> (\<exists>rest. last (stdout ?w2) = [CHR 0x0D] @ ''Progress: 100.0% ('' @ rest)"
    by (rule a [THEN conjunct2, THEN conjunct2, THEN conjunct2, THEN conjunct2, THEN mp, OF reach])
  have b1: "[[CHR 0x0D] @ ''Progress: 41.0% (0.01 MB / 0.02 MB)''] = [progress_line pc dmb tmb]"
    using a1 by (simp add: fresh_world_def)
  have b2: "[[CHR 0x0D] @ ''Progress: 100.0% (0.02 MB / 0.02 MB)''] = [progress_line pc' dmb' tmb']"
    using a2 by (simp add: fresh_world_def)
  have b5: "pc' = 100" by (rule a5 [THEN conjunct1])
  have A: "\<exists>pc dmb tmb pc' dmb' tmb'.
      [[CHR 0x0D] @ ''Progress: 41.0% (0.01 MB / 0.02 MB)''] = [progress_line pc dmb tmb] \<and>
      [[CHR 0x0D] @ ''Progress: 100.0% (0.02 MB / 0.02 MB)''] = [progress_line pc' dmb' tmb'] \<and>
      pc \<le> pc' \<and> round_half_even (pc * 10) \<le> round_half_even (pc' * 10) \<and> pc' = 100"
    by (intro exI conjI) (rule b1, rule b2, rule a3, rule a4, rule b5)
  have h3: "urlretrieve good_env MODEL_URL (MODEL_DIR @ [MODEL_FILE]) (show_progress good_env)
              populated_world = (Inr (), ?w3)"
    by (simp add: run_eval)
  have pre2: "urlretrieve good_env MODEL_URL (MODEL_DIR @ [MODEL_FILE]) (show_progress good_env)
              populated_world = (Inr (), ?w3) \<and>
    urlopen good_env MODEL_URL = Inr (Response (Some 3) [Inr [1, 2, 3], Inr []]) \<and>
    content_length (Response (Some 3) [Inr [1, 2, 3], Inr []]) = Some 3 \<and> (0::int) < 3 \<and>
    (\<forall>b. Inr b \<in> set (reads (Response (Some 3) [Inr [1, 2, 3], Inr []])) \<longrightarrow>
         int (length b) \<le> bs)"
    using h3 by (auto simp: good_env_def bs_def)
  from progress_monotone [THEN conjunct2, THEN mp, OF pre2]
  obtain es vs where
    c: "es \<noteq> [] \<and> length vs = length es \<and>
        stdout ?w3 = stdout populated_world @ map (\<lambda>(pc, dmb, tmb). progress_line pc dmb tmb) es \<and>
        (\<forall>i<length es.
            percent (int i * bs) 3 = Inr (fst (es ! i)) \<and>
            fixed_value 1 (format_fixed 1 (fst (es ! i))) = Some (vs ! i)) \<and>
        sorted (map fst es) \<and> sorted vs \<and> fst (last es) = 100 \<and> last vs = 100 \<and>
        (\<exists>rest. last (stdout ?w3) = [CHR 0x0D] @ ''Progress: 100.0% ('' @ rest)"
    by (elim exE) (rule that)
  have c1: "es \<noteq> []" by (rule c [THEN conjunct1])
  have c2: "length vs = length es" by (rule c [THEN conjunct2, THEN conjunct1])
  have c3: "stdout ?w3 = stdout populated_world @ map (\<lambda>(pc, dmb, tmb). progress_line pc dmb tmb) es"
    by (rule c [THEN conjunct2, THEN conjunct2, THEN conjunct1])
  have c4: "sorted (map fst es)"
    by (rule c [THEN conjunct2, THEN conjunct2, THEN conjunct2, THEN conjunct2, THEN conjunct1])
  have c5: "sorted vs"
    by (rule c [THEN conjunct2, THEN conjunct2, THEN conjunct2, THEN conjunct2, THEN conjunct2,
                THEN conjunct1])
  have c6: "fst (last es) = 100"
    by (rule c [THEN conjunct2, THEN conjunct2, THEN conjunct2, THEN conjunct2, THEN conjunct2,
                THEN conjunct2, THEN conjunct1])
  have c7: "last vs = 100"
    by (rule c [THEN conjunct2, THEN conjunct2, THEN conjunct2, THEN conjunct2, THEN conjunct2,
                THEN conjunct2, THEN conjunct2, THEN conjunct1])
  have d3: "[[CHR 0x0D] @ ''Progress: 0.0% (0.00 MB / 0.00 MB)'',
             [CHR 0x0D] @ ''Progress: 100.0% (0.01 MB / 0.00 MB)''] =
              map (\<lambda>(pc, dmb, tmb). progress_line pc dmb tmb) es"
    using c3 by (simp add: populated_world_def)
  have B: "\<exists>es vs. es \<noteq> [] \<and> length vs = length es \<and>
      [[CHR 0x0D] @ ''Progress: 0.0% (0.00 MB / 0.00 MB)'',
       [CHR 0x0D] @ ''Progress: 100.0% (0.01 MB / 0.00 MB)''] =
        map (\<lambda>(pc, dmb, tmb). progress_line pc dmb tmb) es \<and>
      sorted (map fst es) \<and> sorted vs \<and> fst (last es) = 100 \<and> last vs = (100::real)"
    by (intro exI conjI) (rule c1, rule c2, rule d3, rule c4, rule c5, rule c6, rule c7)
  show ?thesis
    by (intro conjI) (rule h1, rule h2, rule A, rule h3, rule B)
qed




section \<open>The fetcher\<close>

lemma model_path_text:
  "path_text (c @ MODEL_DIR @ [MODEL_FILE]) = path_text c @ ''/assets/models/pose_landmark_lite.tflite''"
  using path_text_append [of c "MODEL_DIR @ [MODEL_FILE]"] path_text_model by simp

lemma handler_runs:
  assumes "pathlib_mkdir True True w MODEL_DIR = (Inr (), w0)"
    and "announce en (MODEL_DIR @ [MODEL_FILE]) w0 = (Inr (), w3)"
    and "try_body en (MODEL_DIR @ [MODEL_FILE]) w3 = (Inl e, w4)"
    and "is_Exception e"
  shows "stdout_utf8 en \<and> (\<forall>k<4. \<not> stdout_closed en (length (stdout w4) + k)) \<and>
         is_dir w4 (cwd w4) \<longrightarrow>
           download_model en w =
             (Inr False,
              w4\<lparr>stdout := stdout w4 @
                [[CHR 0x0A] @ cross_mark @ '' Download failed: '' @ msg e @ [CHR 0x0A],
                 [CHR 0x0A] @ ''Please download manually:'' @ [CHR 0x0A],
                 ''   URL: '' @ MODEL_URL @ [CHR 0x0A],
                 ''   Save to: '' @ path_text (cwd w4) @
                   ''/assets/models/pose_landmark_lite.tflite'' @ [CHR 0x0A]]\<rparr>)"
    and "\<forall>b w'. download_model en w = (Inr b, w') \<longrightarrow>
           \<not> b \<and>
           w' = w4\<lparr>stdout := stdout w4 @
                [[CHR 0x0A] @ cross_mark @ '' Download failed: '' @ msg e @ [CHR 0x0A],
                 [CHR 0x0A] @ ''Please download manually:'' @ [CHR 0x0A],
                 ''   URL: '' @ MODEL_URL @ [CHR 0x0A],
                 ''   Save to: '' @ path_text (cwd w4) @
                   ''/assets/models/pose_landmark_lite.tflite'' @ [CHR 0x0A]]\<rparr>"
    and "\<not> stdout_utf8 en \<longrightarrow>
           download_model en w =
             (Inl (Exn UnicodeEncodeError ''character maps to <undefined>''), w4)"
proof -
  let ?p = "MODEL_DIR @ [MODEL_FILE]"
  let ?lines = "[[CHR 0x0A] @ cross_mark @ '' Download failed: '' @ msg e @ [CHR 0x0A],
               [CHR 0x0A] @ ''Please download manually:'' @ [CHR 0x0A],
               ''   URL: '' @ MODEL_URL @ [CHR 0x0A],
               ''   Save to: '' @ path_text (cwd w4) @
                 ''/assets/models/pose_landmark_lite.tflite'' @ [CHR 0x0A]]"
  have d: "download_model en w = except_clause en e ?p w4"
    by (rule download_model_caught [OF assms])
  show "stdout_utf8 en \<and> (\<forall>k<4. \<not> stdout_closed en (length (stdout w4) + k)) \<and>
         is_dir w4 (cwd w4) \<longrightarrow>
           download_model en w = (Inr False, w4\<lparr>stdout := stdout w4 @ ?lines\<rparr>)"
  proof
    assume ok: "stdout_utf8 en \<and> (\<forall>k<4. \<not> stdout_closed en (length (stdout w4) + k)) \<and>
       is_dir w4 (cwd w4)"
    have "except_clause en e ?p w4 =
            (Inr False,
             w4\<lparr>stdout := stdout w4 @
               [[CHR 0x0A] @ cross_mark @ '' Download failed: '' @ msg e @ [CHR 0x0A],
                [CHR 0x0A] @ ''Please download manually:'' @ [CHR 0x0A],
                ''   URL: '' @ MODEL_URL @ [CHR 0x0A],
                ''   Save to: '' @ path_text (cwd w4 @ ?p) @ [CHR 0x0A]]\<rparr>)"
      using ok by (intro except_clause_ok) simp_all
    then show "download_model en w = (Inr False, w4\<lparr>stdout := stdout w4 @ ?lines\<rparr>)"
      unfolding d model_path_text by simp
  qed
  show "\<forall>b w'. download_model en w = (Inr b, w') \<longrightarrow>
           \<not> b \<and> w' = w4\<lparr>stdout := stdout w4 @ ?lines\<rparr>"
  proof (intro allI impI)
    fix b w'
    assume "download_model en w = (Inr b, w')"
    then have "except_clause en e ?p w4 = (Inr b, w')" using d by simp
    from except_clause_Inr [OF this model_path_nonempty]
    show "\<not> b \<and> w' = w4\<lparr>stdout := stdout w4 @ ?lines\<rparr>"
      unfolding model_path_text by simp
  qed
  show "\<not> stdout_utf8 en \<longrightarrow>
           download_model en w =
             (Inl (Exn UnicodeEncodeError ''character maps to <undefined>''), w4)"
  proof
    assume "\<not> stdout_utf8 en"
    then show "download_model en w =
           (Inl (Exn UnicodeEncodeError ''character maps to <undefined>''), w4)"
      unfolding d by (rule except_clause_no_utf8)
  qed
qed

text \<open>
  C1, as amended. An exception raised inside the \<^verbatim>\<open>try\<close> of lines 30 to 46 (by the
  transfer, by the progress callback, by the \<^verbatim>\<open>stat\<close> or the size report after it)
  that is an \<^verbatim>\<open>Exception\<close> is caught, and the handler of lines 47 to 52 runs. When
  standard output takes the handler's four lines (its encoding has the cross mark, none
  of the four writes fails) and the working directory is still there, \<open>download_model\<close>
  prints the error message, the notice, the source URL and the absolute destination
  path, and returns \<open>False\<close>; it returns nothing else than \<open>False\<close> with these lines.
  What the handler raises itself is not caught: with an encoding that lacks the cross
  mark its first \<^verbatim>\<open>print\<close> raises \<^verbatim>\<open>UnicodeEncodeError\<close>, which leaves
  \<open>download_model\<close> with nothing more printed. An exception raised by the directory
  creation of line 22, or by the announcement of lines 26 to 28, is raised before the
  \<^verbatim>\<open>try\<close> is entered: it leaves \<open>download_model\<close> as it is.
\<close>

theorem try_errors_caught:
  "(pathlib_mkdir True True w MODEL_DIR = (Inr (), w0) \<and>
    announce en (MODEL_DIR @ [MODEL_FILE]) w0 = (Inr (), w3) \<and>
    try_body en (MODEL_DIR @ [MODEL_FILE]) w3 = (Inl e, w4) \<and> is_Exception e \<longrightarrow>
      (stdout_utf8 en \<and> (\<forall>k<4. \<not> stdout_closed en (length (stdout w4) + k)) \<and>
       is_dir w4 (cwd w4) \<longrightarrow>
         download_model en w =
           (Inr False,
            w4\<lparr>stdout := stdout w4 @
              [[CHR 0x0A] @ cross_mark @ '' Download failed: '' @ msg e @ [CHR 0x0A],
               [CHR 0x0A] @ ''Please download manually:'' @ [CHR 0x0A],
               ''   URL: '' @ MODEL_URL @ [CHR 0x0A],
               ''   Save to: '' @ path_text (cwd w4) @
                 ''/assets/models/pose_landmark_lite.tflite'' @ [CHR 0x0A]]\<rparr>)) \<and>
      (\<forall>b w'. download_model en w = (Inr b, w') \<longrightarrow>
         \<not> b \<and>
         w' = w4\<lparr>stdout := stdout w4 @
              [[CHR 0x0A] @ cross_mark @ '' Download failed: '' @ msg e @ [CHR 0x0A],
               [CHR 0x0A] @ ''Please download manually:'' @ [CHR 0x0A],
               ''   URL: '' @ MODEL_URL @ [CHR 0x0A],
               ''   Save to: '' @ path_text (cwd w4) @
                 ''/assets/models/pose_landmark_lite.tflite'' @ [CHR 0x0A]]\<rparr>) \<and>
      (\<not> stdout_utf8 en \<longrightarrow>
         download_model en w =
           (Inl (Exn UnicodeEncodeError ''character maps to <undefined>''), w4))) \<and>
   (pathlib_mkdir True True w MODEL_DIR = (Inl e', w0') \<longrightarrow>
      download_model en w = (Inl e', w0')) \<and>
   (pathlib_mkdir True True w MODEL_DIR = (Inr (), w0) \<and>
    announce en (MODEL_DIR @ [MODEL_FILE]) w0 = (Inl e', w3') \<longrightarrow>
      download_model en w = (Inl e', w3'))"
proof (intro conjI impI allI)
  let ?lines = "[[CHR 0x0A] @ cross_mark @ '' Download failed: '' @ msg e @ [CHR 0x0A],
               [CHR 0x0A] @ ''Please download manually:'' @ [CHR 0x0A],
               ''   URL: '' @ MODEL_URL @ [CHR 0x0A],
               ''   Save to: '' @ path_text (cwd w4) @
                 ''/assets/models/pose_landmark_lite.tflite'' @ [CHR 0x0A]]"
  assume a: "pathlib_mkdir True True w MODEL_DIR = (Inr (), w0) \<and>
    announce en (MODEL_DIR @ [MODEL_FILE]) w0 = (Inr (), w3) \<and>
    try_body en (MODEL_DIR @ [MODEL_FILE]) w3 = (Inl e, w4) \<and> is_Exception e"
  then have a1: "pathlib_mkdir True True w MODEL_DIR = (Inr (), w0)"
    and a2: "announce en (MODEL_DIR @ [MODEL_FILE]) w0 = (Inr (), w3)"
    and a3: "try_body en (MODEL_DIR @ [MODEL_FILE]) w3 = (Inl e, w4)" and a4: "is_Exception e"
    by simp_all
  {
    assume ok: "stdout_utf8 en \<and> (\<forall>k<4. \<not> stdout_closed en (length (stdout w4) + k)) \<and>
       is_dir w4 (cwd w4)"
    show "download_model en w = (Inr False, w4\<lparr>stdout := stdout w4 @ ?lines\<rparr>)"
      by (rule handler_runs(1) [OF a1 a2 a3 a4, THEN mp, OF ok])
  }
  {
    fix b w'
    assume d: "download_model en w = (Inr b, w')"
    have r: "\<not> b \<and> w' = w4\<lparr>stdout := stdout w4 @ ?lines\<rparr>"
      by (rule handler_runs(2) [OF a1 a2 a3 a4, THEN spec, THEN spec, THEN mp, OF d])
    show "\<not> b" by (rule r [THEN conjunct1])
    show "w' = w4\<lparr>stdout := stdout w4 @ ?lines\<rparr>" by (rule r [THEN conjunct2])
  }
  {
    assume no: "\<not> stdout_utf8 en"
    show "download_model en w =
           (Inl (Exn UnicodeEncodeError ''character maps to <undefined>''), w4)"
      by (rule handler_runs(3) [OF a1 a2 a3 a4, THEN mp, OF no])
  }
next
  assume "pathlib_mkdir True True w MODEL_DIR = (Inl e', w0')"
  then show "download_model en w = (Inl e', w0')"
    by (simp add: download_model_def)
next
  assume "pathlib_mkdir True True w MODEL_DIR = (Inr (), w0) \<and>
    announce en (MODEL_DIR @ [MODEL_FILE]) w0 = (Inl e', w3')"
  then show "download_model en w = (Inl e', w3')"
    by (simp add: download_model_def Let_def)
qed

theorem try_errors_caught_witness:
  "download_model unreachable_env populated_world =
     (Inr False,
      populated_world\<lparr>stdout :=
        [''Downloading MediaPipe Pose Lite model...'' @ [CHR 0x0A],
         ''URL: https://cdn.jsdelivr.net/npm/@mediapipe/pose@0.5.1675469404/pose_landmark_lite.tflite'' @ [CHR 0x0A],
         ''Destination: assets/models/pose_landmark_lite.tflite'' @ [CHR 0x0A],
         [CHR 0x0A, CHR 0xE2, CHR 0x9D, CHR 0x8C] @
           '' Download failed: <urlopen error [Errno -2] Name or service not known>'' @ [CHR 0x0A],
         [CHR 0x0A] @ ''Please download manually:'' @ [CHR 0x0A],
         ''   URL: https://cdn.jsdelivr.net/npm/@mediapipe/pose@0.5.1675469404/pose_landmark_lite.tflite'' @ [CHR 0x0A],
         ''   Save to: /proj/assets/models/pose_landmark_lite.tflite'' @ [CHR 0x0A]]\<rparr>) \<and>
   download_model unreachable_cp1252_env populated_world =
     (Inl (Exn UnicodeEncodeError ''character maps to <undefined>''),
      populated_world\<lparr>stdout :=
        [''Downloading MediaPipe Pose Lite model...'' @ [CHR 0x0A],
         ''URL: https://cdn.jsdelivr.net/npm/@mediapipe/pose@0.5.1675469404/pose_landmark_lite.tflite'' @ [CHR 0x0A],
         ''Destination: assets/models/pose_landmark_lite.tflite'' @ [CHR 0x0A]]\<rparr>) \<and>
   download_model vanished_env readonly_world =
     (Inl (Exn PermissionError ''[Errno 13] Permission denied''), readonly_world) \<and>
   download_model closed_pipe_env populated_world =
     (Inl (Exn BrokenPipeError ''[Errno 32] Broken pipe''), populated_world)"
proof -
  let ?p = "MODEL_DIR @ [MODEL_FILE]"
  let ?e = "Exn URLError ''<urlopen error [Errno -2] Name or service not known>''"
  let ?w3 = "populated_world\<lparr>stdout :=
        [''Downloading MediaPipe Pose Lite model...'' @ [CHR 0x0A],
         ''URL: https://cdn.jsdelivr.net/npm/@mediapipe/pose@0.5.1675469404/pose_landmark_lite.tflite'' @ [CHR 0x0A],
         ''Destination: assets/models/pose_landmark_lite.tflite'' @ [CHR 0x0A]]\<rparr>"
  have h1: "pathlib_mkdir True True populated_world MODEL_DIR = (Inr (), populated_world)"
    by (simp add: run_eval)
  have h2: "announce unreachable_env ?p populated_world = (Inr (), ?w3)"
    by (simp add: run_eval MODEL_URL_def)
  have h2': "announce unreachable_cp1252_env ?p populated_world = (Inr (), ?w3)"
    by (simp add: run_eval MODEL_URL_def)
  have h3: "try_body unreachable_env ?p ?w3 = (Inl ?e, ?w3)"
    by (simp add: try_body_def urlretrieve_def unreachable_env_def good_env_def)
  have h3': "try_body unreachable_cp1252_env ?p ?w3 = (Inl ?e, ?w3)"
    by (simp add: try_body_def urlretrieve_def unreachable_cp1252_env_def unreachable_env_def
          good_env_def)
  have h4: "is_Exception ?e"
    by simp
  have h5: "stdout_utf8 unreachable_env \<and>
            (\<forall>k<4. \<not> stdout_closed unreachable_env (length (stdout ?w3) + k)) \<and>
            is_dir ?w3 (cwd ?w3)"
    by (simp add: unreachable_env_def good_env_def populated_world_def proj_nodes_def is_dir_def)
  have h6: "\<not> stdout_utf8 unreachable_cp1252_env"
    by (simp add: unreachable_cp1252_env_def)
  have h7: "pathlib_mkdir True True readonly_world MODEL_DIR =
              (Inl (Exn PermissionError ''[Errno 13] Permission denied''), readonly_world)"
    by (simp add: run_eval)
  have h8: "pathlib_mkdir True True populated_world MODEL_DIR = (Inr (), populated_world) \<and>
            announce closed_pipe_env ?p populated_world =
              (Inl (Exn BrokenPipeError ''[Errno 32] Broken pipe''), populated_world)"
    by (simp add: run_eval)
  have r1: "download_model unreachable_env populated_world =
           (Inr False,
            ?w3\<lparr>stdout := stdout ?w3 @
              [[CHR 0x0A] @ cross_mark @ '' Download failed: '' @ msg ?e @ [CHR 0x0A],
               [CHR 0x0A] @ ''Please download manually:'' @ [CHR 0x0A],
               ''   URL: '' @ MODEL_URL @ [CHR 0x0A],
               ''   Save to: '' @ path_text (cwd ?w3) @
                 ''/assets/models/pose_landmark_lite.tflite'' @ [CHR 0x0A]]\<rparr>)"
    by (rule try_errors_caught [THEN conjunct1, THEN mp, OF conjI [OF h1 conjI [OF h2 conjI [OF h3 h4]]],
          THEN conjunct1, THEN mp, OF h5])
  have r2: "download_model unreachable_cp1252_env populated_world =
              (Inl (Exn UnicodeEncodeError ''character maps to <undefined>''), ?w3)"
    by (rule try_errors_caught [THEN conjunct1, THEN mp, OF conjI [OF h1 conjI [OF h2' conjI [OF h3' h4]]],
          THEN conjunct2, THEN conjunct2, THEN mp, OF h6])
  have r3: "download_model vanished_env readonly_world =
              (Inl (Exn PermissionError ''[Errno 13] Permission denied''), readonly_world)"
    by (rule try_errors_caught [THEN conjunct2, THEN conjunct1, THEN mp, OF h7])
  have r4: "download_model closed_pipe_env populated_world =
              (Inl (Exn BrokenPipeError ''[Errno 32] Broken pipe''), populated_world)"
    by (rule try_errors_caught [THEN conjunct2, THEN conjunct2, THEN mp, OF h8])
  have r1': "download_model unreachable_env populated_world =
     (Inr False,
      populated_world\<lparr>stdout :=
        [''Downloading MediaPipe Pose Lite model...'' @ [CHR 0x0A],
         ''URL: https://cdn.jsdelivr.net/npm/@mediapipe/pose@0.5.1675469404/pose_landmark_lite.tflite'' @ [CHR 0x0A],
         ''Destination: assets/models/pose_landmark_lite.tflite'' @ [CHR 0x0A],
         [CHR 0x0A, CHR 0xE2, CHR 0x9D, CHR 0x8C] @
           '' Download failed: <urlopen error [Errno -2] Name or service not known>'' @ [CHR 0x0A],
         [CHR 0x0A] @ ''Please download manually:'' @ [CHR 0x0A],
         ''   URL: https://cdn.jsdelivr.net/npm/@mediapipe/pose@0.5.1675469404/pose_landmark_lite.tflite'' @ [CHR 0x0A],
         ''   Save to: /proj/assets/models/pose_landmark_lite.tflite'' @ [CHR 0x0A]]\<rparr>)"
    unfolding r1 by (simp add: populated_world_def path_text_def cross_mark_def MODEL_URL_def)
  show ?thesis
    by (intro conjI) (rule r1', rule r2, rule r3, rule r4)
qed

text \<open>
  C1, as it is written, fails for the directory creation: with the project directory
  not writable, \<^verbatim>\<open>mkdir\<close> raises \<^verbatim>\<open>PermissionError\<close>, and the exception leaves
  \<open>download_model\<close> uncaught: no \<open>False\<close> is returned and nothing is printed.
\<close>

theorem mkdir_error_escapes:
  "download_model good_env readonly_world =
     (Inl (Exn PermissionError ''[Errno 13] Permission denied''), readonly_world)"
  by (simp add: run_eval)



text \<open>
  C5. After a successful fetch a regular file is at the destination; the size in the
  success message is the one \<^verbatim>\<open>stat\<close> reads back for it, its length in bytes divided
  by 1024 twice, each quotient a double (exact for a file of less than \<open>2^53\<close> bytes),
  and shown as a numeral with two decimal places, within \<open>0.005\<close> of the value; the next
  line printed is the absolute destination path, the working directory followed by
  \<^verbatim>\<open>assets/models/pose_landmark_lite.tflite\<close>. These are the last two lines of the
  output.
\<close>

theorem size_report:
  assumes "download_model en w = (Inr True, w')"
  shows "\<exists>content mb v pre.
           nodes w' (cwd w' @ MODEL_DIR @ [MODEL_FILE]) = Some (File content) \<and>
           st_size en w' (MODEL_DIR @ [MODEL_FILE]) = Inr (int (length content)) \<and>
           mb = to_double (to_double (real (length content) / 1024) / 1024) \<and>
           (length content < 2 ^ 53 \<longrightarrow> mb = real (length content) / 1024 / 1024) \<and>
           fixed_value 2 (format_fixed 2 mb) = Some v \<and> \<bar>v - mb\<bar> \<le> 1 / 200 \<and>
           stdout w' = pre @
             [''   File size: '' @ format_fixed 2 mb @ '' MB'' @ [CHR 0x0A],
              ''   Location: '' @ path_text (cwd w') @
                ''/assets/models/pose_landmark_lite.tflite'' @ [CHR 0x0A]]"
proof -
  let ?p = "MODEL_DIR @ [MODEL_FILE]"
  from assms obtain w0 w3 where c3: "cwd w3 = cwd w"
    and tb: "try_body en ?p w3 = (Inr True, w')"
    by (rule download_model_True)
  from tb model_path_nonempty obtain resp w1 mb where
    "True" and
    st: "stat_fault en = None" and c: "cwd w' = cwd w3" and
    "urlopen en MODEL_URL = Inr resp" and
    "urlretrieve en MODEL_URL ?p (show_progress en) w3 = (Inr (), w1)" and
    "nodes w' = nodes w1" and
    fl: "nodes w' (cwd w3 @ ?p) = Some (File (received (reads resp)))" and
    mb: "mib (int (length (received (reads resp)))) = Inr mb" and
    out: "stdout w' = stdout w1 @
              [[CHR 0x0A],
               check_mark @ '' Successfully downloaded '' @ MODEL_FILE @ [CHR 0x0A],
               ''   File size: '' @ format_fixed 2 mb @ '' MB'' @ [CHR 0x0A],
               ''   Location: '' @ path_text (cwd w3 @ ?p) @ [CHR 0x0A]]"
    by (rule try_body_success)
  let ?content = "received (reads resp)"
  let ?pre = "stdout w1 @ [[CHR 0x0A], check_mark @ '' Successfully downloaded '' @ MODEL_FILE @ [CHR 0x0A]]"
  have a: "nodes w' (cwd w' @ ?p) = Some (File ?content)"
    using fl c by simp
  have b: "st_size en w' ?p = Inr (int (length ?content))"
    using a st by (simp add: st_size_def)
  have m1: "mb = to_double (to_double (real (length ?content) / 1024) / 1024)"
    using mib_Inr [OF mb] by simp
  have m2: "length ?content < 2 ^ 53 \<longrightarrow> mb = real (length ?content) / 1024 / 1024"
  proof
    assume "length ?content < 2 ^ 53"
    then have "int (length ?content) < 2 ^ 53"
      by (metis of_nat_less_numeral_power_cancel_iff)
    then have "mib (int (length ?content)) = Inr (real_of_int (int (length ?content)) / 1024 / 1024)"
      by (intro mib_exact) simp_all
    then show "mb = real (length ?content) / 1024 / 1024"
      using mb by simp
  qed
  obtain v where v: "fixed_value 2 (format_fixed 2 mb) = Some v" "\<bar>v - mb\<bar> \<le> 1 / (2 * 10 ^ 2)"
    using fixed_value_format [of 2 mb] by auto
  have v2: "\<bar>v - mb\<bar> \<le> 1 / 200" using v(2) by simp
  have d: "stdout w' = ?pre @
             [''   File size: '' @ format_fixed 2 mb @ '' MB'' @ [CHR 0x0A],
              ''   Location: '' @ path_text (cwd w') @
                ''/assets/models/pose_landmark_lite.tflite'' @ [CHR 0x0A]]"
    unfolding out c model_path_text by simp
  show ?thesis
    by (rule exI [of _ ?content], rule exI [of _ mb], rule exI [of _ v], rule exI [of _ ?pre],
        intro conjI)
       (rule a, rule b, rule m1, rule m2, rule v(1), rule v2, rule d)
qed

theorem size_report_witness:
  "download_model good_env populated_world =
     (Inr True,
      populated_world
        \<lparr>nodes := (nodes populated_world)
           ([''proj'', ''assets'', ''models'', ''pose_landmark_lite.tflite''] \<mapsto> File [1, 2, 3]),
         stdout :=
           [''Downloading MediaPipe Pose Lite model...'' @ [CHR 0x0A],
            ''URL: https://cdn.jsdelivr.net/npm/@mediapipe/pose@0.5.1675469404/pose_landmark_lite.tflite'' @ [CHR 0x0A],
            ''Destination: assets/models/pose_landmark_lite.tflite'' @ [CHR 0x0A],
            [CHR 0x0D] @ ''Progress: 0.0% (0.00 MB / 0.00 MB)'',
            [CHR 0x0D] @ ''Progress: 100.0% (0.01 MB / 0.00 MB)'',
            [CHR 0x0A],
            [CHR 0xE2, CHR 0x9C, CHR 0x85] @ '' Successfully downloaded pose_landmark_lite.tflite'' @ [CHR 0x0A],
            ''   File size: 0.00 MB'' @ [CHR 0x0A],
            ''   Location: /proj/assets/models/pose_landmark_lite.tflite'' @ [CHR 0x0A]]\<rparr>) \<and>
   mib 10485760 = Inr 10 \<and> format_fixed 2 10 = ''10.00'' \<and>
   mib 1500000 = Inr (46875 / 32768) \<and> format_fixed 2 (46875 / 32768) = ''1.43'' \<and>
   fixed_value 2 ''1.43'' = Some (143 / 100) \<and>
   (\<exists>content mb v pre.
      [''Downloading MediaPipe Pose Lite model...'' @ [CHR 0x0A],
       ''URL: https://cdn.jsdelivr.net/npm/@mediapipe/pose@0.5.1675469404/pose_landmark_lite.tflite'' @ [CHR 0x0A],
       ''Destination: assets/models/pose_landmark_lite.tflite'' @ [CHR 0x0A],
       [CHR 0x0D] @ ''Progress: 0.0% (0.00 MB / 0.00 MB)'',
       [CHR 0x0D] @ ''Progress: 100.0% (0.01 MB / 0.00 MB)'',
       [CHR 0x0A],
       [CHR 0xE2, CHR 0x9C, CHR 0x85] @ '' Successfully downloaded pose_landmark_lite.tflite'' @ [CHR 0x0A],
       ''   File size: 0.00 MB'' @ [CHR 0x0A],
       ''   Location: /proj/assets/models/pose_landmark_lite.tflite'' @ [CHR 0x0A]] =
      pre @
        [''   File size: '' @ format_fixed 2 mb @ '' MB'' @ [CHR 0x0A],
         ''   Location: /proj/assets/models/pose_landmark_lite.tflite'' @ [CHR 0x0A]] \<and>
      mb = to_double (to_double (real (length (content :: byte list)) / 1024) / 1024) \<and>
      fixed_value 2 (format_fixed 2 mb) = Some v \<and> \<bar>v - mb\<bar> \<le> 1 / 200)"
proof -
  let ?out = "[''Downloading MediaPipe Pose Lite model...'' @ [CHR 0x0A],
            ''URL: https://cdn.jsdelivr.net/npm/@mediapipe/pose@0.5.1675469404/pose_landmark_lite.tflite'' @ [CHR 0x0A],
            ''Destination: assets/models/pose_landmark_lite.tflite'' @ [CHR 0x0A],
            [CHR 0x0D] @ ''Progress: 0.0% (0.00 MB / 0.00 MB)'',
            [CHR 0x0D] @ ''Progress: 100.0% (0.01 MB / 0.00 MB)'',
            [CHR 0x0A],
            [CHR 0xE2, CHR 0x9C, CHR 0x85] @ '' Successfully downloaded pose_landmark_lite.tflite'' @ [CHR 0x0A],
            ''   File size: 0.00 MB'' @ [CHR 0x0A],
            ''   Location: /proj/assets/models/pose_landmark_lite.tflite'' @ [CHR 0x0A]]"
  let ?w' = "populated_world
        \<lparr>nodes := (nodes populated_world)
           ([''proj'', ''assets'', ''models'', ''pose_landmark_lite.tflite''] \<mapsto> File [1, 2, 3]),
         stdout := ?out\<rparr>"
  have h: "download_model good_env populated_world = (Inr True, ?w')"
    by (rule good_run_output)
  have f1: "mib 10485760 = Inr 10"
    by (simp add: number_eval)
  have f2: "format_fixed 2 10 = ''10.00''"
    by (simp add: format_eval)
  have f3: "mib 1500000 = Inr (46875 / 32768)"
    by (simp add: number_eval)
  have f4: "format_fixed 2 (46875 / 32768) = ''1.43''"
    by (simp add: format_eval)
  have f5: "fixed_value 2 ''1.43'' = Some (143 / 100)"
    by (simp add: fixed_value_def is_digit_def decimal_value_def)
  from size_report [OF h] obtain content mb v pre where
    x: "nodes ?w' (cwd ?w' @ MODEL_DIR @ [MODEL_FILE]) = Some (File content) \<and>
        st_size good_env ?w' (MODEL_DIR @ [MODEL_FILE]) = Inr (int (length content)) \<and>
        mb = to_double (to_double (real (length content) / 1024) / 1024) \<and>
        (length content < 2 ^ 53 \<longrightarrow> mb = real (length content) / 1024 / 1024) \<and>
        fixed_value 2 (format_fixed 2 mb) = Some v \<and> \<bar>v - mb\<bar> \<le> 1 / 200 \<and>
        stdout ?w' = pre @
          [''   File size: '' @ format_fixed 2 mb @ '' MB'' @ [CHR 0x0A],
           ''   Location: '' @ path_text (cwd ?w') @
             ''/assets/models/pose_landmark_lite.tflite'' @ [CHR 0x0A]]"
    by (elim exE) (rule that)
  have x3: "mb = to_double (to_double (real (length content) / 1024) / 1024)"
    by (rule x [THEN conjunct2, THEN conjunct2, THEN conjunct1])
  have x5: "fixed_value 2 (format_fixed 2 mb) = Some v"
    by (rule x [THEN conjunct2, THEN conjunct2, THEN conjunct2, THEN conjunct2, THEN conjunct1])
  have x6: "\<bar>v - mb\<bar> \<le> 1 / 200"
    by (rule x [THEN conjunct2, THEN conjunct2, THEN conjunct2, THEN conjunct2, THEN conjunct2,
                THEN conjunct1])
  have x7: "stdout ?w' = pre @
          [''   File size: '' @ format_fixed 2 mb @ '' MB'' @ [CHR 0x0A],
           ''   Location: '' @ path_text (cwd ?w') @
             ''/assets/models/pose_landmark_lite.tflite'' @ [CHR 0x0A]]"
    by (rule x [THEN conjunct2, THEN conjunct2, THEN conjunct2, THEN conjunct2, THEN conjunct2,
                THEN conjunct2])
  have y7: "?out = pre @
        [''   File size: '' @ format_fixed 2 mb @ '' MB'' @ [CHR 0x0A],
         ''   Location: /proj/assets/models/pose_landmark_lite.tflite'' @ [CHR 0x0A]]"
    using x7 by (simp add: populated_world_def path_text_def)
  have E: "\<exists>content mb v pre.
      ?out = pre @
        [''   File size: '' @ format_fixed 2 mb @ '' MB'' @ [CHR 0x0A],
         ''   Location: /proj/assets/models/pose_landmark_lite.tflite'' @ [CHR 0x0A]] \<and>
      mb = to_double (to_double (real (length (content :: byte list)) / 1024) / 1024) \<and>
      fixed_value 2 (format_fixed 2 mb) = Some v \<and> \<bar>v - mb\<bar> \<le> 1 / 200"
    by (rule exI [of _ content], rule exI [of _ mb], rule exI [of _ v], rule exI [of _ pre],
        intro conjI)
       (rule y7, rule x3, rule x5, rule x6)
  show ?thesis
    by (intro conjI) (rule h, rule f1, rule f2, rule f3, rule f4, rule f5, rule E)
qed

text \<open>
  C6, as amended. When the URL cannot be opened (the working directory set, the model
  directory made and the download announced) and standard output takes the handler's
  four lines (its encoding has the cross mark, none of the four writes fails),
  \<open>download_model\<close> returns \<open>False\<close>, having printed the error message, the
  manual-download notice, the URL and the absolute destination path, and the script
  exits with status 1. With an encoding that lacks the cross mark the handler's first
  \<^verbatim>\<open>print\<close> raises \<^verbatim>\<open>UnicodeEncodeError\<close>: \<open>download_model\<close> returns nothing,
  no recovery line is printed and the exception leaves the script uncaught.
\<close>

theorem unreachable_fails:
  assumes "os_chdir w (butlast (butlast (script_file en))) = (Inr (), w1)"
    and "pathlib_mkdir True True w1 MODEL_DIR = (Inr (), w2)"
    and "announce en (MODEL_DIR @ [MODEL_FILE]) w2 = (Inr (), w3)"
    and "urlopen en MODEL_URL = Inl e"
    and "is_Exception e"
  shows "(stdout_utf8 en \<and> (\<forall>k<4. \<not> stdout_closed en (length (stdout w3) + k)) \<longrightarrow>
            download_model en w1 =
              (Inr False,
               w3\<lparr>stdout := stdout w3 @
                 [[CHR 0x0A] @ cross_mark @ '' Download failed: '' @ msg e @ [CHR 0x0A],
                  [CHR 0x0A] @ ''Please download manually:'' @ [CHR 0x0A],
                  ''   URL: '' @ MODEL_URL @ [CHR 0x0A],
                  ''   Save to: '' @ path_text (cwd w1) @
                    ''/assets/models/pose_landmark_lite.tflite'' @ [CHR 0x0A]]\<rparr>) \<and>
            main en w =
              (Inr 1,
               w3\<lparr>stdout := stdout w3 @
                 [[CHR 0x0A] @ cross_mark @ '' Download failed: '' @ msg e @ [CHR 0x0A],
                  [CHR 0x0A] @ ''Please download manually:'' @ [CHR 0x0A],
                  ''   URL: '' @ MODEL_URL @ [CHR 0x0A],
                  ''   Save to: '' @ path_text (cwd w1) @
                    ''/assets/models/pose_landmark_lite.tflite'' @ [CHR 0x0A]]\<rparr>)) \<and>
         (\<not> stdout_utf8 en \<longrightarrow>
            download_model en w1 =
              (Inl (Exn UnicodeEncodeError ''character maps to <undefined>''), w3) \<and>
            main en w = (Inl (Exn UnicodeEncodeError ''character maps to <undefined>''), w3))"
proof (intro conjI impI)
  let ?p = "MODEL_DIR @ [MODEL_FILE]"
  let ?lines = "[[CHR 0x0A] @ cross_mark @ '' Download failed: '' @ msg e @ [CHR 0x0A],
                  [CHR 0x0A] @ ''Please download manually:'' @ [CHR 0x0A],
                  ''   URL: '' @ MODEL_URL @ [CHR 0x0A],
                  ''   Save to: '' @ path_text (cwd w1) @
                    ''/assets/models/pose_landmark_lite.tflite'' @ [CHR 0x0A]]"
  have tb: "try_body en ?p w3 = (Inl e, w3)"
    using assms(4) by (intro try_body_transfer_raises urlretrieve_unreachable)
  have c2: "cwd w2 = cwd w1" using pathlib_mkdir_cwd [OF assms(2)] by simp
  have f3: "nodes w3 = nodes w2 \<and> cwd w3 = cwd w2" using announce_frame [OF assms(3)] .
  have c3: "cwd w3 = cwd w1" using f3 c2 by simp
  have "is_dir w1 (cwd w1)" using os_chdir_is_dir [OF assms(1)] by simp
  then have "is_dir w2 (cwd w1)" using pathlib_mkdir_is_dir [OF assms(2)] by blast
  then have d3: "is_dir w3 (cwd w3)" using f3 c3 by (simp add: is_dir_def)
  {
    assume ok: "stdout_utf8 en \<and> (\<forall>k<4. \<not> stdout_closed en (length (stdout w3) + k))"
    then have ok': "stdout_utf8 en \<and> (\<forall>k<4. \<not> stdout_closed en (length (stdout w3) + k)) \<and>
                    is_dir w3 (cwd w3)"
      using d3 by simp
    have "download_model en w1 =
            (Inr False,
             w3\<lparr>stdout := stdout w3 @
               [[CHR 0x0A] @ cross_mark @ '' Download failed: '' @ msg e @ [CHR 0x0A],
                [CHR 0x0A] @ ''Please download manually:'' @ [CHR 0x0A],
                ''   URL: '' @ MODEL_URL @ [CHR 0x0A],
                ''   Save to: '' @ path_text (cwd w3) @
                  ''/assets/models/pose_landmark_lite.tflite'' @ [CHR 0x0A]]\<rparr>)"
      by (rule handler_runs(1) [OF assms(2) assms(3) tb assms(5), THEN mp, OF ok'])
    then show d: "download_model en w1 = (Inr False, w3\<lparr>stdout := stdout w3 @ ?lines\<rparr>)"
      unfolding c3 .
    show "main en w = (Inr 1, w3\<lparr>stdout := stdout w3 @ ?lines\<rparr>)"
      using assms(1) d by (simp add: main_def Let_def)
  }
  {
    assume no: "\<not> stdout_utf8 en"
    show d: "download_model en w1 =
               (Inl (Exn UnicodeEncodeError ''character maps to <undefined>''), w3)"
      by (rule handler_runs(3) [OF assms(2) assms(3) tb assms(5), THEN mp, OF no])
    show "main en w = (Inl (Exn UnicodeEncodeError ''character maps to <undefined>''), w3)"
      using assms(1) d by (simp add: main_def Let_def)
  }
qed

theorem unreachable_fails_witness:
  "main unreachable_env fresh_world =
     (Inr 1,
      fresh_world
        \<lparr>nodes := (nodes fresh_world)
           ([''proj'', ''assets''] \<mapsto> Dir True,
            [''proj'', ''assets'', ''models''] \<mapsto> Dir True),
         cwd := [''proj''],
         stdout :=
           [''Downloading MediaPipe Pose Lite model...'' @ [CHR 0x0A],
            ''URL: https://cdn.jsdelivr.net/npm/@mediapipe/pose@0.5.1675469404/pose_landmark_lite.tflite'' @ [CHR 0x0A],
            ''Destination: assets/models/pose_landmark_lite.tflite'' @ [CHR 0x0A],
            [CHR 0x0A, CHR 0xE2, CHR 0x9D, CHR 0x8C] @
              '' Download failed: <urlopen error [Errno -2] Name or service not known>'' @ [CHR 0x0A],
            [CHR 0x0A] @ ''Please download manually:'' @ [CHR 0x0A],
            ''   URL: https://cdn.jsdelivr.net/npm/@mediapipe/pose@0.5.1675469404/pose_landmark_lite.tflite'' @ [CHR 0x0A],
            ''   Save to: /proj/assets/models/pose_landmark_lite.tflite'' @ [CHR 0x0A]]\<rparr>) \<and>
   fst (download_model unreachable_env (fresh_world\<lparr>cwd := [''proj'']\<rparr>)) = Inr False \<and>
   main unreachable_cp1252_env fresh_world =
     (Inl (Exn UnicodeEncodeError ''character maps to <undefined>''),
      fresh_world
        \<lparr>nodes := (nodes fresh_world)
           ([''proj'', ''assets''] \<mapsto> Dir True,
            [''proj'', ''assets'', ''models''] \<mapsto> Dir True),
         cwd := [''proj''],
         stdout :=
           [''Downloading MediaPipe Pose Lite model...'' @ [CHR 0x0A],
            ''URL: https://cdn.jsdelivr.net/npm/@mediapipe/pose@0.5.1675469404/pose_landmark_lite.tflite'' @ [CHR 0x0A],
            ''Destination: assets/models/pose_landmark_lite.tflite'' @ [CHR 0x0A]]\<rparr>)"
proof -
  let ?p = "MODEL_DIR @ [MODEL_FILE]"
  let ?e = "Exn URLError ''<urlopen error [Errno -2] Name or service not known>''"
  let ?w1 = "fresh_world\<lparr>cwd := [''proj'']\<rparr>"
  let ?w2 = "fresh_world
        \<lparr>nodes := (nodes fresh_world)
           ([''proj'', ''assets''] \<mapsto> Dir True,
            [''proj'', ''assets'', ''models''] \<mapsto> Dir True),
         cwd := [''proj'']\<rparr>"
  let ?w3 = "fresh_world
        \<lparr>nodes := (nodes fresh_world)
           ([''proj'', ''assets''] \<mapsto> Dir True,
            [''proj'', ''assets'', ''models''] \<mapsto> Dir True),
         cwd := [''proj''],
         stdout :=
           [''Downloading MediaPipe Pose Lite model...'' @ [CHR 0x0A],
            ''URL: https://cdn.jsdelivr.net/npm/@mediapipe/pose@0.5.1675469404/pose_landmark_lite.tflite'' @ [CHR 0x0A],
            ''Destination: assets/models/pose_landmark_lite.tflite'' @ [CHR 0x0A]]\<rparr>"
  have h1: "os_chdir fresh_world (butlast (butlast (script_file unreachable_env))) = (Inr (), ?w1)"
    by (simp add: run_eval)
  have h1': "os_chdir fresh_world (butlast (butlast (script_file unreachable_cp1252_env))) =
               (Inr (), ?w1)"
    by (simp add: run_eval)
  have h2: "pathlib_mkdir True True ?w1 MODEL_DIR = (Inr (), ?w2)"
    by (simp add: run_eval)
  have h3: "announce unreachable_env ?p ?w2 = (Inr (), ?w3)"
    by (simp add: run_eval MODEL_URL_def)
  have h3': "announce unreachable_cp1252_env ?p ?w2 = (Inr (), ?w3)"
    by (simp add: run_eval MODEL_URL_def)
  have h4: "urlopen unreachable_env MODEL_URL = Inl ?e"
    by (simp add: unreachable_env_def good_env_def)
  have h4': "urlopen unreachable_cp1252_env MODEL_URL = Inl ?e"
    by (simp add: unreachable_cp1252_env_def unreachable_env_def good_env_def)
  have h5: "is_Exception ?e"
    by simp
  have h6: "stdout_utf8 unreachable_env \<and>
            (\<forall>k<4. \<not> stdout_closed unreachable_env (length (stdout ?w3) + k))"
    by (simp add: unreachable_env_def good_env_def)
  have h7: "\<not> stdout_utf8 unreachable_cp1252_env"
    by (simp add: unreachable_cp1252_env_def)
  note ok = unreachable_fails [OF h1 h2 h3 h4 h5, THEN conjunct1, THEN mp, OF h6]
  note bad = unreachable_fails [OF h1' h2 h3' h4' h5, THEN conjunct2, THEN mp, OF h7]
  have r1: "main unreachable_env fresh_world =
     (Inr 1,
      fresh_world
        \<lparr>nodes := (nodes fresh_world)
           ([''proj'', ''assets''] \<mapsto> Dir True,
            [''proj'', ''assets'', ''models''] \<mapsto> Dir True),
         cwd := [''proj''],
         stdout :=
           [''Downloading MediaPipe Pose Lite model...'' @ [CHR 0x0A],
            ''URL: https://cdn.jsdelivr.net/npm/@mediapipe/pose@0.5.1675469404/pose_landmark_lite.tflite'' @ [CHR 0x0A],
            ''Destination: assets/models/pose_landmark_lite.tflite'' @ [CHR 0x0A],
            [CHR 0x0A, CHR 0xE2, CHR 0x9D, CHR 0x8C] @
              '' Download failed: <urlopen error [Errno -2] Name or service not known>'' @ [CHR 0x0A],
            [CHR 0x0A] @ ''Please download manually:'' @ [CHR 0x0A],
            ''   URL: https://cdn.jsdelivr.net/npm/@mediapipe/pose@0.5.1675469404/pose_landmark_lite.tflite'' @ [CHR 0x0A],
            ''   Save to: /proj/assets/models/pose_landmark_lite.tflite'' @ [CHR 0x0A]]\<rparr>)"
    unfolding ok [THEN conjunct2]
    by (simp add: fresh_world_def path_text_def cross_mark_def MODEL_URL_def)
  have r2: "fst (download_model unreachable_env ?w1) = Inr False"
    unfolding ok [THEN conjunct1] by simp
  have r3: "main unreachable_cp1252_env fresh_world =
              (Inl (Exn UnicodeEncodeError ''character maps to <undefined>''), ?w3)"
    by (rule bad [THEN conjunct2])
  show ?thesis
    by (intro conjI) (rule r1, rule r2, rule r3)
qed

text \<open>
  C6, as it is written, fails: with the name not resolved and standard output in an
  encoding without the cross mark, the handler's first line cannot be written;
  \<open>download_model\<close> raises instead of returning failure, nothing follows the three
  lines of the announcement, and the script ends on the uncaught exception, not on
  \<^verbatim>\<open>sys.exit(1)\<close>.
\<close>

theorem unreachable_output_lost:
  "main unreachable_cp1252_env fresh_world =
     (Inl (Exn UnicodeEncodeError ''character maps to <undefined>''),
      fresh_world
        \<lparr>nodes := (nodes fresh_world)
           ([''proj'', ''assets''] \<mapsto> Dir True,
            [''proj'', ''assets'', ''models''] \<mapsto> Dir True),
         cwd := [''proj''],
         stdout :=
           [''Downloading MediaPipe Pose Lite model...'' @ [CHR 0x0A],
            ''URL: https://cdn.jsdelivr.net/npm/@mediapipe/pose@0.5.1675469404/pose_landmark_lite.tflite'' @ [CHR 0x0A],
            ''Destination: assets/models/pose_landmark_lite.tflite'' @ [CHR 0x0A]]\<rparr>) \<and>
   download_model unreachable_cp1252_env (fresh_world\<lparr>cwd := [''proj'']\<rparr>) =
     (Inl (Exn UnicodeEncodeError ''character maps to <undefined>''),
      fresh_world
        \<lparr>nodes := (nodes fresh_world)
           ([''proj'', ''assets''] \<mapsto> Dir True,
            [''proj'', ''assets'', ''models''] \<mapsto> Dir True),
         cwd := [''proj''],
         stdout :=
           [''Downloading MediaPipe Pose Lite model...'' @ [CHR 0x0A],
            ''URL: https://cdn.jsdelivr.net/npm/@mediapipe/pose@0.5.1675469404/pose_landmark_lite.tflite'' @ [CHR 0x0A],
            ''Destination: assets/models/pose_landmark_lite.tflite'' @ [CHR 0x0A]]\<rparr>)"
  by (simp add: run_eval MODEL_URL_def)

text \<open>
  C7. When the model directory exists already, creating it raises nothing and changes
  nothing, and whatever the run then does, no path other than the destination file
  holds anything else afterwards than before.
\<close>

theorem existing_directory_kept:
  assumes "is_dir w (cwd w @ MODEL_DIR)"
  shows "pathlib_mkdir True True w MODEL_DIR = (Inr (), w) \<and>
         (\<forall>q. q \<noteq> cwd w @ MODEL_DIR @ [MODEL_FILE] \<longrightarrow>
              nodes (snd (download_model en w)) q = nodes w q)"
proof
  show m: "pathlib_mkdir True True w MODEL_DIR = (Inr (), w)"
    using assms by (rule pathlib_mkdir_existing)
  show "\<forall>q. q \<noteq> cwd w @ MODEL_DIR @ [MODEL_FILE] \<longrightarrow>
              nodes (snd (download_model en w)) q = nodes w q"
    using download_model_frame [of en w] m by blast
qed

theorem existing_directory_kept_witness:
  "is_dir populated_world (cwd populated_world @ MODEL_DIR) \<and>
   pathlib_mkdir True True populated_world MODEL_DIR = (Inr (), populated_world) \<and>
   nodes (snd (download_model good_env populated_world))
     [''proj'', ''assets'', ''models'', ''labels.txt''] = Some (File [65, 66])"
proof -
  have h: "is_dir populated_world (cwd populated_world @ MODEL_DIR)"
    by (simp add: run_eval)
  have other: "[''proj'', ''assets'', ''models'', ''labels.txt''] \<noteq>
                 cwd populated_world @ MODEL_DIR @ [MODEL_FILE]"
    by (simp add: run_eval)
  have before: "nodes populated_world [''proj'', ''assets'', ''models'', ''labels.txt''] =
                  Some (File [65, 66])"
    by (simp add: run_eval)
  show ?thesis
    using h other before existing_directory_kept [OF h, of good_env] by simp
qed

text \<open>
  C8. After two successful fetches in a row, the destination holds the bytes the first
  response delivered after the first and exactly the bytes the second response delivered
  after the second: the file is opened for writing afresh, nothing is appended and
  nothing of the first transfer is left. The model has no input channel, so nothing is
  asked of the operator.
\<close>

theorem second_fetch_overwrites:
  assumes "download_model en1 w = (Inr True, w1)"
    and "download_model en2 w1 = (Inr True, w2)"
  shows "\<exists>resp1 resp2.
           urlopen en1 MODEL_URL = Inr resp1 \<and> urlopen en2 MODEL_URL = Inr resp2 \<and>
           nodes w1 (cwd w @ MODEL_DIR @ [MODEL_FILE]) = Some (File (received (reads resp1))) \<and>
           nodes w2 (cwd w @ MODEL_DIR @ [MODEL_FILE]) = Some (File (received (reads resp2)))"
proof -
  from assms(1) obtain resp1 where c1: "cwd w1 = cwd w"
    and "stat_fault en1 = None"
    and r1: "urlopen en1 MODEL_URL = Inr resp1"
    and f1: "nodes w1 (cwd w @ MODEL_DIR @ [MODEL_FILE]) = Some (File (received (reads resp1)))"
    by (rule download_model_content)
  from assms(2) obtain resp2 where "cwd w2 = cwd w1"
    and "stat_fault en2 = None"
    and r2: "urlopen en2 MODEL_URL = Inr resp2"
    and f2: "nodes w2 (cwd w1 @ MODEL_DIR @ [MODEL_FILE]) = Some (File (received (reads resp2)))"
    by (rule download_model_content)
  have f2': "nodes w2 (cwd w @ MODEL_DIR @ [MODEL_FILE]) = Some (File (received (reads resp2)))"
    using f2 c1 by simp
  show ?thesis
    by (intro exI conjI) (rule r1, rule r2, rule f1, rule f2')
qed

theorem second_fetch_overwrites_witness:
  "nodes populated_world [''proj'', ''assets'', ''models'', ''pose_landmark_lite.tflite''] =
     Some (File [7, 7, 7, 7, 7]) \<and>
   nodes (snd (download_model good_env populated_world))
     [''proj'', ''assets'', ''models'', ''pose_landmark_lite.tflite''] = Some (File [1, 2, 3]) \<and>
   nodes (snd (download_model second_env (snd (download_model good_env populated_world))))
     [''proj'', ''assets'', ''models'', ''pose_landmark_lite.tflite''] = Some (File [9, 8])"
proof -
  let ?w1 = "snd (download_model good_env populated_world)"
  let ?w2 = "snd (download_model second_env ?w1)"
  have h1: "download_model good_env populated_world = (Inr True, ?w1)"
    by (simp add: run_eval)
  have h2: "download_model second_env ?w1 = (Inr True, ?w2)"
    by (simp add: run_eval)
  have p: "cwd populated_world @ MODEL_DIR @ [MODEL_FILE] =
             [''proj'', ''assets'', ''models'', ''pose_landmark_lite.tflite'']"
    by (simp add: run_eval)
  have r1: "urlopen good_env MODEL_URL = Inr (Response (Some 3) [Inr [1, 2, 3], Inr []])"
    by (simp add: good_env_def)
  have r2: "urlopen second_env MODEL_URL = Inr (Response (Some 2) [Inr [9, 8], Inr []])"
    by (simp add: second_env_def good_env_def)
  have old: "nodes populated_world [''proj'', ''assets'', ''models'', ''pose_landmark_lite.tflite''] =
     Some (File [7, 7, 7, 7, 7])"
    by (simp add: run_eval)
  from second_fetch_overwrites [OF h1 h2] obtain resp1 resp2 where
    "urlopen good_env MODEL_URL = Inr resp1" and "urlopen second_env MODEL_URL = Inr resp2" and
    "nodes ?w1 (cwd populated_world @ MODEL_DIR @ [MODEL_FILE]) = Some (File (received (reads resp1)))" and
    "nodes ?w2 (cwd populated_world @ MODEL_DIR @ [MODEL_FILE]) = Some (File (received (reads resp2)))"
    by blast
  then have "nodes ?w1 [''proj'', ''assets'', ''models'', ''pose_landmark_lite.tflite''] = Some (File [1, 2, 3])"
    and "nodes ?w2 [''proj'', ''assets'', ''models'', ''pose_landmark_lite.tflite''] = Some (File [9, 8])"
    using r1 r2 p by auto
  with old show ?thesis by blast
qed

text \<open>
  C9, as amended. Whenever \<open>download_model\<close> returns \<open>True\<close>, the \<^verbatim>\<open>stat\<close> after the
  transfer raised nothing, a regular file is at the destination, the size \<^verbatim>\<open>stat\<close>
  gives is its length, and the size line printed is that length in MiB. When the
  transfer has returned and the \<^verbatim>\<open>stat\<close> raises an \<^verbatim>\<open>Exception\<close>,
  \<open>download_model\<close> does not return \<open>True\<close>: the handler runs, and if standard output
  takes its four lines (and the working directory is still there) \<open>download_model\<close>
  returns \<open>False\<close> with the failure lines printed; with an encoding that lacks the cross
  mark the handler's first \<^verbatim>\<open>print\<close> raises \<^verbatim>\<open>UnicodeEncodeError\<close> and
  \<open>download_model\<close> returns nothing.
\<close>

theorem success_needs_stat:
  "(download_model en w = (Inr True, w') \<longrightarrow>
      stat_fault en = None \<and>
      (\<exists>content mb pre.
         nodes w' (cwd w' @ MODEL_DIR @ [MODEL_FILE]) = Some (File content) \<and>
         st_size en w' (MODEL_DIR @ [MODEL_FILE]) = Inr (int (length content)) \<and>
         mib (int (length content)) = Inr mb \<and>
         stdout w' = pre @
           [''   File size: '' @ format_fixed 2 mb @ '' MB'' @ [CHR 0x0A],
            ''   Location: '' @ path_text (cwd w') @
              ''/assets/models/pose_landmark_lite.tflite'' @ [CHR 0x0A]])) \<and>
   (pathlib_mkdir True True w MODEL_DIR = (Inr (), w0) \<and>
    announce en (MODEL_DIR @ [MODEL_FILE]) w0 = (Inr (), w3) \<and>
    urlretrieve en MODEL_URL (MODEL_DIR @ [MODEL_FILE]) (show_progress en) w3 = (Inr (), w4) \<and>
    print en [] w4 = (Inr (), w5) \<and>
    st_size en w5 (MODEL_DIR @ [MODEL_FILE]) = Inl e \<and> is_Exception e \<longrightarrow>
      fst (download_model en w) \<noteq> Inr True \<and>
      (stdout_utf8 en \<and> (\<forall>k<4. \<not> stdout_closed en (length (stdout w5) + k)) \<and>
       is_dir w5 (cwd w5) \<longrightarrow>
         download_model en w =
           (Inr False,
            w5\<lparr>stdout := stdout w5 @
              [[CHR 0x0A] @ cross_mark @ '' Download failed: '' @ msg e @ [CHR 0x0A],
               [CHR 0x0A] @ ''Please download manually:'' @ [CHR 0x0A],
               ''   URL: '' @ MODEL_URL @ [CHR 0x0A],
               ''   Save to: '' @ path_text (cwd w5) @
                 ''/assets/models/pose_landmark_lite.tflite'' @ [CHR 0x0A]]\<rparr>)) \<and>
      (\<not> stdout_utf8 en \<longrightarrow>
         download_model en w =
           (Inl (Exn UnicodeEncodeError ''character maps to <undefined>''), w5)))"
proof (intro conjI impI)
  let ?p = "MODEL_DIR @ [MODEL_FILE]"
  assume a: "download_model en w = (Inr True, w')"
  from a obtain w0 w3 where c3: "cwd w3 = cwd w"
    and tb: "try_body en ?p w3 = (Inr True, w')"
    by (rule download_model_True)
  from tb model_path_nonempty obtain resp w1 mb where
    "True" and
    st: "stat_fault en = None" and c: "cwd w' = cwd w3" and
    "urlopen en MODEL_URL = Inr resp" and
    "urlretrieve en MODEL_URL ?p (show_progress en) w3 = (Inr (), w1)" and
    "nodes w' = nodes w1" and
    fl: "nodes w' (cwd w3 @ ?p) = Some (File (received (reads resp)))" and
    mb: "mib (int (length (received (reads resp)))) = Inr mb" and
    out: "stdout w' = stdout w1 @
              [[CHR 0x0A],
               check_mark @ '' Successfully downloaded '' @ MODEL_FILE @ [CHR 0x0A],
               ''   File size: '' @ format_fixed 2 mb @ '' MB'' @ [CHR 0x0A],
               ''   Location: '' @ path_text (cwd w3 @ ?p) @ [CHR 0x0A]]"
    by (rule try_body_success)
  let ?content = "received (reads resp)"
  let ?pre = "stdout w1 @ [[CHR 0x0A], check_mark @ '' Successfully downloaded '' @ MODEL_FILE @ [CHR 0x0A]]"
  show "stat_fault en = None" by (rule st)
  have f: "nodes w' (cwd w' @ ?p) = Some (File ?content)"
    using fl c by simp
  have s: "st_size en w' ?p = Inr (int (length ?content))"
    using f st by (simp add: st_size_def)
  have d: "stdout w' = ?pre @
             [''   File size: '' @ format_fixed 2 mb @ '' MB'' @ [CHR 0x0A],
              ''   Location: '' @ path_text (cwd w') @
                ''/assets/models/pose_landmark_lite.tflite'' @ [CHR 0x0A]]"
    unfolding out c model_path_text by simp
  show "\<exists>content mb pre.
         nodes w' (cwd w' @ MODEL_DIR @ [MODEL_FILE]) = Some (File content) \<and>
         st_size en w' (MODEL_DIR @ [MODEL_FILE]) = Inr (int (length content)) \<and>
         mib (int (length content)) = Inr mb \<and>
         stdout w' = pre @
           [''   File size: '' @ format_fixed 2 mb @ '' MB'' @ [CHR 0x0A],
            ''   Location: '' @ path_text (cwd w') @
              ''/assets/models/pose_landmark_lite.tflite'' @ [CHR 0x0A]]"
    by (rule exI [of _ ?content], rule exI [of _ mb], rule exI [of _ ?pre], intro conjI)
       (rule f, rule s, rule mb, rule d)
next
  let ?p = "MODEL_DIR @ [MODEL_FILE]"
  assume a: "pathlib_mkdir True True w MODEL_DIR = (Inr (), w0) \<and>
    announce en ?p w0 = (Inr (), w3) \<and>
    urlretrieve en MODEL_URL ?p (show_progress en) w3 = (Inr (), w4) \<and>
    print en [] w4 = (Inr (), w5) \<and>
    st_size en w5 ?p = Inl e \<and> is_Exception e"
  then have a1: "pathlib_mkdir True True w MODEL_DIR = (Inr (), w0)"
    and a2: "announce en ?p w0 = (Inr (), w3)"
    and a3: "urlretrieve en MODEL_URL ?p (show_progress en) w3 = (Inr (), w4)"
    and a4: "print en [] w4 = (Inr (), w5)"
    and a5: "st_size en w5 ?p = Inl e" and a6: "is_Exception e"
    by simp_all
  have tb: "try_body en ?p w3 = (Inl e, w5)"
    by (rule try_body_stat_raises [OF a3 a4 a5])
  note h = handler_runs [OF a1 a2 tb a6]
  show "fst (download_model en w) \<noteq> Inr True"
  proof
    assume "fst (download_model en w) = Inr True"
    then have "download_model en w = (Inr True, snd (download_model en w))"
      by (metis prod.collapse)
    then show False using h(2) by blast
  qed
  {
    assume ok: "stdout_utf8 en \<and> (\<forall>k<4. \<not> stdout_closed en (length (stdout w5) + k)) \<and>
       is_dir w5 (cwd w5)"
    show "download_model en w =
           (Inr False,
            w5\<lparr>stdout := stdout w5 @
              [[CHR 0x0A] @ cross_mark @ '' Download failed: '' @ msg e @ [CHR 0x0A],
               [CHR 0x0A] @ ''Please download manually:'' @ [CHR 0x0A],
               ''   URL: '' @ MODEL_URL @ [CHR 0x0A],
               ''   Save to: '' @ path_text (cwd w5) @
                 ''/assets/models/pose_landmark_lite.tflite'' @ [CHR 0x0A]]\<rparr>)"
      by (rule h(1) [THEN mp, OF ok])
  }
  {
    assume no: "\<not> stdout_utf8 en"
    show "download_model en w =
           (Inl (Exn UnicodeEncodeError ''character maps to <undefined>''), w5)"
      by (rule h(3) [THEN mp, OF no])
  }
qed

theorem success_needs_stat_witness:
  "download_model good_env populated_world =
     (Inr True,
      populated_world
        \<lparr>nodes := (nodes populated_world)
           ([''proj'', ''assets'', ''models'', ''pose_landmark_lite.tflite''] \<mapsto> File [1, 2, 3]),
         stdout :=
           [''Downloading MediaPipe Pose Lite model...'' @ [CHR 0x0A],
            ''URL: https://cdn.jsdelivr.net/npm/@mediapipe/pose@0.5.1675469404/pose_landmark_lite.tflite'' @ [CHR 0x0A],
            ''Destination: assets/models/pose_landmark_lite.tflite'' @ [CHR 0x0A],
            [CHR 0x0D] @ ''Progress: 0.0% (0.00 MB / 0.00 MB)'',
            [CHR 0x0D] @ ''Progress: 100.0% (0.01 MB / 0.00 MB)'',
            [CHR 0x0A],
            [CHR 0xE2, CHR 0x9C, CHR 0x85] @ '' Successfully downloaded pose_landmark_lite.tflite'' @ [CHR 0x0A],
            ''   File size: 0.00 MB'' @ [CHR 0x0A],
            ''   Location: /proj/assets/models/pose_landmark_lite.tflite'' @ [CHR 0x0A]]\<rparr>) \<and>
   stat_fault good_env = None \<and>
   download_model vanished_env populated_world =
     (Inr False,
      populated_world
        \<lparr>nodes := (nodes populated_world)
           ([''proj'', ''assets'', ''models'', ''pose_landmark_lite.tflite''] \<mapsto> File [1, 2, 3]),
         stdout :=
           [''Downloading MediaPipe Pose Lite model...'' @ [CHR 0x0A],
            ''URL: https://cdn.jsdelivr.net/npm/@mediapipe/pose@0.5.1675469404/pose_landmark_lite.tflite'' @ [CHR 0x0A],
            ''Destination: assets/models/pose_landmark_lite.tflite'' @ [CHR 0x0A],
            [CHR 0x0D] @ ''Progress: 0.0% (0.00 MB / 0.00 MB)'',
            [CHR 0x0D] @ ''Progress: 100.0% (0.01 MB / 0.00 MB)'',
            [CHR 0x0A],
            [CHR 0x0A, CHR 0xE2, CHR 0x9D, CHR 0x8C] @
              '' Download failed: [Errno 2] No such file or directory'' @ [CHR 0x0A],
            [CHR 0x0A] @ ''Please download manually:'' @ [CHR 0x0A],
            ''   URL: https://cdn.jsdelivr.net/npm/@mediapipe/pose@0.5.1675469404/pose_landmark_lite.tflite'' @ [CHR 0x0A],
            ''   Save to: /proj/assets/models/pose_landmark_lite.tflite'' @ [CHR 0x0A]]\<rparr>) \<and>
   fst (download_model vanished_env populated_world) \<noteq> Inr True \<and>
   fst (download_model vanished_cp1252_env populated_world) =
     Inl (Exn UnicodeEncodeError ''character maps to <undefined>'')"
proof -
  let ?p = "MODEL_DIR @ [MODEL_FILE]"
  let ?e = "Exn FileNotFoundError ''[Errno 2] No such file or directory''"
  let ?w3 = "populated_world\<lparr>stdout :=
        [''Downloading MediaPipe Pose Lite model...'' @ [CHR 0x0A],
         ''URL: https://cdn.jsdelivr.net/npm/@mediapipe/pose@0.5.1675469404/pose_landmark_lite.tflite'' @ [CHR 0x0A],
         ''Destination: assets/models/pose_landmark_lite.tflite'' @ [CHR 0x0A]]\<rparr>"
  let ?w4 = "populated_world
        \<lparr>nodes := (nodes populated_world)
           ([''proj'', ''assets'', ''models'', ''pose_landmark_lite.tflite''] \<mapsto> File [1, 2, 3]),
         stdout :=
           [''Downloading MediaPipe Pose Lite model...'' @ [CHR 0x0A],
            ''URL: https://cdn.jsdelivr.net/npm/@mediapipe/pose@0.5.1675469404/pose_landmark_lite.tflite'' @ [CHR 0x0A],
            ''Destination: assets/models/pose_landmark_lite.tflite'' @ [CHR 0x0A],
            [CHR 0x0D] @ ''Progress: 0.0% (0.00 MB / 0.00 MB)'',
            [CHR 0x0D] @ ''Progress: 100.0% (0.01 MB / 0.00 MB)'']\<rparr>"
  let ?w5 = "populated_world
        \<lparr>nodes := (nodes populated_world)
           ([''proj'', ''assets'', ''models'', ''pose_landmark_lite.tflite''] \<mapsto> File [1, 2, 3]),
         stdout :=
           [''Downloading MediaPipe Pose Lite model...'' @ [CHR 0x0A],
            ''URL: https://cdn.jsdelivr.net/npm/@mediapipe/pose@0.5.1675469404/pose_landmark_lite.tflite'' @ [CHR 0x0A],
            ''Destination: assets/models/pose_landmark_lite.tflite'' @ [CHR 0x0A],
            [CHR 0x0D] @ ''Progress: 0.0% (0.00 MB / 0.00 MB)'',
            [CHR 0x0D] @ ''Progress: 100.0% (0.01 MB / 0.00 MB)'',
            [CHR 0x0A]]\<rparr>"
  have g: "download_model good_env populated_world =
     (Inr True,
      populated_world
        \<lparr>nodes := (nodes populated_world)
           ([''proj'', ''assets'', ''models'', ''pose_landmark_lite.tflite''] \<mapsto> File [1, 2, 3]),
         stdout :=
           [''Downloading MediaPipe Pose Lite model...'' @ [CHR 0x0A],
            ''URL: https://cdn.jsdelivr.net/npm/@mediapipe/pose@0.5.1675469404/pose_landmark_lite.tflite'' @ [CHR 0x0A],
            ''Destination: assets/models/pose_landmark_lite.tflite'' @ [CHR 0x0A],
            [CHR 0x0D] @ ''Progress: 0.0% (0.00 MB / 0.00 MB)'',
            [CHR 0x0D] @ ''Progress: 100.0% (0.01 MB / 0.00 MB)'',
            [CHR 0x0A],
            [CHR 0xE2, CHR 0x9C, CHR 0x85] @ '' Successfully downloaded pose_landmark_lite.tflite'' @ [CHR 0x0A],
            ''   File size: 0.00 MB'' @ [CHR 0x0A],
            ''   Location: /proj/assets/models/pose_landmark_lite.tflite'' @ [CHR 0x0A]]\<rparr>)"
    by (rule good_run_output)
  have g1: "stat_fault good_env = None"
    by (rule success_needs_stat [THEN conjunct1, THEN mp, OF g, THEN conjunct1])
  have h1: "pathlib_mkdir True True populated_world MODEL_DIR = (Inr (), populated_world)"
    by (simp add: run_eval)
  have h2: "announce vanished_env ?p populated_world = (Inr (), ?w3)"
    by (simp add: run_eval MODEL_URL_def)
  have h2': "announce vanished_cp1252_env ?p populated_world = (Inr (), ?w3)"
    by (simp add: run_eval MODEL_URL_def)
  have h3: "urlretrieve vanished_env MODEL_URL ?p (show_progress vanished_env) ?w3 = (Inr (), ?w4)"
    by (simp add: run_eval)
  have h3': "urlretrieve vanished_cp1252_env MODEL_URL ?p (show_progress vanished_cp1252_env) ?w3 =
               (Inr (), ?w4)"
    by (simp add: run_eval)
  have h4: "print vanished_env [] ?w4 = (Inr (), ?w5)"
    by (simp add: run_eval)
  have h4': "print vanished_cp1252_env [] ?w4 = (Inr (), ?w5)"
    by (simp add: run_eval)
  have h5: "st_size vanished_env ?w5 ?p = Inl ?e"
    by (simp add: st_size_def vanished_env_def good_env_def)
  have h5': "st_size vanished_cp1252_env ?w5 ?p = Inl ?e"
    by (simp add: st_size_def vanished_cp1252_env_def vanished_env_def good_env_def)
  have h6: "is_Exception ?e"
    by simp
  have h7: "stdout_utf8 vanished_env \<and>
            (\<forall>k<4. \<not> stdout_closed vanished_env (length (stdout ?w5) + k)) \<and>
            is_dir ?w5 (cwd ?w5)"
    by (simp add: vanished_env_def good_env_def populated_world_def proj_nodes_def is_dir_def)
  have h8: "\<not> stdout_utf8 vanished_cp1252_env"
    by (simp add: vanished_cp1252_env_def)
  note ok = success_needs_stat [THEN conjunct2, THEN mp,
              OF conjI [OF h1 conjI [OF h2 conjI [OF h3 conjI [OF h4 conjI [OF h5 h6]]]]]]
  note bad = success_needs_stat [THEN conjunct2, THEN mp,
              OF conjI [OF h1 conjI [OF h2' conjI [OF h3' conjI [OF h4' conjI [OF h5' h6]]]]]]
  have r1: "download_model vanished_env populated_world =
     (Inr False,
      populated_world
        \<lparr>nodes := (nodes populated_world)
           ([''proj'', ''assets'', ''models'', ''pose_landmark_lite.tflite''] \<mapsto> File [1, 2, 3]),
         stdout :=
           [''Downloading MediaPipe Pose Lite model...'' @ [CHR 0x0A],
            ''URL: https://cdn.jsdelivr.net/npm/@mediapipe/pose@0.5.1675469404/pose_landmark_lite.tflite'' @ [CHR 0x0A],
            ''Destination: assets/models/pose_landmark_lite.tflite'' @ [CHR 0x0A],
            [CHR 0x0D] @ ''Progress: 0.0% (0.00 MB / 0.00 MB)'',
            [CHR 0x0D] @ ''Progress: 100.0% (0.01 MB / 0.00 MB)'',
            [CHR 0x0A],
            [CHR 0x0A, CHR 0xE2, CHR 0x9D, CHR 0x8C] @
              '' Download failed: [Errno 2] No such file or directory'' @ [CHR 0x0A],
            [CHR 0x0A] @ ''Please download manually:'' @ [CHR 0x0A],
            ''   URL: https://cdn.jsdelivr.net/npm/@mediapipe/pose@0.5.1675469404/pose_landmark_lite.tflite'' @ [CHR 0x0A],
            ''   Save to: /proj/assets/models/pose_landmark_lite.tflite'' @ [CHR 0x0A]]\<rparr>)"
    unfolding ok [THEN conjunct2, THEN conjunct1, THEN mp, OF h7]
    by (simp add: populated_world_def path_text_def cross_mark_def MODEL_URL_def)
  have r2: "fst (download_model vanished_env populated_world) \<noteq> Inr True"
    by (rule ok [THEN conjunct1])
  have r3: "fst (download_model vanished_cp1252_env populated_world) =
              Inl (Exn UnicodeEncodeError ''character maps to <undefined>'')"
    unfolding bad [THEN conjunct2, THEN conjunct2, THEN mp, OF h8] by simp
  show ?thesis
    by (intro conjI) (rule g, rule g1, rule r1, rule r2, rule r3)
qed

text \<open>
  C9, as it is written, fails in its second half: with the file gone at the
  \<^verbatim>\<open>stat\<close> and standard output in an encoding without the cross mark, the handler
  raises at its first line, and \<open>download_model\<close> raises instead of returning \<open>False\<close>.
\<close>

theorem stat_failure_escapes:
  "download_model vanished_cp1252_env populated_world =
     (Inl (Exn UnicodeEncodeError ''character maps to <undefined>''),
      populated_world
        \<lparr>nodes := (nodes populated_world)
           ([''proj'', ''assets'', ''models'', ''pose_landmark_lite.tflite''] \<mapsto> File [1, 2, 3]),
         stdout :=
           [''Downloading MediaPipe Pose Lite model...'' @ [CHR 0x0A],
            ''URL: https://cdn.jsdelivr.net/npm/@mediapipe/pose@0.5.1675469404/pose_landmark_lite.tflite'' @ [CHR 0x0A],
            ''Destination: assets/models/pose_landmark_lite.tflite'' @ [CHR 0x0A],
            [CHR 0x0D] @ ''Progress: 0.0% (0.00 MB / 0.00 MB)'',
            [CHR 0x0D] @ ''Progress: 100.0% (0.01 MB / 0.00 MB)'',
            [CHR 0x0A]]\<rparr>)"
  by (simp add: run_eval MODEL_URL_def)

end
